(* ===== verification/Prelude.thy ===== *)
theory Prelude
  imports Main "HOL-Library.Word" "HOL-Library.Multiset"
begin

text \<open>
  Shared vocabulary of the development: the failures a C++ operation can end in, the result type
  every fallible operation returns, a container interface for \<^verbatim>\<open>std::map\<close> with its
  sorted association list model, and generic facts on lists and words.

  Conventions. A \<^verbatim>\<open>.at()\<close> that throws, a null dereference, a failed
  \<^verbatim>\<open>FML_CHECK\<close>, \<^verbatim>\<open>FML_DCHECK\<close> or \<^verbatim>\<open>assert\<close> and
  an out-of-range iterator are values of \<open>cxx_error\<close>. The debug build is modelled, in which
  \<^verbatim>\<open>FML_DCHECK\<close> is fatal: wherever a model returns \<open>Inr\<close>, the release
  build computes the same thing.
\<close>

section \<open>Failures and results\<close>

datatype cxx_error =
    OutOfRange        \<comment> \<open>\<^verbatim>\<open>std::out_of_range\<close> thrown by \<^verbatim>\<open>at()\<close>\<close>
  | NullDeref         \<comment> \<open>a null pointer is dereferenced\<close>
  | DCheckFailed      \<comment> \<open>\<^verbatim>\<open>FML_DCHECK\<close>\<close>
  | CheckFailed       \<comment> \<open>\<^verbatim>\<open>FML_CHECK\<close>\<close>
  | AssertFailed      \<comment> \<open>\<^verbatim>\<open>assert\<close>\<close>
  | RangeError        \<comment> \<open>\<^verbatim>\<open>std::range_error\<close>, e.g. an ill-formed conversion\<close>
  | BadIterator       \<comment> \<open>an iterator outside its container is used\<close>
  | UninitRead        \<comment> \<open>an uninitialised variable is read\<close>
  | UnorderedKey      \<comment> \<open>a key for which a comparator is no strict weak order\<close>
  | OutOfFuel         \<comment> \<open>a model's recursion bound was too small; shown not to happen\<close>

type_synonym 'a res = "cxx_error + 'a"

definition bind_res :: "'e + 'a \<Rightarrow> ('a \<Rightarrow> 'e + 'b) \<Rightarrow> 'e + 'b" where
  "bind_res r f = (case r of Inl e \<Rightarrow> Inl e | Inr x \<Rightarrow> f x)"

definition guard :: "cxx_error \<Rightarrow> bool \<Rightarrow> unit res" where
  "guard e b = (if b then Inr () else Inl e)"

definition at_key :: "('k \<rightharpoonup> 'v) \<Rightarrow> 'k \<Rightarrow> 'v res" where
  "at_key m k = (case m k of None \<Rightarrow> Inl OutOfRange | Some v \<Rightarrow> Inr v)"

text \<open>
  \<^verbatim>\<open>m[k]->f\<close> on a map of owning pointers: a missing key is default-inserted as a null
  pointer, which the arrow then dereferences.
\<close>

definition deref_key :: "('k \<rightharpoonup> 'v) \<Rightarrow> 'k \<Rightarrow> 'v res" where
  "deref_key m k = (case m k of None \<Rightarrow> Inl NullDeref | Some v \<Rightarrow> Inr v)"

lemma bind_res_simps [simp]:
  "bind_res (Inl e) f = Inl e" "bind_res (Inr x) f = f x"
  by (simp_all add: bind_res_def)

lemma bind_res_eq_Inr [simp]:
  "bind_res r f = Inr y \<longleftrightarrow> (\<exists>x. r = Inr x \<and> f x = Inr y)"
  by (cases r) auto

lemma bind_res_assoc: "bind_res (bind_res r f) g = bind_res r (\<lambda>x. bind_res (f x) g)"
  by (cases r) simp_all

lemma bind_res_Inr [simp]: "bind_res r (\<lambda>x. Inr x) = r"
  by (cases r) simp_all

lemma bind_res_cong [fundef_cong]:
  "r = r' \<Longrightarrow> (\<And>x. r' = Inr x \<Longrightarrow> f x = f' x) \<Longrightarrow> bind_res r f = bind_res r' f'"
  by (cases r') auto

lemma guard_simps [simp]:
  "guard e True = Inr ()" "guard e False = Inl e" "guard e b = Inr u \<longleftrightarrow> b"
  by (simp_all add: guard_def)

lemma at_key_eq_Inr [simp]: "at_key m k = Inr v \<longleftrightarrow> m k = Some v"
  by (simp add: at_key_def split: option.split)

lemma at_key_Some [simp]: "m k = Some v \<Longrightarrow> at_key m k = Inr v"
  by simp

lemma deref_key_eq_Inr [simp]: "deref_key m k = Inr v \<longleftrightarrow> m k = Some v"
  by (simp add: deref_key_def split: option.split)

lemma deref_key_Some [simp]: "m k = Some v \<Longrightarrow> deref_key m k = Inr v"
  by simp

section \<open>Containers: the ordered map interface\<close>

text \<open>
  What a client of \<^verbatim>\<open>std::map\<close> relies on: \<open>find\<close> after a write or an erase,
  and iteration in strictly ascending key order.
\<close>

locale ordered_map =
  fixes find :: "'m \<Rightarrow> 'k::linorder \<Rightarrow> 'v option"
    and assign :: "'k \<Rightarrow> 'v \<Rightarrow> 'm \<Rightarrow> 'm"
    and erase :: "'k \<Rightarrow> 'm \<Rightarrow> 'm"
    and entries :: "'m \<Rightarrow> ('k \<times> 'v) list"
    and invar :: "'m \<Rightarrow> bool"
  assumes find_assign: "invar m \<Longrightarrow> find (assign k v m) k' = (if k' = k then Some v else find m k')"
    and find_erase: "invar m \<Longrightarrow> find (erase k m) k' = (if k' = k then None else find m k')"
    and find_entries: "invar m \<Longrightarrow> find m k = map_of (entries m) k"
    and sorted_entries: "invar m \<Longrightarrow> sorted_wrt (<) (map fst (entries m))"
    and invar_assign: "invar m \<Longrightarrow> invar (assign k v m)"
    and invar_erase: "invar m \<Longrightarrow> invar (erase k m)"
begin

lemma distinct_entries: "invar m \<Longrightarrow> distinct (map fst (entries m))"
  using sorted_entries strict_sorted_iff by blast

lemma entries_iff: "invar m \<Longrightarrow> (k, v) \<in> set (entries m) \<longleftrightarrow> find m k = Some v"
  by (simp add: find_entries distinct_entries)

lemma assign_idem:
  "invar m \<Longrightarrow> find (assign k v (assign k v' m)) k' = find (assign k v m) k'"
  by (simp add: find_assign invar_assign)

lemma erase_assign:
  "invar m \<Longrightarrow> find m k = None \<Longrightarrow> find (erase k (assign k v m)) k' = find m k'"
  by (simp add: find_assign find_erase invar_assign)

end

text \<open>The model: an association list with strictly ascending keys.\<close>

fun map_assign :: "'k::linorder \<Rightarrow> 'v \<Rightarrow> ('k \<times> 'v) list \<Rightarrow> ('k \<times> 'v) list" where
  "map_assign k v [] = [(k, v)]"
| "map_assign k v ((k', v') # m) =
     (if k < k' then (k, v) # (k', v') # m
      else if k = k' then (k, v) # m
      else (k', v') # map_assign k v m)"

fun map_erase :: "'k \<Rightarrow> ('k \<times> 'v) list \<Rightarrow> ('k \<times> 'v) list" where
  "map_erase k [] = []"
| "map_erase k ((k', v') # m) = (if k = k' then m else (k', v') # map_erase k m)"

definition map_wf :: "('k::linorder \<times> 'v) list \<Rightarrow> bool" where
  "map_wf m \<longleftrightarrow> sorted_wrt (<) (map fst m)"

lemma map_wf_simps [simp]:
  "map_wf []"
  "map_wf ((k, v) # m) \<longleftrightarrow> (\<forall>x \<in> set m. k < fst x) \<and> map_wf m"
  by (auto simp: map_wf_def)

lemma set_map_assign: "set (map_assign k v m) \<subseteq> insert (k, v) (set m)"
  by (induction k v m rule: map_assign.induct) auto

lemma set_map_erase: "set (map_erase k m) \<subseteq> set m"
  by (induction k m rule: map_erase.induct) auto

lemma map_wf_assign: "map_wf m \<Longrightarrow> map_wf (map_assign k v m)"
proof (induction k v m rule: map_assign.induct)
  case (2 k v k' v' m)
  then show ?case using set_map_assign [of k v m] by (fastforce split: if_splits)
qed simp

lemma map_wf_erase: "map_wf m \<Longrightarrow> map_wf (map_erase k m)"
proof (induction k m rule: map_erase.induct)
  case (2 k k' v' m)
  then show ?case using set_map_erase [of k m] by auto
qed simp

lemma map_of_assign:
  "map_wf m \<Longrightarrow> map_of (map_assign k v m) k' = (if k' = k then Some v else map_of m k')"
  by (induction k v m rule: map_assign.induct) auto

lemma map_of_above: "(\<forall>x \<in> set m. (k::'k::linorder) < fst x) \<Longrightarrow> map_of m k = None"
  by (induction m) auto

lemma map_of_erase:
  "map_wf m \<Longrightarrow> map_of (map_erase k m) k' = (if k' = k then None else map_of m k')"
  by (induction k m rule: map_erase.induct) (auto simp: map_of_above)

interpretation std_map: ordered_map map_of map_assign map_erase "\<lambda>m. m" map_wf
  by unfold_locales
    (simp_all add: map_of_assign map_of_erase map_wf_assign map_wf_erase map_wf_def [THEN iffD1])

section \<open>Generic lemmas\<close>

lemma unat_of_nat_below: "n < 2 ^ LENGTH('a) \<Longrightarrow> unat (of_nat n :: 'a::len word) = n"
  by (simp add: unsigned_of_nat take_bit_nat_eq_self)

lemma concat_chunk:
  "(\<And>x. x \<in> set xs \<Longrightarrow> length (f x) = n) \<Longrightarrow> i < length xs \<Longrightarrow>
     take n (drop (i * n) (concat (map f xs))) = f (xs ! i)"
proof (induction xs arbitrary: i)
  case (Cons x xs)
  then show ?case by (cases i) simp_all
qed simp

lemma length_concat_chunks:
  "(\<And>x. x \<in> set xs \<Longrightarrow> length (f x) = n) \<Longrightarrow> length (concat (map f xs)) = length xs * n"
  by (induction xs) simp_all

lemma unat_lt_of_bound: "unat (x :: 'a::len word) < 2 ^ LENGTH('a)"
  using unsigned_less [of x] by simp

lemma filter_mset_partition:
  assumes "\<And>x. x \<in># A \<Longrightarrow> P x" "\<And>x. x \<in># B \<Longrightarrow> \<not> P x"
  shows "filter_mset P (A + B) = A" "filter_mset P (B + A) = A"
proof -
  have "filter_mset P A = filter_mset (\<lambda>_. True) A" by (rule filter_mset_cong) (use assms in auto)
  moreover have "filter_mset P B = filter_mset (\<lambda>_. False) B"
    by (rule filter_mset_cong) (use assms in auto)
  ultimately show "filter_mset P (A + B) = A" "filter_mset P (B + A) = A" by simp_all
qed

lemma sorted_wrt_mono_set:
  "sorted_wrt P xs \<Longrightarrow> (\<And>x y. x \<in> set xs \<Longrightarrow> y \<in> set xs \<Longrightarrow> P x y \<Longrightarrow> Q x y) \<Longrightarrow> sorted_wrt Q xs"
  by (induction xs) auto

text \<open>A 32-bit counter sign-extended to 64 bits keeps its unsigned order.\<close>

lemma mod_window: "(2::int) ^ n \<le> x \<Longrightarrow> x < 2 * 2 ^ n \<Longrightarrow> x mod 2 ^ n = x - 2 ^ n"
  by (metis diff_ge_0_iff_ge minus_mod_self2 mod_pos_pos_trivial mult_2 diff_less_eq)

lemma sint_word32_eq: "sint (c::32 word) = (uint c + 2^31) mod 2^32 - 2^31"
  by (simp add: sint_uint signed_take_bit_eq_take_bit_shift take_bit_eq_mod)

lemma uint_scast_32_64: "uint (scast (c::32 word) :: 64 word) = (if uint c < 2^31 then uint c else uint c + 2^64 - 2^32)"
proof -
  have b: "0 \<le> uint c" "uint c < 2^32" using uint_range_size [of c] by (simp_all add: word_size)
  have "uint (scast c :: 64 word) = sint c mod 2^64" by (simp only: scast_eq uint_word_of_int) simp
  also have "\<dots> = ((uint c + 2^31) mod 2^32 - 2^31) mod 2^64" by (simp add: sint_word32_eq)
  also have "\<dots> = (if uint c < 2^31 then uint c else uint c + 2^64 - 2^32)"
  proof (cases "uint c < 2^31")
    case True
    then have "(uint c + 2^31) mod 2^32 = uint c + 2^31" using b by (intro mod_pos_pos_trivial) auto
    with True b show ?thesis by simp
  next
    case False
    then have 1: "(uint c + 2^31) mod 2^32 = uint c + 2^31 - 2^32"
      using b by (intro mod_window) auto
    have "(uint c - 2^32) mod 2^64 = (uint c - 2^32 + 2^64) mod 2^64" by (simp only: mod_add_self2)
    also have "\<dots> = uint c - 2^32 + 2^64" using b False by (intro mod_pos_pos_trivial) auto
    finally show ?thesis using False 1 by simp
  qed
  finally show ?thesis .
qed

lemma scast_32_64_mono: "unat (c::32 word) < unat (d::32 word) \<Longrightarrow> (scast c :: 64 word) < scast d"
proof -
  assume "unat c < unat d"
  then have "c < d" by (simp only: word_less_nat_alt)
  then have "uint c < uint d" by (simp only: word_less_def)
  then show ?thesis using uint_range_size [of d]  uint_range_size [of c] unfolding word_less_def uint_scast_32_64 by (auto simp: word_size)
qed

lemma unat_ucast_64_32: "unat (v::64 word) < 2 ^ 32 \<Longrightarrow> unat (ucast v :: 32 word) = unat v"
  by (simp add: unsigned_ucast_eq take_bit_nat_eq_self)

lemma ucast_minus_one_64_32: "ucast (- 1 :: 64 word) = (- 1 :: 32 word)"
  by (rule bit_word_eqI) (simp add: bit_simps)

end
