(* ===== verification/Delayed_Tasks.thy ===== *)
theory Delayed_Tasks
  imports Prelude
begin

text \<open>
  \<^verbatim>\<open>fml/delayed_task.{h,cc}\<close>: a task with its submission order and target time, the
  order \<^verbatim>\<open>operator>\<close> on tasks, and \<^verbatim>\<open>DelayedTaskQueue\<close>, the
  \<^verbatim>\<open>std::priority_queue\<close> of tasks under \<^verbatim>\<open>std::greater\<close>.

  The locale \<open>priority_queue\<close> states what the task queues rely on; the queue is modelled by the
  list of its tasks in the order \<^verbatim>\<open>pop()\<close> yields them, which the interpretation
  \<open>dtq\<close> shows to satisfy the contract.
\<close>

section \<open>The priority queue contract\<close>

locale priority_queue =
  fixes gt :: "'a \<Rightarrow> 'a \<Rightarrow> bool"
    and push :: "'a \<Rightarrow> 'q \<Rightarrow> 'q"
    and top :: "'q \<Rightarrow> 'a"
    and pop :: "'q \<Rightarrow> 'q"
    and contents :: "'q \<Rightarrow> 'a multiset"
    and invar :: "'q \<Rightarrow> bool"
  assumes contents_push: "invar q \<Longrightarrow> contents (push x q) = add_mset x (contents q)"
    and contents_pop: "invar q \<Longrightarrow> contents q \<noteq> {#} \<Longrightarrow> contents q = add_mset (top q) (contents (pop q))"
    and top_least: "invar q \<Longrightarrow> y \<in># contents q \<Longrightarrow> \<not> gt (top q) y"
    and invar_push: "invar q \<Longrightarrow> invar (push x q)"
    and invar_pop: "invar q \<Longrightarrow> contents q \<noteq> {#} \<Longrightarrow> invar (pop q)"
begin

lemma top_in_contents: "invar q \<Longrightarrow> contents q \<noteq> {#} \<Longrightarrow> top q \<in># contents q"
  using contents_pop [of q] by (metis union_single_eq_member)

lemma size_pop: "invar q \<Longrightarrow> contents q \<noteq> {#} \<Longrightarrow> size (contents (pop q)) < size (contents q)"
  using contents_pop [of q] by (metis lessI size_add_mset)

text \<open>Popping \<open>n\<close> times yields the tasks in non-descending order.\<close>

fun drain :: "nat \<Rightarrow> 'q \<Rightarrow> 'a list" where
  "drain 0 q = []"
| "drain (Suc n) q = (if contents q = {#} then [] else top q # drain n (pop q))"

lemma drain_subset: "invar q \<Longrightarrow> set (drain n q) \<subseteq> set_mset (contents q)"
proof (induction n arbitrary: q)
  case (Suc n)
  show ?case
  proof (cases "contents q = {#}")
    case False
    with Suc.prems have "set (drain n (pop q)) \<subseteq> set_mset (contents (pop q))"
      by (intro Suc.IH invar_pop)
    also have "\<dots> \<subseteq> set_mset (contents q)"
      using contents_pop [OF Suc.prems False] by (metis set_mset_add_mset_insert subset_insertI)
    finally show ?thesis using False top_in_contents [OF Suc.prems False] by auto
  qed simp
qed simp

lemma drain_sorted: "invar q \<Longrightarrow> sorted_wrt (\<lambda>x y. \<not> gt x y) (drain n q)"
proof (induction n arbitrary: q)
  case (Suc n)
  show ?case
  proof (cases "contents q = {#}")
    case False
    have inv: "invar (pop q)" using Suc.prems False by (rule invar_pop)
    have "y \<in># contents q" if "y \<in> set (drain n (pop q))" for y
      using that drain_subset [OF inv, of n] contents_pop [OF Suc.prems False]
      by (metis insert_iff set_mset_add_mset_insert subsetD)
    then show ?thesis using False Suc.IH [OF inv] top_least [OF Suc.prems] by auto
  qed simp
qed simp

end

section \<open>Tasks\<close>

text \<open>
  \<open>dt_order\<close> is a \<^verbatim>\<open>size_t\<close>; target times are the signed tick count of
  \<^verbatim>\<open>fml::TimePoint\<close>, which this component only compares.
\<close>

record 'c delayed_task =
  dt_order :: "64 word"
  dt_task :: 'c
  dt_target_time :: int

definition DelayedTask :: "64 word \<Rightarrow> 'c \<Rightarrow> int \<Rightarrow> 'c delayed_task" where
  "DelayedTask order task target_time = \<lparr>dt_order = order, dt_task = task, dt_target_time = target_time\<rparr>"

definition GetTask :: "'c delayed_task \<Rightarrow> 'c" where
  "GetTask t = dt_task t"

definition GetTargetTime :: "'c delayed_task \<Rightarrow> int" where
  "GetTargetTime t = dt_target_time t"

definition task_gt :: "'c delayed_task \<Rightarrow> 'c delayed_task \<Rightarrow> bool" where
  "task_gt t other =
     (if dt_target_time t = dt_target_time other then dt_order t > dt_order other
      else dt_target_time t > dt_target_time other)"

lemma task_gt_irrefl [simp]: "\<not> task_gt t t"
  by (simp add: task_gt_def)

lemma task_gt_trans: "task_gt a b \<Longrightarrow> task_gt b c \<Longrightarrow> task_gt a c"
  by (auto simp: task_gt_def split: if_splits)

lemma task_not_gt_trans: "\<not> task_gt a b \<Longrightarrow> \<not> task_gt b c \<Longrightarrow> \<not> task_gt a c"
  by (auto simp: task_gt_def split: if_splits)

lemma task_gt_asym: "task_gt a b \<Longrightarrow> \<not> task_gt b a"
  by (auto simp: task_gt_def split: if_splits)

lemma task_not_gt_time: "\<not> task_gt a b \<Longrightarrow> dt_target_time a \<le> dt_target_time b"
  by (auto simp: task_gt_def split: if_splits)

section \<open>DelayedTaskQueue\<close>

type_synonym 'c delayed_task_queue = "'c delayed_task list"

fun pq_push :: "'c delayed_task \<Rightarrow> 'c delayed_task_queue \<Rightarrow> 'c delayed_task_queue" where
  "pq_push x [] = [x]"
| "pq_push x (y # q) = (if task_gt y x then x # y # q else y # pq_push x q)"

definition pq_wf :: "'c delayed_task_queue \<Rightarrow> bool" where
  "pq_wf q \<longleftrightarrow> sorted_wrt (\<lambda>x y. \<not> task_gt x y) q"

text \<open>\<^verbatim>\<open>top()\<close> and \<^verbatim>\<open>pop()\<close> on an empty queue are undefined.\<close>

definition pq_top :: "'c delayed_task_queue \<Rightarrow> 'c delayed_task res" where
  "pq_top q = (case q of [] \<Rightarrow> Inl BadIterator | t # _ \<Rightarrow> Inr t)"

definition pq_pop :: "'c delayed_task_queue \<Rightarrow> 'c delayed_task_queue res" where
  "pq_pop q = (case q of [] \<Rightarrow> Inl BadIterator | _ # q' \<Rightarrow> Inr q')"

lemma pq_top_eq_Inr [simp]: "pq_top q = Inr t \<longleftrightarrow> (\<exists>q'. q = t # q')"
  by (auto simp: pq_top_def split: list.split)

lemma pq_pop_eq_Inr [simp]: "pq_pop q = Inr q' \<longleftrightarrow> (\<exists>t. q = t # q')"
  by (auto simp: pq_pop_def split: list.split)

lemma pq_top_Cons [simp]: "pq_top (t # q) = Inr t" and pq_pop_Cons [simp]: "pq_pop (t # q) = Inr q"
  by simp_all

lemma pq_wf_simps [simp]:
  "pq_wf []" "pq_wf (x # q) \<longleftrightarrow> (\<forall>y \<in> set q. \<not> task_gt x y) \<and> pq_wf q"
  by (simp_all add: pq_wf_def)

lemma mset_pq_push [simp]: "mset (pq_push x q) = add_mset x (mset q)"
  by (induction x q rule: pq_push.induct) auto

lemma set_pq_push [simp]: "set (pq_push x q) = insert x (set q)"
  by (induction x q rule: pq_push.induct) auto

lemma length_pq_push [simp]: "length (pq_push x q) = Suc (length q)"
  by (induction x q rule: pq_push.induct) auto

lemma pq_push_not_Nil [simp]: "pq_push x q \<noteq> []"
  by (cases q) auto

lemma pq_wf_push: "pq_wf q \<Longrightarrow> pq_wf (pq_push x q)"
proof (induction x q rule: pq_push.induct)
  case (2 x y q)
  then show ?case
    by (fastforce dest: task_gt_asym task_gt_trans split: if_splits)
qed simp

interpretation dtq: priority_queue task_gt pq_push hd tl mset pq_wf
proof unfold_locales
  fix q :: "'a delayed_task_queue" and y
  assume "pq_wf q" "y \<in># mset q"
  then show "\<not> task_gt (hd q) y" by (cases q) auto
next
  fix q :: "'a delayed_task_queue"
  assume "pq_wf q" "mset q \<noteq> {#}"
  then show "mset q = add_mset (hd q) (mset (tl q))" and "pq_wf (tl q)"
    by (cases q; simp)+
qed (simp_all add: pq_wf_push)

text \<open>A strictly ordered queue is determined by its contents.\<close>

lemma pq_push_above: "(\<forall>y \<in> set q. \<not> task_gt y x) \<Longrightarrow> pq_push x q = q @ [x]"
  by (induction q) auto

lemma pq_merge_unique:
  assumes "pq_wf xs" "pq_wf ys" "mset xs = mset ys"
    and "\<And>a b. a \<in> set xs \<Longrightarrow> b \<in> set xs \<Longrightarrow> \<not> task_gt a b \<Longrightarrow> \<not> task_gt b a \<Longrightarrow> a = b"
  shows "xs = ys"
  using assms
proof (induction xs arbitrary: ys)
  case (Cons x xs)
  then obtain y ys' where ys: "ys = y # ys'" by (cases ys) auto
  have "x \<in> set ys" "y \<in> set (x # xs)"
    using Cons.prems(3) ys by (metis list.set_intros(1) mset_eq_setD)+
  then have "\<not> task_gt y x" "\<not> task_gt x y"
    using Cons.prems(1,2) ys by auto
  then have "x = y" using Cons.prems(4) \<open>y \<in> set (x # xs)\<close> by auto
  moreover have "xs = ys'"
    using Cons.prems ys \<open>x = y\<close> by (intro Cons.IH) auto
  ultimately show ?case using ys by simp
qed simp

end
