(* ===== verification/Task_Queues.thy ===== *)
theory Task_Queues
  imports Delayed_Tasks
begin

text \<open>
  \<^verbatim>\<open>fml/message_loop_task_queues.{h,cc}\<close>: the process-wide table of task queues that
  every message loop draws its work from, with the merging of one queue into another that puts the
  GPU thread's tasks on the platform thread.

  One record per class, one operation per method, in source order. Each method runs under the
  mutex of its queue and is one atomic operation here. Calls through \<^verbatim>\<open>Wakeable*\<close>
  leave the component and are recorded in \<open>wake_log\<close>, oldest first. Closures (\<open>'c\<close>) and
  wakeables (\<open>'w\<close>) are opaque.
\<close>

section \<open>Data\<close>

text \<open>
  A \<^verbatim>\<open>TaskQueueId\<close> wraps a \<^verbatim>\<open>size_t\<close>, but every comparison and
  every map lookup goes through its \<^verbatim>\<open>operator int\<close>, so ids are 32-bit values here
  and the conversion is \<open>TaskQueueId\<close>.
\<close>

type_synonym task_queue_id = "32 word"

definition TaskQueueId :: "64 word \<Rightarrow> task_queue_id" where
  "TaskQueueId value = ucast value"

definition kUnmerged :: task_queue_id where
  "kUnmerged = TaskQueueId (- 1)"

record ('c, 'w) task_queue_entry =
  wakeable :: "'w option"
  task_observers :: "(int \<times> 'c) list"
  delayed_tasks :: "'c delayed_task_queue"
  owner_of :: task_queue_id
  subsumed_by :: task_queue_id

definition TaskQueueEntry :: "('c, 'w) task_queue_entry" where
  "TaskQueueEntry =
     \<lparr>wakeable = None, task_observers = [], delayed_tasks = [],
      owner_of = kUnmerged, subsumed_by = kUnmerged\<rparr>"

datatype flush_type = kSingle | kAll

record ('c, 'w) task_queues =
  queue_entries :: "task_queue_id \<rightharpoonup> ('c, 'w) task_queue_entry"
  queue_locks :: "task_queue_id set"
  task_queue_id_counter :: "64 word"
  order_counter :: "32 word"
  wake_log :: "('w \<times> int) list"

definition MessageLoopTaskQueues :: "('c, 'w) task_queues" where
  "MessageLoopTaskQueues =
     \<lparr>queue_entries = Map.empty, queue_locks = {}, task_queue_id_counter = 0,
      order_counter = 0, wake_log = []\<rparr>"

definition set_entry ::
    "task_queue_id \<Rightarrow> ('c, 'w) task_queue_entry \<Rightarrow> ('c, 'w) task_queues \<Rightarrow> ('c, 'w) task_queues" where
  "set_entry q e s = s\<lparr>queue_entries := (queue_entries s)(q \<mapsto> e)\<rparr>"

definition time_point_max :: int where
  "time_point_max = 2 ^ 63 - 1"

section \<open>Private operations\<close>

definition GetMutex :: "task_queue_id \<Rightarrow> ('c, 'w) task_queues \<Rightarrow> unit res" where
  "GetMutex q s = guard DCheckFailed (q \<in> queue_locks s \<and> queue_entries s q \<noteq> None)"

definition HasPendingTasksUnlocked :: "task_queue_id \<Rightarrow> ('c, 'w) task_queues \<Rightarrow> bool res" where
  "HasPendingTasksUnlocked q s =
     bind_res (at_key (queue_entries s) q) (\<lambda>entry.
       if subsumed_by entry \<noteq> kUnmerged then Inr False
       else if delayed_tasks entry \<noteq> [] then Inr True
       else if owner_of entry = kUnmerged then Inr False
       else bind_res (at_key (queue_entries s) (owner_of entry)) (\<lambda>subsumed_entry.
         Inr (delayed_tasks subsumed_entry \<noteq> [])))"

definition PeekNextTaskUnlocked ::
    "task_queue_id \<Rightarrow> ('c, 'w) task_queues \<Rightarrow> ('c delayed_task \<times> task_queue_id) res" where
  "PeekNextTaskUnlocked owner s =
     bind_res (HasPendingTasksUnlocked owner s) (\<lambda>has.
     bind_res (guard DCheckFailed has) (\<lambda>_.
     bind_res (at_key (queue_entries s) owner) (\<lambda>entry.
       let subsumed = owner_of entry in
       if subsumed = kUnmerged then
         bind_res (pq_top (delayed_tasks entry)) (\<lambda>t. Inr (t, owner))
       else
         bind_res (at_key (queue_entries s) subsumed) (\<lambda>subsumed_entry.
           let owner_tasks = delayed_tasks entry; subsumed_tasks = delayed_tasks subsumed_entry in
           bind_res
             (if owner_tasks \<noteq> [] \<and> subsumed_tasks \<noteq> [] then
                bind_res (pq_top owner_tasks) (\<lambda>owner_task.
                bind_res (pq_top subsumed_tasks) (\<lambda>subsumed_task.
                  Inr (if task_gt owner_task subsumed_task then subsumed else owner)))
              else if owner_tasks \<noteq> [] then Inr owner
              else Inr subsumed) (\<lambda>top_queue_id.
           bind_res (at_key (queue_entries s) top_queue_id) (\<lambda>top_entry.
           bind_res (pq_top (delayed_tasks top_entry)) (\<lambda>t. Inr (t, top_queue_id))))))))"

definition GetNextWakeTimeUnlocked :: "task_queue_id \<Rightarrow> ('c, 'w) task_queues \<Rightarrow> int res" where
  "GetNextWakeTimeUnlocked q s =
     bind_res (PeekNextTaskUnlocked q s) (\<lambda>(t, _). Inr (GetTargetTime t))"

definition WakeUpUnlocked ::
    "task_queue_id \<Rightarrow> int \<Rightarrow> ('c, 'w) task_queues \<Rightarrow> ('c, 'w) task_queues res" where
  "WakeUpUnlocked q time s =
     bind_res (at_key (queue_entries s) q) (\<lambda>entry.
       case wakeable entry of
         None \<Rightarrow> Inr s
       | Some w \<Rightarrow> Inr (s\<lparr>wake_log := wake_log s @ [(w, time)]\<rparr>))"

text \<open>The tail shared by \<open>Merge\<close> and \<open>Unmerge\<close>.\<close>

definition WakeIfPending ::
    "task_queue_id \<Rightarrow> ('c, 'w) task_queues \<Rightarrow> ('c, 'w) task_queues res" where
  "WakeIfPending q s =
     bind_res (HasPendingTasksUnlocked q s) (\<lambda>has.
       if has then bind_res (GetNextWakeTimeUnlocked q s) (\<lambda>t. WakeUpUnlocked q t s)
       else Inr s)"

section \<open>Public operations\<close>

definition CreateTaskQueue ::
    "('c, 'w) task_queues \<Rightarrow> task_queue_id \<times> ('c, 'w) task_queues" where
  "CreateTaskQueue s =
     (let loop_id = TaskQueueId (task_queue_id_counter s) in
      (loop_id,
       s\<lparr>task_queue_id_counter := task_queue_id_counter s + 1,
         queue_entries := (queue_entries s)(loop_id \<mapsto> TaskQueueEntry),
         queue_locks := insert loop_id (queue_locks s)\<rparr>))"

definition Dispose :: "task_queue_id \<Rightarrow> ('c, 'w) task_queues \<Rightarrow> ('c, 'w) task_queues res" where
  "Dispose q s =
     bind_res (GetMutex q s) (\<lambda>_.
     bind_res (at_key (queue_entries s) q) (\<lambda>queue_entry.
     bind_res (guard DCheckFailed (subsumed_by queue_entry = kUnmerged)) (\<lambda>_.
       let subsumed = owner_of queue_entry;
           s1 = s\<lparr>queue_entries := (queue_entries s)(q := None)\<rparr> in
       if subsumed \<noteq> kUnmerged then
         bind_res (guard OutOfRange (subsumed \<in> queue_locks s1)) (\<lambda>_.
           Inr (s1\<lparr>queue_entries := (queue_entries s1)(subsumed := None)\<rparr>))
       else Inr s1)))"

definition DisposeTasks :: "task_queue_id \<Rightarrow> ('c, 'w) task_queues \<Rightarrow> ('c, 'w) task_queues res" where
  "DisposeTasks q s =
     bind_res (GetMutex q s) (\<lambda>_.
     bind_res (at_key (queue_entries s) q) (\<lambda>queue_entry.
     bind_res (guard DCheckFailed (subsumed_by queue_entry = kUnmerged)) (\<lambda>_.
       let subsumed = owner_of queue_entry;
           s1 = set_entry q (queue_entry\<lparr>delayed_tasks := []\<rparr>) s in
       if subsumed \<noteq> kUnmerged then
         bind_res (guard OutOfRange (subsumed \<in> queue_locks s1)) (\<lambda>_.
         bind_res (at_key (queue_entries s1) subsumed) (\<lambda>subsumed_entry.
           Inr (set_entry subsumed (subsumed_entry\<lparr>delayed_tasks := []\<rparr>) s1)))
       else Inr s1)))"

text \<open>
  \<^verbatim>\<open>order_\<close> is an atomic \<^verbatim>\<open>int\<close>: the increment wraps and the value is
  sign-extended to the \<^verbatim>\<open>size_t\<close> of the task.
\<close>

definition RegisterTask ::
    "task_queue_id \<Rightarrow> 'c \<Rightarrow> int \<Rightarrow> ('c, 'w) task_queues \<Rightarrow> ('c, 'w) task_queues res" where
  "RegisterTask q task target_time s =
     bind_res (GetMutex q s) (\<lambda>_.
       let order = scast (order_counter s) :: 64 word;
           s1 = s\<lparr>order_counter := order_counter s + 1\<rparr> in
       bind_res (deref_key (queue_entries s1) q) (\<lambda>queue_entry.
         let entry' = queue_entry\<lparr>delayed_tasks :=
               pq_push (DelayedTask order task target_time) (delayed_tasks queue_entry)\<rparr>;
             s2 = set_entry q entry' s1;
             loop_to_wake = (if subsumed_by entry' \<noteq> kUnmerged then subsumed_by entry' else q) in
         bind_res (pq_top (delayed_tasks entry')) (\<lambda>t.
           WakeUpUnlocked loop_to_wake (GetTargetTime t) s2)))"

definition HasPendingTasks :: "task_queue_id \<Rightarrow> ('c, 'w) task_queues \<Rightarrow> bool res" where
  "HasPendingTasks q s = bind_res (GetMutex q s) (\<lambda>_. HasPendingTasksUnlocked q s)"

text \<open>The tasks that \<open>q\<close> can run: its own and those of the queue it owns.\<close>

definition runnable_tasks :: "task_queue_id \<Rightarrow> ('c, 'w) task_queues \<Rightarrow> 'c delayed_task list" where
  "runnable_tasks q s =
     (case queue_entries s q of
        None \<Rightarrow> []
      | Some e \<Rightarrow> delayed_tasks e @
          (if owner_of e = kUnmerged \<or> owner_of e = q then []
           else case queue_entries s (owner_of e) of None \<Rightarrow> [] | Some e' \<Rightarrow> delayed_tasks e'))"

lemma PeekNextTask_cases:
  assumes "PeekNextTaskUnlocked q s = Inr (t, tq)"
  obtains e te rest where "queue_entries s q = Some e" "subsumed_by e = kUnmerged"
    "queue_entries s tq = Some te" "delayed_tasks te = t # rest"
    "tq = q \<or> tq = owner_of e \<and> owner_of e \<noteq> kUnmerged"
  using assms
  by (fastforce simp: PeekNextTaskUnlocked_def HasPendingTasksUnlocked_def Let_def split: if_splits)

definition pop_top ::
    "task_queue_id \<Rightarrow> ('c, 'w) task_queues \<Rightarrow> ('c, 'w) task_queues res" where
  "pop_top top_queue s =
     bind_res (deref_key (queue_entries s) top_queue) (\<lambda>e.
     bind_res (pq_pop (delayed_tasks e)) (\<lambda>rest.
       Inr (set_entry top_queue (e\<lparr>delayed_tasks := rest\<rparr>) s)))"

lemma pop_top_runnable:
  assumes "PeekNextTaskUnlocked q s = Inr (t, tq)" and "pop_top tq s = Inr s'"
  shows "length (runnable_tasks q s') < length (runnable_tasks q s)"
proof -
  obtain e te rest where e: "queue_entries s q = Some e" "queue_entries s tq = Some te"
    "delayed_tasks te = t # rest" "tq = q \<or> tq = owner_of e \<and> owner_of e \<noteq> kUnmerged"
    using assms(1) by (rule PeekNextTask_cases)
  have "s' = set_entry tq (te\<lparr>delayed_tasks := rest\<rparr>) s"
    using assms(2) e(2,3) by (auto simp: pop_top_def)
  then have entries: "queue_entries s' = (queue_entries s)(tq \<mapsto> te\<lparr>delayed_tasks := rest\<rparr>)"
    by (simp add: set_entry_def)
  show ?thesis
  proof (cases "tq = q")
    case True
    with e have "te = e" by simp
    with True e(1,3) entries show ?thesis by (simp add: runnable_tasks_def)
  next
    case False
    with e entries show ?thesis by (simp add: runnable_tasks_def)
  qed
qed

text \<open>The \<^verbatim>\<open>while\<close> loop of \<^verbatim>\<open>GetTasksToRunNow\<close>.\<close>

function get_tasks_loop ::
    "task_queue_id \<Rightarrow> flush_type \<Rightarrow> int \<Rightarrow> 'c list \<Rightarrow> ('c, 'w) task_queues \<Rightarrow>
     ('c list \<times> ('c, 'w) task_queues) res" where
  "get_tasks_loop q type now invocations s =
     bind_res (HasPendingTasksUnlocked q s) (\<lambda>has.
       if \<not> has then Inr (invocations, s)
       else bind_res (PeekNextTaskUnlocked q s) (\<lambda>(top, top_queue).
         if GetTargetTime top > now then Inr (invocations, s)
         else bind_res (pop_top top_queue s) (\<lambda>s'.
           let invocations' = invocations @ [GetTask top] in
           if type = kSingle then Inr (invocations', s')
           else get_tasks_loop q type now invocations' s')))"
  by pat_completeness auto
termination
  by (relation "measure (\<lambda>(q, _, _, _, s). length (runnable_tasks q s))")
    (auto intro: pop_top_runnable)

declare get_tasks_loop.simps [simp del]

definition GetTasksToRunNow ::
    "task_queue_id \<Rightarrow> flush_type \<Rightarrow> int \<Rightarrow> ('c, 'w) task_queues \<Rightarrow>
     ('c list \<times> ('c, 'w) task_queues) res" where
  "GetTasksToRunNow q type now s =
     bind_res (GetMutex q s) (\<lambda>_.
     bind_res (HasPendingTasksUnlocked q s) (\<lambda>has.
       if \<not> has then Inr ([], s)
       else bind_res (get_tasks_loop q type now [] s) (\<lambda>(invocations, s').
         bind_res (HasPendingTasksUnlocked q s') (\<lambda>still.
         bind_res (if \<not> still then WakeUpUnlocked q time_point_max s'
                   else bind_res (GetNextWakeTimeUnlocked q s') (\<lambda>t. WakeUpUnlocked q t s'))
           (\<lambda>s''. Inr (invocations, s''))))))"

definition GetNumPendingTasks :: "task_queue_id \<Rightarrow> ('c, 'w) task_queues \<Rightarrow> nat res" where
  "GetNumPendingTasks q s =
     bind_res (GetMutex q s) (\<lambda>_.
     bind_res (at_key (queue_entries s) q) (\<lambda>queue_entry.
       if subsumed_by queue_entry \<noteq> kUnmerged then Inr 0
       else
         let total_tasks = length (delayed_tasks queue_entry); subsumed = owner_of queue_entry in
         if subsumed \<noteq> kUnmerged then
           bind_res (guard OutOfRange (subsumed \<in> queue_locks s)) (\<lambda>_.
           bind_res (at_key (queue_entries s) subsumed) (\<lambda>subsumed_entry.
             Inr (total_tasks + length (delayed_tasks subsumed_entry))))
         else Inr total_tasks))"

text \<open>An empty \<^verbatim>\<open>fml::closure\<close> is \<open>None\<close>.\<close>

definition AddTaskObserver ::
    "task_queue_id \<Rightarrow> int \<Rightarrow> 'c option \<Rightarrow> ('c, 'w) task_queues \<Rightarrow> ('c, 'w) task_queues res" where
  "AddTaskObserver q key callback s =
     bind_res (GetMutex q s) (\<lambda>_.
     case callback of
       None \<Rightarrow> Inl DCheckFailed
     | Some cb \<Rightarrow>
         bind_res (deref_key (queue_entries s) q) (\<lambda>e.
           Inr (set_entry q (e\<lparr>task_observers := map_assign key cb (task_observers e)\<rparr>) s)))"

definition RemoveTaskObserver ::
    "task_queue_id \<Rightarrow> int \<Rightarrow> ('c, 'w) task_queues \<Rightarrow> ('c, 'w) task_queues res" where
  "RemoveTaskObserver q key s =
     bind_res (GetMutex q s) (\<lambda>_.
     bind_res (deref_key (queue_entries s) q) (\<lambda>e.
       Inr (set_entry q (e\<lparr>task_observers := map_erase key (task_observers e)\<rparr>) s)))"

definition GetObserversToNotify :: "task_queue_id \<Rightarrow> ('c, 'w) task_queues \<Rightarrow> 'c list res" where
  "GetObserversToNotify q s =
     bind_res (GetMutex q s) (\<lambda>_.
     bind_res (at_key (queue_entries s) q) (\<lambda>e.
       if subsumed_by e \<noteq> kUnmerged then Inr []
       else
         let observers = map snd (task_observers e); subsumed = owner_of e in
         if subsumed \<noteq> kUnmerged then
           bind_res (guard OutOfRange (subsumed \<in> queue_locks s)) (\<lambda>_.
           bind_res (at_key (queue_entries s) subsumed) (\<lambda>subsumed_entry.
             Inr (observers @ map snd (task_observers subsumed_entry))))
         else Inr observers))"

definition SetWakeable ::
    "task_queue_id \<Rightarrow> 'w option \<Rightarrow> ('c, 'w) task_queues \<Rightarrow> ('c, 'w) task_queues res" where
  "SetWakeable q w s =
     bind_res (GetMutex q s) (\<lambda>_.
     bind_res (deref_key (queue_entries s) q) (\<lambda>e.
     bind_res (guard CheckFailed (wakeable e = None)) (\<lambda>_.
       Inr (set_entry q (e\<lparr>wakeable := w\<rparr>) s))))"

definition Merge ::
    "task_queue_id \<Rightarrow> task_queue_id \<Rightarrow> ('c, 'w) task_queues \<Rightarrow> (bool \<times> ('c, 'w) task_queues) res" where
  "Merge owner subsumed s =
     (if owner = subsumed then Inr (True, s)
      else
        bind_res (GetMutex owner s) (\<lambda>_.
        bind_res (GetMutex subsumed s) (\<lambda>_.
        bind_res (at_key (queue_entries s) owner) (\<lambda>owner_entry.
        bind_res (at_key (queue_entries s) subsumed) (\<lambda>subsumed_entry.
          if owner_of owner_entry = subsumed then Inr (True, s)
          else
            let owner_subsumed_keys =
              [owner_of owner_entry, subsumed_by owner_entry,
               owner_of subsumed_entry, subsumed_by subsumed_entry] in
            if list_ex (\<lambda>key. key \<noteq> kUnmerged) owner_subsumed_keys then Inr (False, s)
            else
              let s1 = set_entry owner (owner_entry\<lparr>owner_of := subsumed\<rparr>) s;
                  s2 = set_entry subsumed (subsumed_entry\<lparr>subsumed_by := owner\<rparr>) s1 in
              bind_res (WakeIfPending owner s2) (\<lambda>s3. Inr (True, s3)))))))"

definition Unmerge ::
    "task_queue_id \<Rightarrow> ('c, 'w) task_queues \<Rightarrow> (bool \<times> ('c, 'w) task_queues) res" where
  "Unmerge owner s =
     bind_res (GetMutex owner s) (\<lambda>_.
     bind_res (deref_key (queue_entries s) owner) (\<lambda>owner_entry.
       let subsumed = owner_of owner_entry in
       if subsumed = kUnmerged then Inr (False, s)
       else
         bind_res (deref_key (queue_entries s) subsumed) (\<lambda>subsumed_entry.
           let s1 = set_entry subsumed (subsumed_entry\<lparr>subsumed_by := kUnmerged\<rparr>) s in
           bind_res (deref_key (queue_entries s1) owner) (\<lambda>owner_entry'.
             let s2 = set_entry owner (owner_entry'\<lparr>owner_of := kUnmerged\<rparr>) s1 in
             bind_res (WakeIfPending owner s2) (\<lambda>s3.
             bind_res (WakeIfPending subsumed s3) (\<lambda>s4. Inr (True, s4)))))))"

definition Owns :: "task_queue_id \<Rightarrow> task_queue_id \<Rightarrow> ('c, 'w) task_queues \<Rightarrow> bool res" where
  "Owns owner subsumed s =
     bind_res (GetMutex owner s) (\<lambda>_.
     bind_res (at_key (queue_entries s) owner) (\<lambda>e.
       Inr (subsumed = owner_of e \<or> owner = subsumed)))"

end
