(* ===== verification/Task_Queues_Correct.thy ===== *)
theory Task_Queues_Correct
  imports Task_Queues
begin

text \<open>
  Correctness of \<^verbatim>\<open>fml/message_loop_task_queues.cc\<close>: the invariant between
  \<open>owner_of\<close> and \<open>subsumed_by\<close> and its preservation by every method, the step relation of
  the table with its reachable states, what a flush runs and in which order, merging and
  unmerging, and when a loop is woken.
\<close>

section \<open>The invariant\<close>

text \<open>
  The note in \<^verbatim>\<open>TaskQueueEntry\<close>: both links are \<open>kUnmerged\<close>, or exactly one is.
  On top of it the two directions of a merge agree, so a queue is merged into at most one owner.
\<close>

definition queue_links_ok :: "(task_queue_id \<rightharpoonup> ('c, 'w) task_queue_entry) \<Rightarrow> bool" where
  "queue_links_ok m \<longleftrightarrow> (\<forall>q e. m q = Some e \<longrightarrow>
     q \<noteq> kUnmerged \<and> owner_of e \<noteq> q \<and>
     (owner_of e \<noteq> kUnmerged \<longrightarrow>
        subsumed_by e = kUnmerged \<and> (\<exists>e'. m (owner_of e) = Some e' \<and> subsumed_by e' = q)) \<and>
     (subsumed_by e \<noteq> kUnmerged \<longrightarrow>
        (\<exists>e'. m (subsumed_by e) = Some e' \<and> owner_of e' = q)))"

definition queue_contents_ok :: "(task_queue_id \<rightharpoonup> ('c, 'w) task_queue_entry) \<Rightarrow> bool" where
  "queue_contents_ok m \<longleftrightarrow>
     (\<forall>q e. m q = Some e \<longrightarrow> pq_wf (delayed_tasks e) \<and> map_wf (task_observers e))"

definition queue_ids_ok :: "('c, 'w) task_queues \<Rightarrow> bool" where
  "queue_ids_ok s \<longleftrightarrow>
     dom (queue_entries s) \<subseteq> queue_locks s \<and>
     (\<forall>q \<in> queue_locks s. unat q < unat (task_queue_id_counter s))"

definition task_queues_inv :: "('c, 'w) task_queues \<Rightarrow> bool" where
  "task_queues_inv s \<longleftrightarrow>
     queue_links_ok (queue_entries s) \<and> queue_contents_ok (queue_entries s) \<and> queue_ids_ok s"

lemma queue_links_okD:
  assumes "queue_links_ok m" "m q = Some e"
  shows "q \<noteq> kUnmerged" "owner_of e \<noteq> q"
    "owner_of e \<noteq> kUnmerged \<Longrightarrow> subsumed_by e = kUnmerged"
    "owner_of e \<noteq> kUnmerged \<Longrightarrow> \<exists>e'. m (owner_of e) = Some e' \<and> subsumed_by e' = q"
    "subsumed_by e \<noteq> kUnmerged \<Longrightarrow> \<exists>e'. m (subsumed_by e) = Some e' \<and> owner_of e' = q"
  using assms unfolding queue_links_ok_def by blast+

lemma queue_links_ok_update:
  assumes ok: "queue_links_ok m" and q: "m q = Some e"
    and same: "owner_of e' = owner_of e" "subsumed_by e' = subsumed_by e"
  shows "queue_links_ok (m(q \<mapsto> e'))"
  unfolding queue_links_ok_def
proof (intro allI impI)
  fix p f
  assume pf: "(m(q \<mapsto> e')) p = Some f"
  then obtain f0 where f0: "m p = Some f0" "owner_of f = owner_of f0" "subsumed_by f = subsumed_by f0"
    using q same by (auto split: if_splits)
  have lift: "\<exists>g'. (m(q \<mapsto> e')) x = Some g' \<and> owner_of g' = owner_of g \<and> subsumed_by g' = subsumed_by g"
    if "m x = Some g" for x g
    using that q same by auto
  show "p \<noteq> kUnmerged \<and> owner_of f \<noteq> p \<and>
     (owner_of f \<noteq> kUnmerged \<longrightarrow> subsumed_by f = kUnmerged \<and>
        (\<exists>g. (m(q \<mapsto> e')) (owner_of f) = Some g \<and> subsumed_by g = p)) \<and>
     (subsumed_by f \<noteq> kUnmerged \<longrightarrow> (\<exists>g. (m(q \<mapsto> e')) (subsumed_by f) = Some g \<and> owner_of g = p))"
    using queue_links_okD [OF ok f0(1)] f0(2,3) lift by metis
qed

lemma task_queues_inv_set_entry:
  assumes "task_queues_inv s" "queue_entries s q = Some e"
    and "owner_of e' = owner_of e" "subsumed_by e' = subsumed_by e"
    and "pq_wf (delayed_tasks e')" "map_wf (task_observers e')"
  shows "task_queues_inv (set_entry q e' s)"
  using assms queue_links_ok_update [of "queue_entries s" q e e']
  by (auto simp: task_queues_inv_def set_entry_def queue_contents_ok_def queue_ids_ok_def)

lemma task_queues_inv_frame:
  assumes "task_queues_inv s" "queue_entries s' = queue_entries s" "queue_locks s' = queue_locks s"
    "task_queue_id_counter s' = task_queue_id_counter s"
  shows "task_queues_inv s'"
  using assms by (simp add: task_queues_inv_def queue_ids_ok_def)

lemma task_queues_invD:
  assumes "task_queues_inv s" "queue_entries s q = Some e"
  shows "q \<in> queue_locks s" "pq_wf (delayed_tasks e)" "map_wf (task_observers e)"
    "queue_links_ok (queue_entries s)"
  using assms by (auto simp: task_queues_inv_def queue_contents_ok_def queue_ids_ok_def)

lemma GetMutex_Inr [simp]:
  "task_queues_inv s \<Longrightarrow> queue_entries s q = Some e \<Longrightarrow> GetMutex q s = Inr ()"
  by (simp add: GetMutex_def task_queues_invD)

lemma GetMutex_eq_Inr: "GetMutex q s = Inr u \<Longrightarrow> \<exists>e. queue_entries s q = Some e"
  by (simp add: GetMutex_def)

section \<open>The private operations under the invariant\<close>

lemma runnable_unmerged:
  "queue_entries s q = Some e \<Longrightarrow> owner_of e = kUnmerged \<Longrightarrow> runnable_tasks q s = delayed_tasks e"
  by (simp add: runnable_tasks_def)

lemma runnable_merged:
  assumes "task_queues_inv s" "queue_entries s q = Some e" "owner_of e \<noteq> kUnmerged"
    "queue_entries s (owner_of e) = Some e'"
  shows "runnable_tasks q s = delayed_tasks e @ delayed_tasks e'"
  using assms queue_links_okD(2) [OF task_queues_invD(4) [OF assms(1,2)] assms(2)]
  by (simp add: runnable_tasks_def)

lemma owned_entry:
  assumes "task_queues_inv s" "queue_entries s q = Some e" "owner_of e \<noteq> kUnmerged"
  obtains e' where "queue_entries s (owner_of e) = Some e'" "subsumed_by e' = q" "owner_of e \<noteq> q"
    "subsumed_by e = kUnmerged"
  using queue_links_okD [OF task_queues_invD(4) [OF assms(1,2)] assms(2)] assms(3) by blast

lemma HasPendingTasksUnlocked_eq:
  assumes "task_queues_inv s" "queue_entries s q = Some e"
  shows "HasPendingTasksUnlocked q s = Inr (subsumed_by e = kUnmerged \<and> runnable_tasks q s \<noteq> [])"
proof (cases "owner_of e = kUnmerged")
  case True
  with assms show ?thesis by (simp add: HasPendingTasksUnlocked_def runnable_unmerged)
next
  case False
  then obtain e' where "queue_entries s (owner_of e) = Some e'"
    using assms owned_entry by metis
  with assms False show ?thesis
    by (simp add: HasPendingTasksUnlocked_def runnable_merged)
qed

text \<open>The next task is a least one of the runnable tasks.\<close>

lemma PeekNextTaskUnlocked_least:
  assumes inv: "task_queues_inv s" and e: "queue_entries s q = Some e"
    and run: "subsumed_by e = kUnmerged" "runnable_tasks q s \<noteq> []"
  obtains t tq where "PeekNextTaskUnlocked q s = Inr (t, tq)"
    "t \<in> set (runnable_tasks q s)" "\<And>y. y \<in> set (runnable_tasks q s) \<Longrightarrow> \<not> task_gt t y"
proof (cases "owner_of e = kUnmerged")
  case True
  then obtain t rest where "delayed_tasks e = t # rest"
    using run e by (cases "delayed_tasks e") (auto simp: runnable_unmerged)
  moreover have "pq_wf (delayed_tasks e)" using inv e by (rule task_queues_invD)
  ultimately show thesis
    using True inv e run
    by (intro that [of t q])
      (auto simp: PeekNextTaskUnlocked_def HasPendingTasksUnlocked_eq runnable_unmerged)
next
  case False
  then obtain e' where e': "queue_entries s (owner_of e) = Some e'"
    using inv e owned_entry by metis
  note run_eq = runnable_merged [OF inv e False e']
  have wf: "pq_wf (delayed_tasks e)" "pq_wf (delayed_tasks e')"
    using inv e e' by (auto dest: task_queues_invD)
  consider (own) t r where "delayed_tasks e = t # r" "delayed_tasks e' = []"
    | (sub) t r where "delayed_tasks e = []" "delayed_tasks e' = t # r"
    | (both) t r t' r' where "delayed_tasks e = t # r" "delayed_tasks e' = t' # r'"
    using run(2) run_eq by (cases "delayed_tasks e"; cases "delayed_tasks e'") auto
  then show thesis
  proof cases
    case own
    then show thesis using False inv e e' run wf run_eq
      by (intro that [of t q]) (auto simp: PeekNextTaskUnlocked_def HasPendingTasksUnlocked_eq)
  next
    case sub
    then show thesis using False inv e e' run wf run_eq
      by (intro that [of t "owner_of e"])
        (auto simp: PeekNextTaskUnlocked_def HasPendingTasksUnlocked_eq)
  next
    case both
    show thesis
    proof (cases "task_gt t t'")
      case True
      then show thesis using both False inv e e' run wf run_eq
        by (intro that [of t' "owner_of e"])
          (auto simp: PeekNextTaskUnlocked_def HasPendingTasksUnlocked_eq
            dest: task_gt_asym task_gt_trans [OF True])
    next
      case not_gt: False
      then show thesis using both False inv e e' run wf run_eq
        by (intro that [of t q])
          (auto simp: PeekNextTaskUnlocked_def HasPendingTasksUnlocked_eq
            dest: task_not_gt_trans [OF not_gt])
    qed
  qed
qed

section \<open>Draining the runnable tasks\<close>

text \<open>Two states that differ in the pending tasks only.\<close>

definition same_shape :: "('c, 'w) task_queues \<Rightarrow> ('c, 'w) task_queues \<Rightarrow> bool" where
  "same_shape s s' \<longleftrightarrow>
     (\<forall>q. map_option (\<lambda>e. e\<lparr>delayed_tasks := []\<rparr>) (queue_entries s' q) =
          map_option (\<lambda>e. e\<lparr>delayed_tasks := []\<rparr>) (queue_entries s q)) \<and>
     queue_locks s' = queue_locks s \<and>
     task_queue_id_counter s' = task_queue_id_counter s \<and> order_counter s' = order_counter s"

lemma same_shape_refl [simp]: "same_shape s s"
  by (simp add: same_shape_def)

lemma same_shape_trans: "same_shape s t \<Longrightarrow> same_shape t u \<Longrightarrow> same_shape s u"
  by (simp add: same_shape_def)

lemma strip_eqD:
  "e\<lparr>delayed_tasks := []\<rparr> = e'\<lparr>delayed_tasks := []\<rparr> \<Longrightarrow>
     owner_of e' = owner_of e \<and> subsumed_by e' = subsumed_by e \<and> wakeable e' = wakeable e \<and>
     task_observers e' = task_observers e"
  by (metis task_queue_entry.select_convs task_queue_entry.surjective task_queue_entry.update_convs(3))

lemma same_shapeD:
  assumes "same_shape s s'" "queue_entries s q = Some e"
  obtains e' where "queue_entries s' q = Some e'" "owner_of e' = owner_of e"
    "subsumed_by e' = subsumed_by e" "wakeable e' = wakeable e" "task_observers e' = task_observers e"
proof -
  have "map_option (\<lambda>e. e\<lparr>delayed_tasks := []\<rparr>) (queue_entries s' q) = Some (e\<lparr>delayed_tasks := []\<rparr>)"
    using assms by (simp add: same_shape_def)
  then obtain e' where e': "queue_entries s' q = Some e'"
    "e\<lparr>delayed_tasks := []\<rparr> = e'\<lparr>delayed_tasks := []\<rparr>" by auto
  with strip_eqD [OF e'(2)] show thesis using that by blast
qed

lemma pop_top_next:
  assumes inv: "task_queues_inv s" and peek: "PeekNextTaskUnlocked q s = Inr (t, tq)"
  obtains s' where "pop_top tq s = Inr s'" "task_queues_inv s'" "same_shape s s'"
    "mset (runnable_tasks q s) = add_mset t (mset (runnable_tasks q s'))"
    "wake_log s' = wake_log s"
    "\<And>e p. queue_entries s q = Some e \<Longrightarrow> p \<noteq> q \<Longrightarrow> p \<noteq> owner_of e \<Longrightarrow>
       queue_entries s' p = queue_entries s p"
proof -
  obtain e te rest where e: "queue_entries s q = Some e" "queue_entries s tq = Some te"
    "delayed_tasks te = t # rest" "tq = q \<or> tq = owner_of e \<and> owner_of e \<noteq> kUnmerged"
    using peek by (rule PeekNextTask_cases)
  let ?te = "te\<lparr>delayed_tasks := rest\<rparr>"
  let ?s = "set_entry tq ?te s"
  have pop: "pop_top tq s = Inr ?s" using e by (simp add: pop_top_def)
  have inv': "task_queues_inv ?s"
    using task_queues_invD [OF inv e(2)] e(3) by (intro task_queues_inv_set_entry [OF inv e(2)]) auto
  have shape: "same_shape s ?s" using e(2) by (auto simp: same_shape_def set_entry_def)
  have entries: "queue_entries ?s = (queue_entries s)(tq \<mapsto> ?te)" by (simp add: set_entry_def)
  have "mset (runnable_tasks q s) = add_mset t (mset (runnable_tasks q ?s))"
  proof (cases "tq = q")
    case True
    with e(1,2) have "te = e" by simp
    with True e(1,3) entries show ?thesis by (simp add: runnable_tasks_def)
  next
    case False
    with e entries show ?thesis by (simp add: runnable_tasks_def)
  qed
  with pop inv' shape show thesis
    by (rule that) (use e in \<open>auto simp: set_entry_def\<close>)
qed

text \<open>
  What the loop removes with \<^verbatim>\<open>FlushType::kAll\<close>: exactly the tasks that are due, in
  the order of \<open>task_gt\<close>.
\<close>

lemma get_tasks_loop_all:
  assumes "task_queues_inv s" "queue_entries s q = Some e" "subsumed_by e = kUnmerged"
  shows "\<exists>ts s'. get_tasks_loop q kAll now acc s = Inr (acc @ map GetTask ts, s') \<and>
     task_queues_inv s' \<and> same_shape s s' \<and> pq_wf ts \<and>
     mset (runnable_tasks q s) = mset ts + mset (runnable_tasks q s') \<and>
     (\<forall>t \<in> set ts. dt_target_time t \<le> now) \<and>
     (\<forall>t \<in> set (runnable_tasks q s'). now < dt_target_time t) \<and>
     (\<forall>p. p \<noteq> q \<longrightarrow> p \<noteq> owner_of e \<longrightarrow> queue_entries s' p = queue_entries s p) \<and>
     wake_log s' = wake_log s"
  using assms
proof (induction "length (runnable_tasks q s)" arbitrary: s e acc rule: less_induct)
  case less
  note inv = less.prems(1) and e = less.prems(2) and top = less.prems(3)
  show ?case
  proof (cases "runnable_tasks q s = []")
    case True
    then have "get_tasks_loop q kAll now acc s = Inr (acc @ map GetTask [], s)"
      using inv e by (simp add: get_tasks_loop.simps [of q] HasPendingTasksUnlocked_eq)
    with True inv show ?thesis by (intro exI [of _ "[]"] exI [of _ s]) auto
  next
    case False
    obtain t tq where peek: "PeekNextTaskUnlocked q s = Inr (t, tq)"
      and tin: "t \<in> set (runnable_tasks q s)"
      and least: "\<And>y. y \<in> set (runnable_tasks q s) \<Longrightarrow> \<not> task_gt t y"
      using inv e top False by (rule PeekNextTaskUnlocked_least) blast
    have has: "HasPendingTasksUnlocked q s = Inr True"
      using inv e top False by (simp add: HasPendingTasksUnlocked_eq)
    show ?thesis
    proof (cases "now < dt_target_time t")
      case True
      then have "get_tasks_loop q kAll now acc s = Inr (acc @ map GetTask [], s)"
        using has peek by (simp add: get_tasks_loop.simps [of q] GetTargetTime_def)
      moreover have "now < dt_target_time y" if "y \<in> set (runnable_tasks q s)" for y
        using True task_not_gt_time [OF least [OF that]] by simp
      ultimately show ?thesis using inv by (intro exI [of _ "[]"] exI [of _ s]) auto
    next
      case due: False
      obtain s1 where pop: "pop_top tq s = Inr s1" and inv1: "task_queues_inv s1"
        and shape1: "same_shape s s1"
        and split: "mset (runnable_tasks q s) = add_mset t (mset (runnable_tasks q s1))"
        and log1: "wake_log s1 = wake_log s"
        and others: "\<And>p. p \<noteq> q \<Longrightarrow> p \<noteq> owner_of e \<Longrightarrow> queue_entries s1 p = queue_entries s p"
        using inv peek by (rule pop_top_next) (use e in blast)
      obtain e1 where e1: "queue_entries s1 q = Some e1" "subsumed_by e1 = kUnmerged"
        and own1: "owner_of e1 = owner_of e"
        using same_shapeD [OF shape1 e] top by metis
      have "length (runnable_tasks q s1) < length (runnable_tasks q s)"
        using peek pop by (rule pop_top_runnable)
      from less.hyps [OF this inv1 e1, of "acc @ [GetTask t]"] obtain ts s'
        where IH: "get_tasks_loop q kAll now (acc @ [GetTask t]) s1 =
            Inr ((acc @ [GetTask t]) @ map GetTask ts, s')"
          "task_queues_inv s'" "same_shape s1 s'" "pq_wf ts"
          "mset (runnable_tasks q s1) = mset ts + mset (runnable_tasks q s')"
          "\<forall>t \<in> set ts. dt_target_time t \<le> now"
          "\<forall>t \<in> set (runnable_tasks q s'). now < dt_target_time t"
          "\<forall>p. p \<noteq> q \<longrightarrow> p \<noteq> owner_of e1 \<longrightarrow> queue_entries s' p = queue_entries s1 p"
          "wake_log s' = wake_log s1"
        by blast
      have "get_tasks_loop q kAll now acc s = Inr (acc @ map GetTask (t # ts), s')"
        using has peek due pop IH(1)
        by (simp add: get_tasks_loop.simps [of q kAll now acc s] GetTargetTime_def)
      moreover have "set ts \<subseteq> set (runnable_tasks q s)"
        using split IH(5) by (metis set_mset_add_mset_insert set_mset_mset set_mset_union
            subset_insertI2 sup_ge1)
      then have "pq_wf (t # ts)" using IH(4) least by auto
      ultimately show ?thesis
        using IH due split same_shape_trans [OF shape1] others log1 own1
        by (intro exI [of _ "t # ts"] exI [of _ s']) auto
    qed
  qed
qed

definition pending_tasks :: "('c, 'w) task_queues \<Rightarrow> 'c delayed_task set" where
  "pending_tasks s = {t. \<exists>q e. queue_entries s q = Some e \<and> t \<in> set (delayed_tasks e)}"

lemma pending_tasks_pop: "pop_top tq s = Inr s' \<Longrightarrow> pending_tasks s' \<subseteq> pending_tasks s"
  by (fastforce simp: pop_top_def pending_tasks_def set_entry_def split: if_splits)

lemma get_tasks_loop_inv:
  "get_tasks_loop q type now acc s = Inr (ts, s') \<Longrightarrow> task_queues_inv s \<Longrightarrow>
     task_queues_inv s' \<and> same_shape s s' \<and> pending_tasks s' \<subseteq> pending_tasks s"
proof (induction q type now acc s arbitrary: ts s' rule: get_tasks_loop.induct)
  case (1 q type now acc s)
  show ?case
  proof (cases "HasPendingTasksUnlocked q s = Inr True")
    case has: True
    then obtain t tq where peek: "PeekNextTaskUnlocked q s = Inr (t, tq)"
      using "1.prems"(1) by (subst (asm) get_tasks_loop.simps) auto
    obtain s1 where s1: "pop_top tq s = Inr s1" "task_queues_inv s1" "same_shape s s1"
      using "1.prems"(2) peek by (rule pop_top_next)
    have IH: "task_queues_inv s2 \<and> same_shape s1 s2 \<and> pending_tasks s2 \<subseteq> pending_tasks s1"
      if "\<not> now < GetTargetTime t" "type \<noteq> kSingle"
        "get_tasks_loop q type now (acc @ [GetTask t]) s1 = Inr (us, s2)" for us s2
      using "1.IH" [OF has _ peek refl that(1) s1(1) refl that(2) that(3) s1(2)] by simp
    show ?thesis
      using "1.prems" has peek s1 IH same_shape_trans pending_tasks_pop [OF s1(1)]
      by (subst (asm) get_tasks_loop.simps) (auto simp: Let_def split: if_splits)
  next
    case False
    with "1.prems" show ?thesis by (subst (asm) get_tasks_loop.simps) (auto split: if_splits)
  qed
qed

section \<open>Waking loops\<close>

definition wakes :: "('c, 'w) task_queue_entry \<Rightarrow> int \<Rightarrow> ('w \<times> int) list" where
  "wakes e t = (case wakeable e of None \<Rightarrow> [] | Some w \<Rightarrow> [(w, t)])"

lemma WakeUpUnlocked_eq:
  "queue_entries s q = Some e \<Longrightarrow>
     WakeUpUnlocked q t s = Inr (s\<lparr>wake_log := wake_log s @ wakes e t\<rparr>)"
  by (simp add: WakeUpUnlocked_def wakes_def split: option.split)

lemma WakeUpUnlocked_frame:
  "WakeUpUnlocked q t s = Inr s' \<Longrightarrow> \<exists>log. s' = s\<lparr>wake_log := log\<rparr>"
  by (auto simp: WakeUpUnlocked_def split: option.splits intro: exI [of _ "wake_log s"])

lemma WakeIfPending_frame: "WakeIfPending q s = Inr s' \<Longrightarrow> \<exists>log. s' = s\<lparr>wake_log := log\<rparr>"
  by (auto simp: WakeIfPending_def intro: WakeUpUnlocked_frame exI [of _ "wake_log s"] split: if_splits)

lemma task_queues_inv_log [simp]: "task_queues_inv (s\<lparr>wake_log := log\<rparr>) = task_queues_inv s"
  by (simp add: task_queues_inv_def queue_ids_ok_def)

lemma same_shape_log [simp]: "same_shape s (s'\<lparr>wake_log := log\<rparr>) = same_shape s s'"
  by (simp add: same_shape_def)

lemma runnable_tasks_log [simp]: "runnable_tasks q (s\<lparr>wake_log := log\<rparr>) = runnable_tasks q s"
  by (simp add: runnable_tasks_def split: option.split)

lemma HasPendingTasksUnlocked_log [simp]:
  "HasPendingTasksUnlocked q (s\<lparr>wake_log := log\<rparr>) = HasPendingTasksUnlocked q s"
  by (cases "queue_entries s q") (simp_all add: HasPendingTasksUnlocked_def at_key_def)

text \<open>When the loop of \<open>q\<close> has to run next.\<close>

definition next_wake_time :: "task_queue_id \<Rightarrow> ('c, 'w) task_queues \<Rightarrow> int" where
  "next_wake_time q s =
     (if runnable_tasks q s = [] then time_point_max
      else Min (dt_target_time ` set (runnable_tasks q s)))"

lemma next_wake_time_log [simp]: "next_wake_time q (s\<lparr>wake_log := log\<rparr>) = next_wake_time q s"
  by (simp add: next_wake_time_def)

lemma GetNextWakeTimeUnlocked_eq:
  assumes "task_queues_inv s" "queue_entries s q = Some e" "subsumed_by e = kUnmerged"
    "runnable_tasks q s \<noteq> []"
  shows "GetNextWakeTimeUnlocked q s = Inr (next_wake_time q s)"
proof -
  obtain t tq where t: "PeekNextTaskUnlocked q s = Inr (t, tq)" "t \<in> set (runnable_tasks q s)"
    "\<And>y. y \<in> set (runnable_tasks q s) \<Longrightarrow> \<not> task_gt t y"
    using assms by (rule PeekNextTaskUnlocked_least) blast
  have "Min (dt_target_time ` set (runnable_tasks q s)) = dt_target_time t"
    using t(2,3) by (intro Min_eqI) (auto dest: task_not_gt_time)
  with t(1) assms(4) show ?thesis
    by (simp add: GetNextWakeTimeUnlocked_def GetTargetTime_def next_wake_time_def)
qed

lemma WakeIfPending_eq:
  assumes "task_queues_inv s" "queue_entries s q = Some e"
  shows "WakeIfPending q s = Inr (s\<lparr>wake_log := wake_log s @
     (if subsumed_by e = kUnmerged \<and> runnable_tasks q s \<noteq> [] then wakes e (next_wake_time q s) else [])\<rparr>)"
  using assms
  by (auto simp: WakeIfPending_def HasPendingTasksUnlocked_eq GetNextWakeTimeUnlocked_eq
      WakeUpUnlocked_eq)

text \<open>The effect of \<open>GetTasksToRunNow\<close> on a queue that is not subsumed.\<close>

lemma GetTasksToRunNow_all:
  assumes inv: "task_queues_inv s" and e: "queue_entries s q = Some e"
    and top: "subsumed_by e = kUnmerged"
  obtains ts s' where "GetTasksToRunNow q kAll now s = Inr (map GetTask ts, s')"
    "task_queues_inv s'" "same_shape s s'" "pq_wf ts"
    "mset ts = filter_mset (\<lambda>t. dt_target_time t \<le> now) (mset (runnable_tasks q s))"
    "mset (runnable_tasks q s') = filter_mset (\<lambda>t. now < dt_target_time t) (mset (runnable_tasks q s))"
    "\<And>p. p \<noteq> q \<Longrightarrow> p \<noteq> owner_of e \<Longrightarrow> queue_entries s' p = queue_entries s p"
    "wake_log s' = wake_log s @
       (if runnable_tasks q s = [] then [] else wakes e (next_wake_time q s'))"
proof (cases "runnable_tasks q s = []")
  case True
  then have "GetTasksToRunNow q kAll now s = Inr (map GetTask [], s)"
    using inv e by (simp add: GetTasksToRunNow_def HasPendingTasksUnlocked_eq)
  with True inv show thesis by (intro that) auto
next
  case False
  obtain ts s1 where loop: "get_tasks_loop q kAll now [] s = Inr ([] @ map GetTask ts, s1)"
    and s1: "task_queues_inv s1" "same_shape s s1" "pq_wf ts"
    and split: "mset (runnable_tasks q s) = mset ts + mset (runnable_tasks q s1)"
    and due: "\<forall>t \<in> set ts. dt_target_time t \<le> now"
    and late: "\<forall>t \<in> set (runnable_tasks q s1). now < dt_target_time t"
    and frame: "\<forall>p. p \<noteq> q \<longrightarrow> p \<noteq> owner_of e \<longrightarrow> queue_entries s1 p = queue_entries s p"
    and log: "wake_log s1 = wake_log s"
    using get_tasks_loop_all [OF inv e top, of now "[]"] by blast
  obtain e1 where e1: "queue_entries s1 q = Some e1" "subsumed_by e1 = kUnmerged" "wakeable e1 = wakeable e"
    using same_shapeD [OF s1(2) e] top by metis
  let ?s2 = "s1\<lparr>wake_log := wake_log s1 @ wakes e1 (next_wake_time q s1)\<rparr>"
  have run: "GetTasksToRunNow q kAll now s = Inr (map GetTask ts, ?s2)"
    using False inv e top loop s1(1) e1
    by (auto simp: GetTasksToRunNow_def HasPendingTasksUnlocked_eq GetNextWakeTimeUnlocked_eq
        WakeUpUnlocked_eq next_wake_time_def)
  have "filter_mset (\<lambda>t. dt_target_time t \<le> now) (mset (runnable_tasks q s)) = mset ts"
    "filter_mset (\<lambda>t. now < dt_target_time t) (mset (runnable_tasks q s)) = mset (runnable_tasks q s1)"
    unfolding split by (rule filter_mset_partition; use due late in force)+
  then show thesis
    using run s1 frame log e1(3) False
    by (intro that [of ts ?s2]) (auto simp: wakes_def)
qed

section \<open>Every operation keeps the invariant\<close>

lemma queue_links_unlinked:
  assumes ok: "queue_links_ok m" and q: "m q = Some e"
    and free: "owner_of e = kUnmerged" "subsumed_by e = kUnmerged"
    and p: "m p = Some f"
  shows "owner_of f \<noteq> q" "subsumed_by f \<noteq> q"
  using queue_links_okD [OF ok p] queue_links_okD(1) [OF ok q] q free by force+

lemma queue_links_ok_merge:
  assumes ok: "queue_links_ok m" and ne: "owner \<noteq> subsumed"
    and o: "m owner = Some eo" "owner_of eo = kUnmerged" "subsumed_by eo = kUnmerged"
    and u: "m subsumed = Some eu" "owner_of eu = kUnmerged" "subsumed_by eu = kUnmerged"
  shows "queue_links_ok (m(owner \<mapsto> eo\<lparr>owner_of := subsumed\<rparr>,
                           subsumed \<mapsto> eu\<lparr>subsumed_by := owner\<rparr>))"
proof -
  have "owner \<noteq> kUnmerged" "subsumed \<noteq> kUnmerged"
    using queue_links_okD(1) [OF ok] o u by blast+
  moreover have "owner_of f \<noteq> owner \<and> subsumed_by f \<noteq> owner \<and> owner_of f \<noteq> subsumed \<and>
      subsumed_by f \<noteq> subsumed" if "m p = Some f" for p f
    using queue_links_unlinked [OF ok o(1-3) that] queue_links_unlinked [OF ok u(1-3) that] by blast
  ultimately show ?thesis
    using ok ne o u unfolding queue_links_ok_def by auto
qed

lemma queue_links_ok_unmerge:
  assumes ok: "queue_links_ok m" and o: "m owner = Some eo" "owner_of eo = subsumed"
    and u: "subsumed \<noteq> kUnmerged" "m subsumed = Some eu"
  shows "queue_links_ok (m(subsumed \<mapsto> eu\<lparr>subsumed_by := kUnmerged\<rparr>,
                           owner \<mapsto> eo\<lparr>owner_of := kUnmerged\<rparr>))" (is "queue_links_ok ?m")
  unfolding queue_links_ok_def
proof (intro allI impI)
  have o': "owner \<noteq> subsumed" "subsumed_by eo = kUnmerged" "subsumed_by eu = owner" "owner \<noteq> kUnmerged"
    using queue_links_okD [OF ok o(1)] o u by auto
  then have u': "owner_of eu = kUnmerged" using queue_links_okD(3) [OF ok u(2)] by metis
  fix p f
  assume pf: "?m p = Some f"
  show "p \<noteq> kUnmerged \<and> owner_of f \<noteq> p \<and>
     (owner_of f \<noteq> kUnmerged \<longrightarrow>
        subsumed_by f = kUnmerged \<and> (\<exists>e'. ?m (owner_of f) = Some e' \<and> subsumed_by e' = p)) \<and>
     (subsumed_by f \<noteq> kUnmerged \<longrightarrow> (\<exists>e'. ?m (subsumed_by f) = Some e' \<and> owner_of e' = p))"
  proof (cases "p = owner \<or> p = subsumed")
    case True
    then show ?thesis using pf o' u' u(1) by auto
  next
    case False
    then have f: "m p = Some f" using pf by simp
    note links = queue_links_okD [OF ok f]
    have "owner_of f \<noteq> subsumed" "subsumed_by f \<noteq> owner" "owner_of f \<noteq> owner"
      "subsumed_by f \<noteq> subsumed"
      using links o u o' u' False by force+
    with links show ?thesis by auto
  qed
qed

lemma queue_links_ok_remove:
  assumes ok: "queue_links_ok m" and o: "m q = Some e" "subsumed_by e = kUnmerged"
  shows "queue_links_ok (m(q := None, owner_of e := None))" (is "queue_links_ok ?m")
  unfolding queue_links_ok_def
proof (intro allI impI)
  fix p f
  assume pf: "?m p = Some f"
  then have f: "m p = Some f" "p \<noteq> q" "p \<noteq> owner_of e" by (auto split: if_splits)
  note links = queue_links_okD [OF ok f(1)]
  have q: "q \<noteq> kUnmerged" using queue_links_okD(1) [OF ok o(1)] .
  have "owner_of f \<noteq> q" "subsumed_by f \<noteq> q" using links o f q by force+
  moreover have "owner_of f \<noteq> owner_of e \<and> subsumed_by f \<noteq> owner_of e" if own: "owner_of e \<noteq> kUnmerged"
  proof -
    obtain eu where eu: "m (owner_of e) = Some eu" "subsumed_by eu = q"
      using queue_links_okD(4) [OF ok o(1) own] by blast
    then have "owner_of eu = kUnmerged" using queue_links_okD(3) [OF ok eu(1)] q by auto
    then show ?thesis using links eu f q own by force
  qed
  ultimately show "p \<noteq> kUnmerged \<and> owner_of f \<noteq> p \<and>
     (owner_of f \<noteq> kUnmerged \<longrightarrow>
        subsumed_by f = kUnmerged \<and> (\<exists>e'. ?m (owner_of f) = Some e' \<and> subsumed_by e' = p)) \<and>
     (subsumed_by f \<noteq> kUnmerged \<longrightarrow> (\<exists>e'. ?m (subsumed_by f) = Some e' \<and> owner_of e' = p))"
    using links by auto
qed

definition keeps :: "('c, 'w) task_queues \<Rightarrow> ('c, 'w) task_queues \<Rightarrow> bool" where
  "keeps s s' \<longleftrightarrow>
     task_queues_inv s' \<and> pending_tasks s' \<subseteq> pending_tasks s \<and> order_counter s' = order_counter s"

lemma pending_tasks_log [simp]: "pending_tasks (s\<lparr>wake_log := log\<rparr>) = pending_tasks s"
  by (simp add: pending_tasks_def)

lemma keeps_refl: "task_queues_inv s \<Longrightarrow> keeps s s"
  by (simp add: keeps_def)

lemma keeps_log [simp]: "keeps s (s'\<lparr>wake_log := log\<rparr>) = keeps s s'"
  by (simp add: keeps_def)

lemma keeps_wake: "keeps s s' \<Longrightarrow> WakeUpUnlocked q t s' = Inr s'' \<Longrightarrow> keeps s s''"
  by (auto dest: WakeUpUnlocked_frame)

lemma keeps_wake_pending: "keeps s s' \<Longrightarrow> WakeIfPending q s' = Inr s'' \<Longrightarrow> keeps s s''"
  by (auto dest: WakeIfPending_frame)

lemma keeps_set_entry:
  assumes "keeps s0 s" "queue_entries s q = Some e"
    and "owner_of e' = owner_of e" "subsumed_by e' = subsumed_by e"
    and "pq_wf (delayed_tasks e')" "set (delayed_tasks e') \<subseteq> set (delayed_tasks e)"
    and "map_wf (task_observers e')"
  shows "keeps s0 (set_entry q e' s)"
proof -
  have "task_queues_inv (set_entry q e' s)"
    using assms unfolding keeps_def by (intro task_queues_inv_set_entry [of s q e e']) auto
  moreover have "pending_tasks (set_entry q e' s) \<subseteq> pending_tasks s"
    using assms(2,6) by (fastforce simp: pending_tasks_def set_entry_def split: if_splits)
  ultimately show ?thesis using assms(1) by (auto simp: keeps_def set_entry_def)
qed

lemma keeps_links:
  assumes "task_queues_inv s" "queue_links_ok m" "dom m \<subseteq> dom (queue_entries s)"
    and "\<And>q e. m q = Some e \<Longrightarrow> \<exists>e0. queue_entries s q = Some e0 \<and>
      delayed_tasks e = delayed_tasks e0 \<and> task_observers e = task_observers e0"
  shows "keeps s (s\<lparr>queue_entries := m\<rparr>)"
proof -
  have "queue_contents_ok m" unfolding queue_contents_ok_def
    using assms(4) task_queues_invD(2,3) [OF assms(1)] by metis
  moreover have "pending_tasks (s\<lparr>queue_entries := m\<rparr>) \<subseteq> pending_tasks s"
    using assms(4) by (fastforce simp: pending_tasks_def)
  ultimately show ?thesis
    using assms(1,2,3) by (auto simp: keeps_def task_queues_inv_def queue_ids_ok_def)
qed

lemma unat_TaskQueueId: "unat v < 2 ^ 32 \<Longrightarrow> unat (TaskQueueId v) = unat v"
  by (simp add: TaskQueueId_def unat_ucast_64_32)

lemma kUnmerged_eq: "kUnmerged = - 1"
  by (simp add: kUnmerged_def TaskQueueId_def ucast_minus_one_64_32)

lemma CreateTaskQueue_fresh:
  assumes "task_queues_inv s" "unat (task_queue_id_counter s) < 2 ^ 32 - 1"
  shows "fst (CreateTaskQueue s) \<notin> queue_locks s" "fst (CreateTaskQueue s) \<noteq> kUnmerged"
proof -
  have id: "unat (fst (CreateTaskQueue s)) = unat (task_queue_id_counter s)"
    using assms(2) by (simp add: CreateTaskQueue_def unat_TaskQueueId Let_def)
  then show "fst (CreateTaskQueue s) \<notin> queue_locks s"
    using assms(1) by (auto simp: task_queues_inv_def queue_ids_ok_def)
  have "unat kUnmerged = 2 ^ 32 - 1" by (simp add: kUnmerged_eq unsigned_minus_1_eq_mask mask_eq_exp_minus_1)
  then show "fst (CreateTaskQueue s) \<noteq> kUnmerged" using id assms(2) by auto
qed

lemma CreateTaskQueue_keeps:
  assumes inv: "task_queues_inv s" and bound: "unat (task_queue_id_counter s) < 2 ^ 32 - 1"
  shows "keeps s (snd (CreateTaskQueue s))"
proof -
  define q where "q = fst (CreateTaskQueue s)"
  have fresh: "q \<notin> queue_locks s" "q \<noteq> kUnmerged"
    using CreateTaskQueue_fresh [OF inv bound] by (simp_all add: q_def)
  have entries: "queue_entries (snd (CreateTaskQueue s)) = (queue_entries s)(q \<mapsto> TaskQueueEntry)"
    and locks: "queue_locks (snd (CreateTaskQueue s)) = insert q (queue_locks s)"
    and counter: "task_queue_id_counter (snd (CreateTaskQueue s)) = task_queue_id_counter s + 1"
    and order: "order_counter (snd (CreateTaskQueue s)) = order_counter s"
    by (simp_all add: CreateTaskQueue_def Let_def q_def)
  have "queue_entries s q = None"
    using fresh(1) inv by (auto simp: task_queues_inv_def queue_ids_ok_def)
  moreover have "owner_of e \<noteq> q \<and> subsumed_by e \<noteq> q" if "queue_entries s p = Some e" for p e
    using calculation queue_links_okD [OF task_queues_invD(4) [OF inv that] that] fresh(2) by force
  ultimately have "queue_links_ok ((queue_entries s)(q \<mapsto> TaskQueueEntry))"
    using inv fresh(2) unfolding task_queues_inv_def queue_links_ok_def
    by (auto simp: TaskQueueEntry_def)
  moreover have suc: "unat (task_queue_id_counter s + 1) = Suc (unat (task_queue_id_counter s))"
    using bound by (simp add: unat_word_ariths)
  have "unat q = unat (task_queue_id_counter s)"
    using bound by (simp add: q_def CreateTaskQueue_def Let_def unat_TaskQueueId)
  ultimately show ?thesis
    using inv unfolding keeps_def task_queues_inv_def entries queue_ids_ok_def locks counter order
    by (auto simp: queue_contents_ok_def TaskQueueEntry_def pending_tasks_def entries suc less_SucI
        split: if_splits)
qed

lemma Dispose_keeps:
  assumes inv: "task_queues_inv s" and run: "Dispose q s = Inr s'"
  shows "keeps s s'"
proof -
  from run obtain e where e: "queue_entries s q = Some e" "subsumed_by e = kUnmerged"
    by (auto simp: Dispose_def Let_def)
  note ok = task_queues_invD(4) [OF inv e(1)]
  have none: "queue_entries s kUnmerged = None"
    using queue_links_okD(1) [OF ok] by (metis option.exhaust)
  have "s' = s\<lparr>queue_entries := (queue_entries s)(q := None, owner_of e := None)\<rparr>"
  proof (cases "owner_of e = kUnmerged")
    case True
    have "(queue_entries s)(q := None, kUnmerged := None) = (queue_entries s)(q := None)"
      using none by auto
    with True run e show ?thesis by (auto simp: Dispose_def Let_def)
  qed (use run e in \<open>auto simp: Dispose_def Let_def split: if_splits\<close>)
  moreover have "keeps s (s\<lparr>queue_entries := (queue_entries s)(q := None, owner_of e := None)\<rparr>)"
    by (rule keeps_links [OF inv queue_links_ok_remove [OF ok e]]) (auto split: if_splits)
  ultimately show ?thesis by simp
qed

lemma DisposeTasks_keeps:
  assumes inv: "task_queues_inv s" and run: "DisposeTasks q s = Inr s'"
  shows "keeps s s'"
proof -
  from run obtain e where e: "queue_entries s q = Some e" by (auto simp: DisposeTasks_def Let_def)
  let ?s1 = "set_entry q (e\<lparr>delayed_tasks := []\<rparr>) s"
  have k1: "keeps s ?s1"
    using task_queues_invD(3) [OF inv e] by (intro keeps_set_entry [OF keeps_refl [OF inv] e]) auto
  show ?thesis
  proof (cases "owner_of e = kUnmerged")
    case True
    with run e k1 show ?thesis by (auto simp: DisposeTasks_def Let_def)
  next
    case False
    then obtain e2 where e2: "queue_entries ?s1 (owner_of e) = Some e2"
      "s' = set_entry (owner_of e) (e2\<lparr>delayed_tasks := []\<rparr>) ?s1"
      using run e by (auto simp: DisposeTasks_def Let_def)
    have "map_wf (task_observers e2)"
      using k1 e2(1) by (auto simp: keeps_def dest: task_queues_invD)
    then show ?thesis unfolding e2(2) by (intro keeps_set_entry [OF k1 e2(1)]) auto
  qed
qed

lemma observer_ops_keep:
  assumes inv: "task_queues_inv s"
  shows "AddTaskObserver q key cb s = Inr s' \<Longrightarrow> keeps s s'"
    and "RemoveTaskObserver q key s = Inr s' \<Longrightarrow> keeps s s'"
    and "SetWakeable q w s = Inr s' \<Longrightarrow> keeps s s'"
  using keeps_set_entry [OF keeps_refl [OF inv], of q] task_queues_invD [OF inv, of q]
  by (auto simp: AddTaskObserver_def RemoveTaskObserver_def SetWakeable_def
      std_map.invar_assign std_map.invar_erase split: option.splits)

lemma GetTasksToRunNow_keeps:
  assumes inv: "task_queues_inv s" and run: "GetTasksToRunNow q type now s = Inr (ts, s')"
  shows "keeps s s'"
proof (cases "HasPendingTasksUnlocked q s = Inr True")
  case True
  with run obtain s1 where loop: "get_tasks_loop q type now [] s = Inr (ts, s1)"
    and wake: "(\<exists>t. WakeUpUnlocked q t s1 = Inr s')"
    by (auto simp: GetTasksToRunNow_def split: if_splits)
  have "keeps s s1"
    using get_tasks_loop_inv [OF loop inv] by (simp add: keeps_def same_shape_def)
  with wake show ?thesis by (auto intro: keeps_wake)
next
  case False
  with run inv show ?thesis by (auto simp: GetTasksToRunNow_def keeps_refl split: if_splits)
qed

lemma Merge_keeps:
  assumes inv: "task_queues_inv s" and run: "Merge owner subsumed s = Inr (b, s')"
  shows "keeps s s'"
proof -
  consider (same) "s' = s"
    | (merged) eo eu where "owner \<noteq> subsumed" "queue_entries s owner = Some eo"
      "owner_of eo = kUnmerged" "subsumed_by eo = kUnmerged" "queue_entries s subsumed = Some eu"
      "owner_of eu = kUnmerged" "subsumed_by eu = kUnmerged"
      "WakeIfPending owner (set_entry subsumed (eu\<lparr>subsumed_by := owner\<rparr>)
         (set_entry owner (eo\<lparr>owner_of := subsumed\<rparr>) s)) = Inr s'"
    using run by (fastforce simp: Merge_def Let_def split: if_splits)
  then show ?thesis
  proof cases
    case same
    with inv show ?thesis by (simp add: keeps_refl)
  next
    case merged
    have eq: "set_entry subsumed (eu\<lparr>subsumed_by := owner\<rparr>) (set_entry owner (eo\<lparr>owner_of := subsumed\<rparr>) s)
        = s\<lparr>queue_entries := (queue_entries s)(owner \<mapsto> eo\<lparr>owner_of := subsumed\<rparr>,
             subsumed \<mapsto> eu\<lparr>subsumed_by := owner\<rparr>)\<rparr>"
      by (simp add: set_entry_def)
    have "keeps s (set_entry subsumed (eu\<lparr>subsumed_by := owner\<rparr>)
        (set_entry owner (eo\<lparr>owner_of := subsumed\<rparr>) s))"
      unfolding eq using merged queue_links_ok_merge [OF task_queues_invD(4) [OF inv merged(2)] merged(1-7)]
      by (intro keeps_links [OF inv]) (auto split: if_splits)
    with merged(8) show ?thesis by (blast intro: keeps_wake_pending)
  qed
qed

lemma Unmerge_keeps:
  assumes inv: "task_queues_inv s" and run: "Unmerge owner s = Inr (b, s')"
  shows "keeps s s'"
proof -
  from run obtain eo where eo: "queue_entries s owner = Some eo" by (auto simp: Unmerge_def)
  show ?thesis
  proof (cases "owner_of eo = kUnmerged")
    case True
    with run eo inv show ?thesis by (auto simp: Unmerge_def Let_def keeps_refl)
  next
    case False
    obtain eu where eu: "queue_entries s (owner_of eo) = Some eu" "owner_of eo \<noteq> owner"
      using inv eo False by (rule owned_entry)
    let ?s2 = "s\<lparr>queue_entries := (queue_entries s)(owner_of eo \<mapsto> eu\<lparr>subsumed_by := kUnmerged\<rparr>,
        owner \<mapsto> eo\<lparr>owner_of := kUnmerged\<rparr>)\<rparr>"
    have "keeps s ?s2"
      using eo eu queue_links_ok_unmerge [OF task_queues_invD(4) [OF inv eo] eo refl False eu(1)]
      by (intro keeps_links [OF inv]) (auto split: if_splits)
    moreover obtain s3 where "WakeIfPending owner ?s2 = Inr s3" "WakeIfPending (owner_of eo) s3 = Inr s'"
      using run eo eu False by (auto simp: Unmerge_def Let_def set_entry_def)
    ultimately show ?thesis by (blast intro: keeps_wake_pending)
  qed
qed

lemma RegisterTask_eq:
  fixes c :: 'c and t :: int
  assumes "task_queues_inv s" "queue_entries s q = Some e"
    and "new = DelayedTask (scast (order_counter s)) c t"
  shows "RegisterTask q c t s =
     WakeUpUnlocked (if subsumed_by e = kUnmerged then q else subsumed_by e)
       (dt_target_time (hd (pq_push new (delayed_tasks e))))
       (set_entry q (e\<lparr>delayed_tasks := pq_push new (delayed_tasks e)\<rparr>)
         (s\<lparr>order_counter := order_counter s + 1\<rparr>))"
  using assms
  by (cases "pq_push new (delayed_tasks e)") (auto simp: RegisterTask_def Let_def GetTargetTime_def)

lemma RegisterTask_Inr:
  assumes inv: "task_queues_inv s" and run: "RegisterTask q c t s = Inr s'"
  obtains e log where "queue_entries s q = Some e"
    "s' = (set_entry q (e\<lparr>delayed_tasks :=
        pq_push (DelayedTask (scast (order_counter s)) c t) (delayed_tasks e)\<rparr>)
       (s\<lparr>order_counter := order_counter s + 1\<rparr>))\<lparr>wake_log := log\<rparr>"
proof -
  from run obtain e where e: "queue_entries s q = Some e"
    by (auto simp: RegisterTask_def dest: GetMutex_eq_Inr)
  show thesis
    using run that [OF e] unfolding RegisterTask_eq [OF inv e refl] by (blast dest: WakeUpUnlocked_frame)
qed

lemma pending_tasks_set_entry:
  assumes "queue_entries s q = Some e" "set (delayed_tasks e') = insert x (set (delayed_tasks e))"
  shows "pending_tasks (set_entry q e' s) = insert x (pending_tasks s)"
proof (intro equalityI subsetI)
  fix y assume "y \<in> pending_tasks (set_entry q e' s)"
  then show "y \<in> insert x (pending_tasks s)"
    using assms by (auto simp: pending_tasks_def set_entry_def split: if_splits)
next
  fix y assume "y \<in> insert x (pending_tasks s)"
  then have "y \<in> set (delayed_tasks e') \<or>
      (\<exists>p f. p \<noteq> q \<and> queue_entries s p = Some f \<and> y \<in> set (delayed_tasks f))"
  proof (elim insertE)
    assume "y \<in> pending_tasks s"
    then obtain p f where "queue_entries s p = Some f" "y \<in> set (delayed_tasks f)"
      by (auto simp: pending_tasks_def)
    then show ?thesis using assms by (cases "p = q") auto
  qed (use assms in simp)
  then show "y \<in> pending_tasks (set_entry q e' s)"
    by (auto simp: pending_tasks_def set_entry_def)
qed

lemma RegisterTask_inv:
  assumes inv: "task_queues_inv s" and run: "RegisterTask q c t s = Inr s'"
  shows "task_queues_inv s'" "order_counter s' = order_counter s + 1"
    "pending_tasks s' = insert (DelayedTask (scast (order_counter s)) c t) (pending_tasks s)"
proof -
  obtain e log where e: "queue_entries s q = Some e"
    and s': "s' = (set_entry q (e\<lparr>delayed_tasks :=
        pq_push (DelayedTask (scast (order_counter s)) c t) (delayed_tasks e)\<rparr>)
       (s\<lparr>order_counter := order_counter s + 1\<rparr>))\<lparr>wake_log := log\<rparr>"
    using inv run by (rule RegisterTask_Inr)
  have "task_queues_inv (s\<lparr>order_counter := order_counter s + 1\<rparr>)"
    using inv by (rule task_queues_inv_frame) simp_all
  then show "task_queues_inv s'"
    using e task_queues_invD [OF inv e] unfolding s'
    by (simp add: task_queues_inv_set_entry pq_wf_push)
  show "order_counter s' = order_counter s + 1" by (simp add: s' set_entry_def)
  show "pending_tasks s' = insert (DelayedTask (scast (order_counter s)) c t) (pending_tasks s)"
    using e by (simp add: s' pending_tasks_set_entry [where e = e])
      (simp add: pending_tasks_def)
qed

section \<open>Reachable states\<close>

text \<open>
  One rule per public method that can change the table. The bounds say that fewer than
  \<open>2 ^ 32 - 1\<close> queues and tasks have been created so far: beyond them ids and submission
  orders repeat.
\<close>

inductive task_queues_step :: "('c, 'w) task_queues \<Rightarrow> ('c, 'w) task_queues \<Rightarrow> bool" where
  create: "unat (task_queue_id_counter s) < 2 ^ 32 - 1 \<Longrightarrow> task_queues_step s (snd (CreateTaskQueue s))"
| dispose: "Dispose q s = Inr s' \<Longrightarrow> task_queues_step s s'"
| dispose_tasks: "DisposeTasks q s = Inr s' \<Longrightarrow> task_queues_step s s'"
| register: "unat (order_counter s) < 2 ^ 32 - 1 \<Longrightarrow> RegisterTask q c t s = Inr s' \<Longrightarrow>
     task_queues_step s s'"
| get_tasks: "GetTasksToRunNow q type now s = Inr (ts, s') \<Longrightarrow> task_queues_step s s'"
| add_observer: "AddTaskObserver q key cb s = Inr s' \<Longrightarrow> task_queues_step s s'"
| remove_observer: "RemoveTaskObserver q key s = Inr s' \<Longrightarrow> task_queues_step s s'"
| set_wakeable: "SetWakeable q w s = Inr s' \<Longrightarrow> task_queues_step s s'"
| merge: "Merge owner subsumed s = Inr (b, s') \<Longrightarrow> task_queues_step s s'"
| unmerge: "Unmerge owner s = Inr (b, s') \<Longrightarrow> task_queues_step s s'"

inductive task_queues_reachable :: "('c, 'w) task_queues \<Rightarrow> bool" where
  start: "task_queues_reachable MessageLoopTaskQueues"
| step: "task_queues_reachable s \<Longrightarrow> task_queues_step s s' \<Longrightarrow> task_queues_reachable s'"

text \<open>Submission orders are below the counter, so a new task comes after all pending ones.\<close>

definition orders_ok :: "('c, 'w) task_queues \<Rightarrow> bool" where
  "orders_ok s \<longleftrightarrow> (\<forall>t \<in> pending_tasks s. dt_order t < scast (order_counter s))"

lemma order_counter_step:
  "unat (order_counter s) < 2 ^ 32 - 1 \<Longrightarrow>
     (scast (order_counter s) :: 64 word) < scast (order_counter s + 1)"
  by (rule scast_32_64_mono) (simp add: unat_word_ariths)

lemma task_queues_step_keeps:
  assumes "task_queues_step s s'" "task_queues_inv s" "orders_ok s"
  shows "task_queues_inv s' \<and> orders_ok s'"
proof -
  have keep: "task_queues_inv s' \<and> orders_ok s'" if "keeps s s'" for s'
    using that assms(3) by (auto simp: keeps_def orders_ok_def)
  from assms(1) show ?thesis
  proof cases
    case (register q c t)
    then show ?thesis
      using RegisterTask_inv [OF assms(2) register(2)] assms(3) order_counter_step [OF register(1)]
      by (auto simp: orders_ok_def DelayedTask_def intro: less_trans)
  qed (auto intro!: keep intro: CreateTaskQueue_keeps Dispose_keeps DisposeTasks_keeps
      observer_ops_keep GetTasksToRunNow_keeps Merge_keeps Unmerge_keeps assms(2))
qed

lemma task_queues_reachable_ok: "task_queues_reachable s \<Longrightarrow> task_queues_inv s \<and> orders_ok s"
proof (induction rule: task_queues_reachable.induct)
  case start
  show ?case
    by (simp add: MessageLoopTaskQueues_def task_queues_inv_def queue_links_ok_def
        queue_contents_ok_def queue_ids_ok_def orders_ok_def pending_tasks_def)
next
  case (step s s')
  then show ?case by (blast dest: task_queues_step_keeps)
qed

section \<open>Merging and unmerging\<close>

lemma Merge_success:
  assumes inv: "task_queues_inv s" and ne: "owner \<noteq> subsumed"
    and o: "queue_entries s owner = Some eo" "owner_of eo = kUnmerged" "subsumed_by eo = kUnmerged"
    and u: "queue_entries s subsumed = Some eu" "owner_of eu = kUnmerged" "subsumed_by eu = kUnmerged"
  obtains log where "Merge owner subsumed s =
    Inr (True, s\<lparr>queue_entries := (queue_entries s)(owner \<mapsto> eo\<lparr>owner_of := subsumed\<rparr>,
                    subsumed \<mapsto> eu\<lparr>subsumed_by := owner\<rparr>), wake_log := log\<rparr>)"
proof -
  let ?s = "s\<lparr>queue_entries := (queue_entries s)(owner \<mapsto> eo\<lparr>owner_of := subsumed\<rparr>,
                    subsumed \<mapsto> eu\<lparr>subsumed_by := owner\<rparr>)\<rparr>"
  note ok = task_queues_invD(4) [OF inv o(1)]
  have u': "subsumed \<noteq> kUnmerged" using queue_links_okD(1) [OF ok u(1)] .
  have "keeps s ?s"
    using o u queue_links_ok_merge [OF ok ne o u]
    by (intro keeps_links [OF inv]) (auto split: if_splits)
  then have inv': "task_queues_inv ?s" by (simp add: keeps_def)
  have "queue_entries ?s owner = Some (eo\<lparr>owner_of := subsumed\<rparr>)" using ne by simp
  from WakeIfPending_eq [OF inv' this] obtain log where "WakeIfPending owner ?s = Inr (?s\<lparr>wake_log := log\<rparr>)"
    by blast
  then have "Merge owner subsumed s = Inr (True, ?s\<lparr>wake_log := log\<rparr>)"
    using inv ne o u u' by (simp add: Merge_def Let_def set_entry_def)
  then show thesis using that by simp
qed

lemma Unmerge_success:
  assumes inv: "task_queues_inv s"
    and o: "queue_entries s owner = Some eo" "owner_of eo \<noteq> kUnmerged"
    and u: "queue_entries s (owner_of eo) = Some eu"
  obtains log where "Unmerge owner s =
    Inr (True, s\<lparr>queue_entries := (queue_entries s)(owner_of eo \<mapsto> eu\<lparr>subsumed_by := kUnmerged\<rparr>,
                    owner \<mapsto> eo\<lparr>owner_of := kUnmerged\<rparr>), wake_log := log\<rparr>)"
proof -
  let ?s = "s\<lparr>queue_entries := (queue_entries s)(owner_of eo \<mapsto> eu\<lparr>subsumed_by := kUnmerged\<rparr>,
                    owner \<mapsto> eo\<lparr>owner_of := kUnmerged\<rparr>)\<rparr>"
  have ne: "owner_of eo \<noteq> owner" using inv o owned_entry by metis
  have "keeps s ?s"
    using o u queue_links_ok_unmerge [OF task_queues_invD(4) [OF inv o(1)] o(1) refl o(2) u]
    by (intro keeps_links [OF inv]) (auto split: if_splits)
  then have inv': "task_queues_inv ?s" by (simp add: keeps_def)
  have "queue_entries ?s owner = Some (eo\<lparr>owner_of := kUnmerged\<rparr>)" by simp
  from WakeIfPending_eq [OF inv' this] obtain log
    where w1: "WakeIfPending owner ?s = Inr (?s\<lparr>wake_log := log\<rparr>)" by blast
  have "task_queues_inv (?s\<lparr>wake_log := log\<rparr>)"
    "queue_entries (?s\<lparr>wake_log := log\<rparr>) (owner_of eo) = Some (eu\<lparr>subsumed_by := kUnmerged\<rparr>)"
    using inv' ne by simp_all
  from WakeIfPending_eq [OF this] obtain log'
    where "WakeIfPending (owner_of eo) (?s\<lparr>wake_log := log\<rparr>) = Inr (?s\<lparr>wake_log := log'\<rparr>)" by auto
  then have "Unmerge owner s = Inr (True, ?s\<lparr>wake_log := log'\<rparr>)"
    using inv o u ne w1 by (simp add: Unmerge_def Let_def set_entry_def)
  then show thesis using that by simp
qed

text \<open>
  C1. In every state the table can reach, the two directions of a merge agree: a queue that owns
  another is not itself subsumed and the owned queue points back at it, a subsumed queue is owned
  by the queue it names, no queue owns itself, every live queue has a mutex, and every task queue
  and observer map is in order. This is the invariant the comments in
  \<^verbatim>\<open>TaskQueueEntry\<close> and \<^verbatim>\<open>MessageLoopTaskQueues\<close> state informally.
\<close>

theorem reachable_links_symmetric:
  assumes "task_queues_reachable s" "queue_entries s q = Some e"
  shows "q \<in> queue_locks s \<and> q \<noteq> kUnmerged \<and> owner_of e \<noteq> q \<and>
    (owner_of e = kUnmerged \<or> subsumed_by e = kUnmerged) \<and>
    (\<forall>p. p \<noteq> kUnmerged \<longrightarrow>
      (owner_of e = p \<longleftrightarrow> (\<exists>e'. queue_entries s p = Some e' \<and> subsumed_by e' = q))) \<and>
    (\<forall>p. p \<noteq> kUnmerged \<longrightarrow>
      (subsumed_by e = p \<longleftrightarrow> (\<exists>e'. queue_entries s p = Some e' \<and> owner_of e' = q))) \<and>
    pq_wf (delayed_tasks e) \<and> map_wf (task_observers e)"
proof -
  have inv: "task_queues_inv s" using assms(1) by (blast dest: task_queues_reachable_ok)
  note d = task_queues_invD [OF inv assms(2)]
  note links = queue_links_okD [OF d(4) assms(2)]
  have "owner_of e = p" if "p \<noteq> kUnmerged" "queue_entries s p = Some e'" "subsumed_by e' = q" for p e'
    using queue_links_okD(5) [OF d(4) that(2)] that(3) assms(2) links(1) by auto
  moreover have "subsumed_by e = p" if "p \<noteq> kUnmerged" "queue_entries s p = Some e'" "owner_of e' = q" for p e'
    using queue_links_okD(4) [OF d(4) that(2)] that(3) assms(2) links(1) by auto
  ultimately show ?thesis using d links by blast
qed

text \<open>States used by the witnesses: two fresh queues, and the second merged into the first.\<close>

definition demo_two_queues :: "(nat, nat) task_queues" where
  "demo_two_queues =
     \<lparr>queue_entries = [0 \<mapsto> TaskQueueEntry, 1 \<mapsto> TaskQueueEntry], queue_locks = {0, 1},
      task_queue_id_counter = 2, order_counter = 0, wake_log = []\<rparr>"

definition demo_merged :: "(nat, nat) task_queues" where
  "demo_merged =
     demo_two_queues\<lparr>queue_entries := [0 \<mapsto> TaskQueueEntry\<lparr>owner_of := 1\<rparr>, 1 \<mapsto> TaskQueueEntry\<lparr>subsumed_by := 0\<rparr>]\<rparr>"

lemma demo_two_queues_run:
  "snd (CreateTaskQueue (snd (CreateTaskQueue MessageLoopTaskQueues))) = demo_two_queues"
  by (simp add: demo_two_queues_def CreateTaskQueue_def MessageLoopTaskQueues_def TaskQueueId_def
      insert_commute)

lemma demo_two_queues_reachable: "task_queues_reachable demo_two_queues"
proof -
  have "task_queues_reachable (snd (CreateTaskQueue (MessageLoopTaskQueues :: (nat, nat) task_queues)))"
    by (rule task_queues_reachable.step [OF task_queues_reachable.start task_queues_step.create])
      (simp add: MessageLoopTaskQueues_def)
  then have "task_queues_reachable
      (snd (CreateTaskQueue (snd (CreateTaskQueue (MessageLoopTaskQueues :: (nat, nat) task_queues)))))"
    by (rule task_queues_reachable.step [OF _ task_queues_step.create])
      (simp add: MessageLoopTaskQueues_def CreateTaskQueue_def Let_def)
  then show ?thesis by (simp only: demo_two_queues_run)
qed

lemma demo_merge: "Merge 0 1 demo_two_queues = Inr (True, demo_merged)"
  by (simp add: Merge_def demo_merged_def demo_two_queues_def GetMutex_def TaskQueueEntry_def
      set_entry_def WakeIfPending_def HasPendingTasksUnlocked_def kUnmerged_eq)

lemma demo_merged_reachable: "task_queues_reachable demo_merged"
  by (rule task_queues_reachable.step [OF demo_two_queues_reachable task_queues_step.merge [OF demo_merge]])

lemma demo_entries [simp]:
  "queue_entries demo_two_queues 0 = Some TaskQueueEntry"
  "queue_entries demo_two_queues 1 = Some TaskQueueEntry"
  "queue_entries demo_merged 0 = Some (TaskQueueEntry\<lparr>owner_of := 1\<rparr>)"
  "queue_entries demo_merged 1 = Some (TaskQueueEntry\<lparr>subsumed_by := 0\<rparr>)"
  by (simp_all add: demo_two_queues_def demo_merged_def)

lemma TaskQueueEntry_fields [simp]:
  "owner_of TaskQueueEntry = kUnmerged" "subsumed_by TaskQueueEntry = kUnmerged"
  "delayed_tasks TaskQueueEntry = []" "task_observers TaskQueueEntry = []"
  "wakeable TaskQueueEntry = None"
  by (simp_all add: TaskQueueEntry_def)

theorem reachable_links_symmetric_witness:
  "task_queues_reachable demo_merged \<and>
   (\<exists>e'. queue_entries demo_merged 1 = Some e' \<and> subsumed_by e' = 0)"
  using reachable_links_symmetric [OF demo_merged_reachable demo_entries(3)] demo_merged_reachable
  by (simp add: kUnmerged_eq)

section \<open>What a flush runs\<close>

text \<open>
  C2. Flushing a queue that is not subsumed with \<^verbatim>\<open>FlushType::kAll\<close> succeeds, runs exactly the
  tasks of the queue and of the queue it owns whose target time has come, in the order of target
  time and then of submission, leaves exactly the later ones pending, touches no other queue and
  arms the loop for the earliest task that is left (or for \<^verbatim>\<open>TimePoint::Max()\<close> if none is).
\<close>

theorem flush_runs_due_tasks:
  assumes "task_queues_reachable s" "queue_entries s q = Some e" "subsumed_by e = kUnmerged"
  shows "\<exists>ts s'. GetTasksToRunNow q kAll now s = Inr (map GetTask ts, s') \<and>
    sorted_wrt (\<lambda>a b. \<not> task_gt a b) ts \<and>
    mset ts = filter_mset (\<lambda>t. dt_target_time t \<le> now) (mset (runnable_tasks q s)) \<and>
    mset (runnable_tasks q s') = filter_mset (\<lambda>t. now < dt_target_time t) (mset (runnable_tasks q s)) \<and>
    (\<forall>p. p \<noteq> q \<longrightarrow> p \<noteq> owner_of e \<longrightarrow> queue_entries s' p = queue_entries s p) \<and>
    wake_log s' = wake_log s @
      (if runnable_tasks q s = [] then [] else wakes e (next_wake_time q s'))"
proof -
  have inv: "task_queues_inv s" using assms(1) by (blast dest: task_queues_reachable_ok)
  show ?thesis
    by (rule GetTasksToRunNow_all [OF inv assms(2,3), of now]) (auto simp: pq_wf_def)
qed

theorem flush_runs_due_tasks_witness:
  "\<exists>ts s'. GetTasksToRunNow 0 kAll 7 demo_merged = Inr (map GetTask ts, s') \<and>
     mset ts = filter_mset (\<lambda>t. dt_target_time t \<le> 7) (mset (runnable_tasks 0 demo_merged))"
  using flush_runs_due_tasks [OF demo_merged_reachable demo_entries(3), of 7] by auto

text \<open>
  C8. A subsumed queue never hands out work: its flush returns nothing, it reports no pending
  tasks, and its observers are not notified, whatever is queued on it. Only its owner runs it.
\<close>

theorem subsumed_queue_is_silent:
  assumes "task_queues_reachable s" "queue_entries s q = Some e" "subsumed_by e \<noteq> kUnmerged"
  shows "GetTasksToRunNow q type now s = Inr ([], s) \<and> HasPendingTasks q s = Inr False \<and>
    GetNumPendingTasks q s = Inr 0 \<and> GetObserversToNotify q s = Inr []"
proof -
  have inv: "task_queues_inv s" using assms(1) by (blast dest: task_queues_reachable_ok)
  note has = HasPendingTasksUnlocked_eq [OF inv assms(2)]
  show ?thesis
    using inv assms(2,3) has
    by (simp add: GetTasksToRunNow_def HasPendingTasks_def GetNumPendingTasks_def
        GetObserversToNotify_def)
qed

theorem subsumed_queue_is_silent_witness:
  "GetTasksToRunNow 1 kSingle 7 demo_merged = Inr ([], demo_merged) \<and>
   HasPendingTasks 1 demo_merged = Inr False \<and>
   GetNumPendingTasks 1 demo_merged = Inr 0 \<and> GetObserversToNotify 1 demo_merged = Inr []"
  by (rule subsumed_queue_is_silent [OF demo_merged_reachable demo_entries(4)])
    (simp add: kUnmerged_eq)

text \<open>
  C4. Merging two free queues pools their work: the merge reports success, afterwards the owner
  counts the pending tasks of both queues and the subsumed queue none; and unmerging the owner
  again restores every queue entry exactly as it was before the merge.
\<close>

theorem merge_pools_then_unmerge_restores:
  assumes "task_queues_reachable s" "owner \<noteq> subsumed"
    and "queue_entries s owner = Some eo" "owner_of eo = kUnmerged" "subsumed_by eo = kUnmerged"
    and "queue_entries s subsumed = Some eu" "owner_of eu = kUnmerged" "subsumed_by eu = kUnmerged"
  shows "\<exists>s1 s2. Merge owner subsumed s = Inr (True, s1) \<and>
    GetNumPendingTasks owner s1 =
      Inr (length (delayed_tasks eo) + length (delayed_tasks eu)) \<and>
    GetNumPendingTasks subsumed s1 = Inr 0 \<and> Owns owner subsumed s1 = Inr True \<and>
    Unmerge owner s1 = Inr (True, s2) \<and> queue_entries s2 = queue_entries s"
proof -
  have inv: "task_queues_inv s" using assms(1) by (blast dest: task_queues_reachable_ok)
  note ok = task_queues_invD(4) [OF inv assms(3)]
  have ids: "owner \<noteq> kUnmerged" "subsumed \<noteq> kUnmerged"
    using queue_links_okD(1) [OF ok assms(3)] queue_links_okD(1) [OF ok assms(6)] by simp_all
  obtain log where m: "Merge owner subsumed s =
    Inr (True, s\<lparr>queue_entries := (queue_entries s)(owner \<mapsto> eo\<lparr>owner_of := subsumed\<rparr>,
                    subsumed \<mapsto> eu\<lparr>subsumed_by := owner\<rparr>), wake_log := log\<rparr>)"
    (is "_ = Inr (True, ?s1)")
    using inv assms(2-8) by (rule Merge_success)
  have inv1: "task_queues_inv ?s1" using Merge_keeps [OF inv m] by (simp add: keeps_def)
  have e1: "queue_entries ?s1 owner = Some (eo\<lparr>owner_of := subsumed\<rparr>)"
    "queue_entries ?s1 subsumed = Some (eu\<lparr>subsumed_by := owner\<rparr>)" using assms(2) by simp_all
  obtain log' where "Unmerge owner ?s1 = Inr (True, ?s1\<lparr>queue_entries := (queue_entries ?s1)
      (subsumed \<mapsto> eu\<lparr>subsumed_by := kUnmerged\<rparr>, owner \<mapsto> eo\<lparr>owner_of := kUnmerged\<rparr>), wake_log := log'\<rparr>)"
    (is "_ = Inr (True, ?s2)")
    by (rule Unmerge_success [OF inv1 e1(1), of "eu\<lparr>subsumed_by := owner\<rparr>"]) (use e1(2) ids in simp_all)
  moreover have "eu\<lparr>subsumed_by := kUnmerged\<rparr> = eu" "eo\<lparr>owner_of := kUnmerged\<rparr> = eo"
    using assms(4,8) by simp_all
  then have "queue_entries ?s2 = queue_entries s" using assms(2,3,6) by auto
  moreover have "GetMutex owner ?s1 = Inr ()" "GetMutex subsumed ?s1 = Inr ()"
    using inv1 e1 by (auto intro: GetMutex_Inr)
  then have "GetNumPendingTasks owner ?s1 = Inr (length (delayed_tasks eo) + length (delayed_tasks eu))"
    "GetNumPendingTasks subsumed ?s1 = Inr 0" "Owns owner subsumed ?s1 = Inr True"
    using e1 ids assms(2,5) task_queues_invD(1) [OF inv assms(6)]
    by (simp_all add: GetNumPendingTasks_def Owns_def)
  ultimately show ?thesis using m by blast
qed

theorem merge_pools_then_unmerge_restores_witness:
  "\<exists>s1 s2. Merge 0 1 demo_two_queues = Inr (True, s1) \<and> Unmerge 0 s1 = Inr (True, s2) \<and>
     queue_entries s2 = queue_entries demo_two_queues"
  using merge_pools_then_unmerge_restores
    [OF demo_two_queues_reachable _ demo_entries(1) _ _ demo_entries(2)] by auto

section \<open>Submission order\<close>

lemma sorted_wrt_before:
  assumes "sorted_wrt (\<lambda>a b. \<not> P a b) ts" "a \<in> set ts" "b \<in> set ts" "P b a" "a \<noteq> b"
  shows "\<exists>xs ys zs. ts = xs @ a # ys @ b # zs"
proof -
  obtain xs rest where ts: "ts = xs @ a # rest" using assms(2) by (blast dest: split_list)
  have "b \<notin> set xs" using assms(1,4) ts by (auto simp: sorted_wrt_append)
  then have "b \<in> set rest" using assms(3,5) ts by auto
  then obtain ys zs where "rest = ys @ b # zs" by (blast dest: split_list)
  with ts show ?thesis by blast
qed

lemma runnable_pending: "set (runnable_tasks q s) \<subseteq> pending_tasks s"
proof (cases "queue_entries s q")
  case (Some e)
  then have "set (delayed_tasks e) \<subseteq> pending_tasks s" by (auto simp: pending_tasks_def)
  moreover have "set (delayed_tasks e') \<subseteq> pending_tasks s" if "queue_entries s (owner_of e) = Some e'" for e'
    using that by (auto simp: pending_tasks_def)
  ultimately show ?thesis using Some
    by (cases "queue_entries s (owner_of e)") (auto simp: runnable_tasks_def)
qed (simp add: runnable_tasks_def)

text \<open>
  C3. Tasks are first in, first out for equal target times, across a merged pair of queues: after
  \<open>c\<close> is registered for time \<open>t\<close>, a flush at any time from \<open>t\<close> on runs every task that was
  already waiting in the pair with a target time up to \<open>t\<close> before it runs \<open>c\<close>. (The submission
  counter must not have wrapped: fewer than \<open>2 ^ 32 - 1\<close> registrations so far.)
\<close>

theorem earlier_submissions_run_first:
  assumes "task_queues_reachable s" "unat (order_counter s) < 2 ^ 32 - 1"
    and "RegisterTask p c t s = Inr s1"
    and "queue_entries s1 q = Some e" "subsumed_by e = kUnmerged" "p = q \<or> p = owner_of e"
    and "old \<in> set (runnable_tasks q s)" "dt_target_time old \<le> t" "t \<le> now"
  defines "new \<equiv> DelayedTask (scast (order_counter s)) c t"
  shows "\<exists>xs ys zs s'. GetTasksToRunNow q kAll now s1 =
    Inr (map GetTask (xs @ old # ys @ new # zs), s')"
proof -
  have ok: "task_queues_inv s" "orders_ok s"
    using assms(1) by (blast dest: task_queues_reachable_ok)+
  have inv1: "task_queues_inv s1" using ok(1) assms(3) by (rule RegisterTask_inv)
  obtain ep log where ep: "queue_entries s p = Some ep"
    and s1: "s1 = (set_entry p (ep\<lparr>delayed_tasks := pq_push new (delayed_tasks ep)\<rparr>)
       (s\<lparr>order_counter := order_counter s + 1\<rparr>))\<lparr>wake_log := log\<rparr>"
    using ok(1) assms(3) unfolding new_def by (rule RegisterTask_Inr)
  have own: "owner_of e \<noteq> q" using queue_links_okD(2) [OF task_queues_invD(4)] inv1 assms(4) by blast
  have "p \<noteq> kUnmerged" using queue_links_okD(1) [OF task_queues_invD(4)] ok(1) ep by blast
  note ids = this own
  have ent1: "queue_entries s1 = (queue_entries s)(p \<mapsto> ep\<lparr>delayed_tasks := pq_push new (delayed_tasks ep)\<rparr>)"
    by (simp add: s1 set_entry_def)
  have run1: "set (runnable_tasks q s1) = insert new (set (runnable_tasks q s))"
  proof (cases "p = q")
    case True
    with ent1 ep ids assms(4) show ?thesis by (auto simp: runnable_tasks_def)
  next
    case False
    with ent1 ep ids assms(4,6) show ?thesis by (auto simp: runnable_tasks_def)
  qed
  have old_pending: "old \<in> pending_tasks s"
    using assms(7) runnable_pending by blast
  then have lt: "dt_order old < dt_order new" using ok(2) by (simp add: orders_ok_def new_def DelayedTask_def)
  then have gt: "task_gt new old" "old \<noteq> new"
    using assms(8) by (auto simp: task_gt_def new_def DelayedTask_def)
  obtain ts s' where g: "GetTasksToRunNow q kAll now s1 = Inr (map GetTask ts, s')" "pq_wf ts"
    "mset ts = filter_mset (\<lambda>t. dt_target_time t \<le> now) (mset (runnable_tasks q s1))"
    using inv1 assms(4,5) by (rule GetTasksToRunNow_all [where now = now])
  have "set ts = {x \<in> set (runnable_tasks q s1). dt_target_time x \<le> now}"
    using arg_cong [OF g(3), of set_mset] by simp
  then have "old \<in> set ts" "new \<in> set ts"
    using run1 assms(7-9) by (auto simp: new_def DelayedTask_def)
  then obtain xs ys zs where "ts = xs @ old # ys @ new # zs"
    using sorted_wrt_before [of task_gt ts old new] g(2) gt by (auto simp: pq_wf_def)
  with g(1) show ?thesis by blast
qed

text \<open>A reachable state with wakeables, queue 1 merged into queue 0 and a task due at 5 on queue 0.\<close>

definition demo_woken :: "(nat, nat) task_queues" where
  "demo_woken = demo_two_queues\<lparr>queue_entries :=
     [0 \<mapsto> TaskQueueEntry\<lparr>wakeable := Some 100\<rparr>, 1 \<mapsto> TaskQueueEntry\<lparr>wakeable := Some 101\<rparr>]\<rparr>"

definition demo_pending :: "(nat, nat) task_queues" where
  "demo_pending = demo_two_queues\<lparr>queue_entries :=
     [0 \<mapsto> TaskQueueEntry\<lparr>wakeable := Some 100, owner_of := 1, delayed_tasks := [DelayedTask 0 10 5]\<rparr>,
      1 \<mapsto> TaskQueueEntry\<lparr>wakeable := Some 101, subsumed_by := 0\<rparr>],
     order_counter := 1, wake_log := [(100, 5)]\<rparr>"

lemmas demo_defs = demo_two_queues_def demo_merged_def demo_woken_def demo_pending_def
  TaskQueueEntry_def set_entry_def GetMutex_def kUnmerged_eq

lemma demo_woken_reachable: "task_queues_reachable demo_woken"
proof -
  have "SetWakeable 0 (Some 100) demo_two_queues = Inr (demo_two_queues\<lparr>queue_entries :=
      [0 \<mapsto> TaskQueueEntry\<lparr>wakeable := Some 100\<rparr>, 1 \<mapsto> TaskQueueEntry]\<rparr>)"
    by (simp add: SetWakeable_def demo_defs) (rule ext, simp)
  note 1 = task_queues_reachable.step [OF demo_two_queues_reachable task_queues_step.set_wakeable [OF this]]
  have "SetWakeable 1 (Some 101) (demo_two_queues\<lparr>queue_entries :=
      [0 \<mapsto> TaskQueueEntry\<lparr>wakeable := Some 100\<rparr>, 1 \<mapsto> TaskQueueEntry]\<rparr>) = Inr demo_woken"
    by (simp add: SetWakeable_def demo_defs)
  then show ?thesis by (rule task_queues_reachable.step [OF 1 task_queues_step.set_wakeable])
qed

lemma demo_pending_reachable: "task_queues_reachable demo_pending"
proof -
  let ?s = "demo_two_queues\<lparr>queue_entries := [0 \<mapsto> TaskQueueEntry\<lparr>wakeable := Some 100, owner_of := 1\<rparr>,
      1 \<mapsto> TaskQueueEntry\<lparr>wakeable := Some 101, subsumed_by := 0\<rparr>]\<rparr>"
  have "Merge 0 1 demo_woken = Inr (True, ?s)"
    by (simp add: Merge_def WakeIfPending_def HasPendingTasksUnlocked_def demo_defs)
  note 1 = task_queues_reachable.step [OF demo_woken_reachable task_queues_step.merge [OF this]]
  have "RegisterTask 0 10 5 ?s = Inr demo_pending"
    by (simp add: RegisterTask_def WakeUpUnlocked_def DelayedTask_def GetTargetTime_def demo_defs)
      (rule ext, simp)
  then show ?thesis
    by (rule task_queues_reachable.step [OF 1 task_queues_step.register [rotated]])
      (simp add: demo_defs)
qed

theorem earlier_submissions_run_first_witness:
  "\<exists>s1 xs ys zs s'. RegisterTask 1 11 6 demo_pending = Inr s1 \<and>
     GetTasksToRunNow 0 kAll 9 s1 =
       Inr (map GetTask (xs @ DelayedTask 0 10 5 # ys @ DelayedTask 1 11 6 # zs), s')"
proof -
  let ?s1 = "demo_pending\<lparr>queue_entries := (queue_entries demo_pending)(1 \<mapsto>
      TaskQueueEntry\<lparr>wakeable := Some 101, subsumed_by := 0, delayed_tasks := [DelayedTask 1 11 6]\<rparr>),
      order_counter := 2, wake_log := [(100, 5), (100, 6)]\<rparr>"
  have reg: "RegisterTask 1 11 6 demo_pending = Inr ?s1"
    by (simp add: RegisterTask_def WakeUpUnlocked_def DelayedTask_def GetTargetTime_def demo_defs)
  have "(scast (order_counter demo_pending) :: 64 word) = 1" by (simp add: demo_pending_def)
  moreover have "\<exists>xs ys zs s'. GetTasksToRunNow 0 kAll 9 ?s1 =
       Inr (map GetTask (xs @ DelayedTask 0 10 5 # ys @
              DelayedTask (scast (order_counter demo_pending)) 11 6 # zs), s')"
    by (rule earlier_submissions_run_first [OF demo_pending_reachable _ reg,
          where e = "the (queue_entries demo_pending 0)"])
      (simp_all add: demo_defs runnable_tasks_def DelayedTask_def)
  ultimately show ?thesis using reg by auto
qed

section \<open>When a loop is woken\<close>

text \<open>
  C9. Registering a task on a queue that is neither owner nor subsumed wakes its loop for the
  earliest pending task, so an armed timer is never later than the next task.
\<close>

theorem register_arms_earliest:
  assumes "task_queues_reachable s" "queue_entries s q = Some e"
    and "subsumed_by e = kUnmerged" "owner_of e = kUnmerged" "wakeable e = Some w"
  shows "\<exists>s'. RegisterTask q c t s = Inr s' \<and>
    wake_log s' = wake_log s @ [(w, next_wake_time q s')] \<and> next_wake_time q s' \<le> t"
proof -
  have inv: "task_queues_inv s" using assms(1) by (blast dest: task_queues_reachable_ok)
  define new where "new = DelayedTask (scast (order_counter s)) c t"
  define e' where "e' = e\<lparr>delayed_tasks := pq_push new (delayed_tasks e)\<rparr>"
  define s2 where "s2 = set_entry q e' (s\<lparr>order_counter := order_counter s + 1\<rparr>)"
  have e': "queue_entries s2 q = Some e'" by (simp add: s2_def set_entry_def)
  have run: "runnable_tasks q s2 = pq_push new (delayed_tasks e)"
    using e' assms(4) by (simp add: runnable_unmerged e'_def)
  have wf: "pq_wf (pq_push new (delayed_tasks e))"
    using task_queues_invD(2) [OF inv assms(2)] by (rule pq_wf_push)
  have "Min (dt_target_time ` set (pq_push new (delayed_tasks e))) =
      dt_target_time (hd (pq_push new (delayed_tasks e)))"
    using wf by (cases "pq_push new (delayed_tasks e)")
      (auto intro!: Min_eqI dest: task_not_gt_time)
  then have nxt: "next_wake_time q s2 = dt_target_time (hd (pq_push new (delayed_tasks e)))"
    by (simp only: next_wake_time_def run pq_push_not_Nil if_False)
  have "RegisterTask q c t s = Inr (s2\<lparr>wake_log := wake_log s @ [(w, next_wake_time q s2)]\<rparr>)"
    using assms(3,5) e'
    by (simp add: RegisterTask_eq [OF inv assms(2) new_def] nxt WakeUpUnlocked_eq wakes_def
        flip: e'_def s2_def) (simp add: e'_def s2_def set_entry_def)
  moreover have "next_wake_time q s2 \<le> t"
    unfolding next_wake_time_def run by (simp add: new_def DelayedTask_def)
  ultimately show ?thesis by auto
qed

theorem register_arms_earliest_witness:
  "\<exists>s'. RegisterTask 0 10 5 demo_woken = Inr s' \<and>
     wake_log s' = wake_log demo_woken @ [(100, next_wake_time 0 s')] \<and> next_wake_time 0 s' \<le> 5"
  by (rule register_arms_earliest [OF demo_woken_reachable, where e = "the (queue_entries demo_woken 0)"])
    (simp_all add: demo_defs)

text \<open>
  C10. Registering a task on a subsumed queue re-arms the loop of the owner from the subsumed queue
  alone. If the owner still has an earlier task, the loop is armed for a time later than its next
  task: the wake-up that was pending for the owner's own task is overwritten.
\<close>

theorem subsumed_register_delays_owner:
  assumes "task_queues_reachable s" "queue_entries s q = Some e" "subsumed_by e = owner"
    and "owner \<noteq> kUnmerged" "queue_entries s owner = Some eo" "wakeable eo = Some w"
    and "delayed_tasks e = []" "early \<in> set (delayed_tasks eo)" "dt_target_time early < t"
  shows "\<exists>s'. RegisterTask q c t s = Inr s' \<and> wake_log s' = wake_log s @ [(w, t)] \<and>
    next_wake_time owner s' < t"
proof -
  have inv: "task_queues_inv s" using assms(1) by (blast dest: task_queues_reachable_ok)
  define new where "new = DelayedTask (scast (order_counter s)) c t"
  let ?s2 = "set_entry q (e\<lparr>delayed_tasks := [new]\<rparr>) (s\<lparr>order_counter := order_counter s + 1\<rparr>)"
  note ok = task_queues_invD(4) [OF inv assms(2)]
  have own: "owner_of eo = q" using queue_links_okD(5) [OF ok assms(2)] assms(3-5) by auto
  then have ne: "q \<noteq> owner" using queue_links_okD(2) [OF ok assms(5)] by simp
  have eo: "queue_entries ?s2 owner = Some eo" using ne assms(5) by (simp add: set_entry_def)
  have "RegisterTask q c t s = Inr (?s2\<lparr>wake_log := wake_log s @ [(w, t)]\<rparr>)"
    using assms(3,4,6,7) eo
    by (simp add: RegisterTask_eq [OF inv assms(2) new_def] WakeUpUnlocked_eq wakes_def)
      (simp add: new_def DelayedTask_def set_entry_def)
  moreover have mem: "early \<in> set (runnable_tasks owner ?s2)"
    using eo assms(8) by (simp add: runnable_tasks_def)
  then have "next_wake_time owner ?s2 \<le> dt_target_time early"
    by (auto simp: next_wake_time_def)
  then have "next_wake_time owner ?s2 < t" using assms(9) by simp
  ultimately show ?thesis by auto
qed

theorem subsumed_register_delays_owner_witness:
  "\<exists>s'. RegisterTask 1 11 60 demo_pending = Inr s' \<and>
     wake_log s' = wake_log demo_pending @ [(100, 60)] \<and> next_wake_time 0 s' < 60"
  by (rule subsumed_register_delays_owner [OF demo_pending_reachable,
        where e = "the (queue_entries demo_pending 1)" and eo = "the (queue_entries demo_pending 0)"
        and early = "DelayedTask 0 10 5"])
    (simp_all add: demo_defs DelayedTask_def)

end
