(* ===== verification/Message_Loop.thy ===== *)
theory Message_Loop
  imports Task_Queues_Correct
begin

text \<open>
  \<^verbatim>\<open>fml/message_loop_impl.cc\<close>: a message loop on top of the task queues. A closure is arbitrary
  code, so running one is the parameter \<open>invoke\<close>, a state transformer over everything the loop can
  reach; \<open>ml_env\<close> is whatever else closures act on. A flush also returns its log: the closures it
  ran, each with the state it was called in. The platform-specific \<^verbatim>\<open>Run()\<close> and \<^verbatim>\<open>Terminate()\<close> are
  parameters too.
\<close>

record ('c, 'w, 'x) message_loop =
  ml_queue_id :: task_queue_id
  ml_terminated :: bool
  ml_queues :: "('c, 'w) task_queues"
  ml_env :: 'x

type_synonym ('c, 'w, 'x) loop_op = "('c, 'w, 'x) message_loop \<Rightarrow> ('c, 'w, 'x) message_loop res"

type_synonym ('c, 'w, 'x) call_log = "('c \<times> ('c, 'w, 'x) message_loop) list"

type_synonym ('c, 'w, 'x) logged_op =
  "('c, 'w, 'x) message_loop \<Rightarrow> (('c, 'w, 'x) message_loop \<times> ('c, 'w, 'x) call_log) res"

definition MessageLoopImpl ::
    "'w \<Rightarrow> ('c, 'w) task_queues \<Rightarrow> 'x \<Rightarrow> ('c, 'w, 'x) message_loop res" where
  "MessageLoopImpl self queues x =
     (case CreateTaskQueue queues of (q, queues') \<Rightarrow>
       bind_res (SetWakeable q (Some self) queues') (\<lambda>queues''.
         Inr \<lparr>ml_queue_id = q, ml_terminated = False, ml_queues = queues'', ml_env = x\<rparr>))"

definition MessageLoopImpl_destroy :: "('c, 'w, 'x) loop_op" where
  "MessageLoopImpl_destroy l =
     bind_res (Dispose (ml_queue_id l) (ml_queues l)) (\<lambda>queues. Inr (l\<lparr>ml_queues := queues\<rparr>))"

definition PostTask :: "'c option \<Rightarrow> int \<Rightarrow> ('c, 'w, 'x) loop_op" where
  "PostTask task target_time l =
     (case task of
        None \<Rightarrow> Inl DCheckFailed
      | Some c \<Rightarrow>
          if ml_terminated l then Inr l
          else bind_res (RegisterTask (ml_queue_id l) c target_time (ml_queues l)) (\<lambda>queues.
            Inr (l\<lparr>ml_queues := queues\<rparr>)))"

text \<open>\<open>on_loop\<close>: the call is made on the loop's own thread.\<close>

definition Loop_AddTaskObserver :: "bool \<Rightarrow> int \<Rightarrow> 'c option \<Rightarrow> ('c, 'w, 'x) loop_op" where
  "Loop_AddTaskObserver on_loop key callback l =
     bind_res (guard DCheckFailed (callback \<noteq> None)) (\<lambda>_.
     bind_res (guard DCheckFailed on_loop) (\<lambda>_.
     bind_res (AddTaskObserver (ml_queue_id l) key callback (ml_queues l)) (\<lambda>queues.
       Inr (l\<lparr>ml_queues := queues\<rparr>))))"

definition Loop_RemoveTaskObserver :: "bool \<Rightarrow> int \<Rightarrow> ('c, 'w, 'x) loop_op" where
  "Loop_RemoveTaskObserver on_loop key l =
     bind_res (guard DCheckFailed on_loop) (\<lambda>_.
     bind_res (RemoveTaskObserver (ml_queue_id l) key (ml_queues l)) (\<lambda>queues.
       Inr (l\<lparr>ml_queues := queues\<rparr>)))"

fun run_closures :: "('c \<Rightarrow> ('c, 'w, 'x) loop_op) \<Rightarrow> 'c list \<Rightarrow> ('c, 'w, 'x) logged_op" where
  "run_closures invoke [] l = Inr (l, [])"
| "run_closures invoke (c # cs) l =
     bind_res (invoke c l) (\<lambda>l1.
     bind_res (run_closures invoke cs l1) (\<lambda>(l2, log).
       Inr (l2, (c, l) # log)))"

fun run_invocations :: "('c \<Rightarrow> ('c, 'w, 'x) loop_op) \<Rightarrow> 'c list \<Rightarrow> ('c, 'w, 'x) logged_op" where
  "run_invocations invoke [] l = Inr (l, [])"
| "run_invocations invoke (c # cs) l =
     bind_res (invoke c l) (\<lambda>l1.
     bind_res (GetObserversToNotify (ml_queue_id l1) (ml_queues l1)) (\<lambda>observers.
     bind_res (run_closures invoke observers l1) (\<lambda>(l2, log1).
     bind_res (run_invocations invoke cs l2) (\<lambda>(l3, log2).
       Inr (l3, (c, l) # log1 @ log2)))))"

definition FlushTasks :: "('c \<Rightarrow> ('c, 'w, 'x) loop_op) \<Rightarrow> flush_type \<Rightarrow> int \<Rightarrow> ('c, 'w, 'x) logged_op" where
  "FlushTasks invoke type now l =
     bind_res (GetTasksToRunNow (ml_queue_id l) type now (ml_queues l)) (\<lambda>(invocations, queues).
       run_invocations invoke invocations (l\<lparr>ml_queues := queues\<rparr>))"

definition RunExpiredTasksNow :: "('c \<Rightarrow> ('c, 'w, 'x) loop_op) \<Rightarrow> int \<Rightarrow> ('c, 'w, 'x) logged_op" where
  "RunExpiredTasksNow invoke now = FlushTasks invoke kAll now"

definition RunSingleExpiredTaskNow :: "('c \<Rightarrow> ('c, 'w, 'x) loop_op) \<Rightarrow> int \<Rightarrow> ('c, 'w, 'x) logged_op" where
  "RunSingleExpiredTaskNow invoke now = FlushTasks invoke kSingle now"

definition DoRun ::
    "('c \<Rightarrow> ('c, 'w, 'x) loop_op) \<Rightarrow> ('c, 'w, 'x) loop_op \<Rightarrow> int \<Rightarrow> ('c, 'w, 'x) logged_op" where
  "DoRun invoke run now l =
     (if ml_terminated l then Inr (l, [])
      else
        bind_res (run l) (\<lambda>l1.
        bind_res (RunExpiredTasksNow invoke now (l1\<lparr>ml_terminated := True\<rparr>)) (\<lambda>(l2, log).
        bind_res (DisposeTasks (ml_queue_id l2) (ml_queues l2)) (\<lambda>queues.
          Inr (l2\<lparr>ml_queues := queues\<rparr>, log)))))"

definition DoTerminate :: "('c, 'w, 'x) loop_op \<Rightarrow> ('c, 'w, 'x) loop_op" where
  "DoTerminate terminate l = terminate (l\<lparr>ml_terminated := True\<rparr>)"

section \<open>What closures can do to a loop\<close>

text \<open>
  The members of a loop are private: other code changes the loop through the public methods of the task
  queues, which include everything \<^verbatim>\<open>PostTask\<close> and the observer methods do, and by terminating it; no
  method resets \<^verbatim>\<open>terminated_\<close>. Only the loop's destructor disposes of its queue.
\<close>

inductive client_step :: "('c, 'w, 'x) message_loop \<Rightarrow> ('c, 'w, 'x) message_loop \<Rightarrow> bool" where
  queues: "task_queues_step (ml_queues l) s \<Longrightarrow> queue_entries s (ml_queue_id l) \<noteq> None \<Longrightarrow>
     client_step l (l\<lparr>ml_queues := s\<rparr>)"
| terminate: "client_step l (l\<lparr>ml_terminated := True\<rparr>)"
| env: "client_step l (l\<lparr>ml_env := x\<rparr>)"

text \<open>Closures return, having done any number of such steps.\<close>

definition closures_return :: "('c \<Rightarrow> ('c, 'w, 'x) loop_op) \<Rightarrow> bool" where
  "closures_return invoke \<longleftrightarrow> (\<forall>c l. \<exists>l'. invoke c l = Inr l' \<and> client_step\<^sup>*\<^sup>* l l')"

lemma closures_returnD:
  assumes "closures_return invoke"
  obtains l' where "invoke c l = Inr l'" "client_step\<^sup>*\<^sup>* l l'"
  using assms unfolding closures_return_def by meson

text \<open>The queue of a live loop is in a reachable table.\<close>

definition loop_ok :: "('c, 'w, 'x) message_loop \<Rightarrow> bool" where
  "loop_ok l \<longleftrightarrow> task_queues_reachable (ml_queues l) \<and> queue_entries (ml_queues l) (ml_queue_id l) \<noteq> None"

lemma client_step_keeps:
  "client_step l l' \<Longrightarrow> ml_queue_id l' = ml_queue_id l \<and> (ml_terminated l \<longrightarrow> ml_terminated l') \<and>
     (loop_ok l \<longrightarrow> loop_ok l')"
  by (induction rule: client_step.induct) (auto simp: loop_ok_def intro: task_queues_reachable.step)

lemma client_steps_keep:
  "client_step\<^sup>*\<^sup>* l l' \<Longrightarrow> ml_queue_id l' = ml_queue_id l \<and> (ml_terminated l \<longrightarrow> ml_terminated l') \<and>
     (loop_ok l \<longrightarrow> loop_ok l')"
  by (induction rule: rtranclp_induct) (auto dest: client_step_keeps)

section \<open>Flushing\<close>

text \<open>A log is a record of consecutive calls that lead from one state to another.\<close>

fun replays :: "('c \<Rightarrow> ('c, 'w, 'x) loop_op) \<Rightarrow> ('c, 'w, 'x) message_loop \<Rightarrow> ('c, 'w, 'x) call_log \<Rightarrow>
    ('c, 'w, 'x) message_loop \<Rightarrow> bool" where
  "replays invoke l [] l' \<longleftrightarrow> l' = l"
| "replays invoke l ((c, s) # log) l' \<longleftrightarrow> s = l \<and> (\<exists>l1. invoke c l = Inr l1 \<and> replays invoke l1 log l')"

lemma replays_append:
  "replays invoke l (log1 @ log2) l' \<longleftrightarrow> (\<exists>l1. replays invoke l log1 l1 \<and> replays invoke l1 log2 l')"
  by (induction invoke l log1 l' rule: replays.induct) auto

lemma replays_client_steps:
  assumes "closures_return invoke"
  shows "replays invoke l log l' \<Longrightarrow> client_step\<^sup>*\<^sup>* l l' \<and> (\<forall>(c, s) \<in> set log. client_step\<^sup>*\<^sup>* l s)"
proof (induction log arbitrary: l)
  case (Cons x log)
  obtain c where x: "x = (c, l)" using Cons.prems by (cases x) auto
  with Cons.prems obtain l1 where l1: "invoke c l = Inr l1" "replays invoke l1 log l'" by auto
  obtain l2 where "invoke c l = Inr l2" "client_step\<^sup>*\<^sup>* l l2" using assms by (rule closures_returnD)
  with l1(1) have "client_step\<^sup>*\<^sup>* l l1" by simp
  with Cons.IH [OF l1(2)] x show ?case by (auto intro: rtranclp_trans)
qed simp

lemma run_closures_log:
  assumes "closures_return invoke"
  shows "\<exists>l' log. run_closures invoke cs l = Inr (l', log) \<and> map fst log = cs \<and> replays invoke l log l'"
proof (induction cs arbitrary: l)
  case (Cons c cs)
  obtain l1 where l1: "invoke c l = Inr l1" using assms by (rule closures_returnD)
  from Cons.IH [of l1] obtain l' log where "run_closures invoke cs l1 = Inr (l', log)"
    "map fst log = cs" "replays invoke l1 log l'" by blast
  with l1 show ?case by (intro exI [of _ l'] exI [of _ "(c, l) # log"]) simp
qed simp

lemma GetObserversToNotify_succeeds:
  assumes inv: "task_queues_inv s" and e: "queue_entries s q = Some e"
  obtains obs where "GetObserversToNotify q s = Inr obs"
proof -
  have "\<exists>obs. GetObserversToNotify q s = Inr obs"
  proof (cases "owner_of e = kUnmerged")
    case True
    with inv e show ?thesis by (simp add: GetObserversToNotify_def Let_def)
  next
    case False
    then obtain e' where e': "queue_entries s (owner_of e) = Some e'" using inv e owned_entry by metis
    then have "owner_of e \<in> queue_locks s" by (rule task_queues_invD(1) [OF inv])
    with inv e e' show ?thesis by (simp add: GetObserversToNotify_def Let_def)
  qed
  with that show thesis by blast
qed

text \<open>
  What a flush does for one task: the call of the task, then a call of each observer that is
  registered once the task has returned.
\<close>

definition task_block :: "('c \<Rightarrow> ('c, 'w, 'x) loop_op) \<Rightarrow> 'c \<Rightarrow> ('c, 'w, 'x) call_log \<Rightarrow> bool" where
  "task_block invoke c block \<longleftrightarrow>
     (\<exists>s s1 notified. block = (c, s) # notified \<and> invoke c s = Inr s1 \<and>
        GetObserversToNotify (ml_queue_id s1) (ml_queues s1) = Inr (map fst notified))"

lemma run_invocations_log:
  assumes ret: "closures_return invoke"
  shows "loop_ok l \<Longrightarrow> \<exists>l' blocks. run_invocations invoke cs l = Inr (l', concat blocks) \<and>
    list_all2 (task_block invoke) cs blocks \<and> replays invoke l (concat blocks) l'"
proof (induction cs arbitrary: l)
  case (Cons c cs)
  obtain l1 where l1: "invoke c l = Inr l1" "client_step\<^sup>*\<^sup>* l l1" using ret by (rule closures_returnD)
  with Cons.prems have ok1: "loop_ok l1" by (auto dest: client_steps_keep)
  then obtain e where "task_queues_inv (ml_queues l1)" "queue_entries (ml_queues l1) (ml_queue_id l1) = Some e"
    by (auto simp: loop_ok_def dest: task_queues_reachable_ok)
  then obtain obs where obs: "GetObserversToNotify (ml_queue_id l1) (ml_queues l1) = Inr obs"
    by (rule GetObserversToNotify_succeeds)
  obtain l2 log where l2: "run_closures invoke obs l1 = Inr (l2, log)" "map fst log = obs" "replays invoke l1 log l2"
    using run_closures_log [OF ret] by blast
  then have "loop_ok l2" using ok1 replays_client_steps [OF ret] by (blast dest: client_steps_keep)
  from Cons.IH [OF this] obtain l' blocks where l': "run_invocations invoke cs l2 = Inr (l', concat blocks)"
    "list_all2 (task_block invoke) cs blocks" "replays invoke l2 (concat blocks) l'" by blast
  have "task_block invoke c ((c, l) # log)" using l1(1) obs l2(2) by (simp add: task_block_def)
  with l1 l2 l' obs show ?case
    by (intro exI [of _ l'] exI [of _ "((c, l) # log) # blocks"]) (auto simp: replays_append)
next
  case Nil
  show ?case by (intro exI [of _ l] exI [of _ "[]"]) simp
qed

lemma flush_log:
  assumes ok: "loop_ok l" and free: "subsumed_by (the (queue_entries (ml_queues l) (ml_queue_id l))) = kUnmerged"
    and ret: "closures_return invoke"
  shows "\<exists>ts s blocks l'. GetTasksToRunNow (ml_queue_id l) kAll now (ml_queues l) = Inr (map GetTask ts, s) \<and>
    FlushTasks invoke kAll now l = Inr (l', concat blocks) \<and> sorted_wrt (\<lambda>a b. \<not> task_gt a b) ts \<and>
    mset ts = filter_mset (\<lambda>t. dt_target_time t \<le> now) (mset (runnable_tasks (ml_queue_id l) (ml_queues l))) \<and>
    list_all2 (task_block invoke) (map GetTask ts) blocks \<and>
    replays invoke (l\<lparr>ml_queues := s\<rparr>) (concat blocks) l' \<and> loop_ok (l\<lparr>ml_queues := s\<rparr>)"
proof -
  obtain e where e: "queue_entries (ml_queues l) (ml_queue_id l) = Some e" "subsumed_by e = kUnmerged"
    using ok free by (auto simp: loop_ok_def)
  have inv: "task_queues_inv (ml_queues l)" using ok by (auto simp: loop_ok_def dest: task_queues_reachable_ok)
  obtain ts s where g: "GetTasksToRunNow (ml_queue_id l) kAll now (ml_queues l) = Inr (map GetTask ts, s)"
    "same_shape (ml_queues l) s" "pq_wf ts"
    "mset ts = filter_mset (\<lambda>t. dt_target_time t \<le> now) (mset (runnable_tasks (ml_queue_id l) (ml_queues l)))"
    using inv e by (rule GetTasksToRunNow_all [where now = now])
  have "task_queues_reachable s"
    using ok task_queues_step.get_tasks [OF g(1)] unfolding loop_ok_def by (blast intro: task_queues_reachable.step)
  moreover obtain e' where "queue_entries s (ml_queue_id l) = Some e'" using same_shapeD [OF g(2) e(1)] by metis
  ultimately have ok': "loop_ok (l\<lparr>ml_queues := s\<rparr>)" by (simp add: loop_ok_def)
  obtain l' blocks where r: "run_invocations invoke (map GetTask ts) (l\<lparr>ml_queues := s\<rparr>) = Inr (l', concat blocks)"
    "list_all2 (task_block invoke) (map GetTask ts) blocks" "replays invoke (l\<lparr>ml_queues := s\<rparr>) (concat blocks) l'"
    using run_invocations_log [OF ret ok'] by blast
  have "FlushTasks invoke kAll now l = Inr (l', concat blocks)" using g(1) r(1) by (simp add: FlushTasks_def)
  moreover have "sorted_wrt (\<lambda>a b. \<not> task_gt a b) ts" using g(3) by (simp add: pq_wf_def)
  ultimately show ?thesis using g(1,4) r(2,3) ok' by blast
qed


definition demo_loop :: "(nat, nat, nat) message_loop" where
  "demo_loop = \<lparr>ml_queue_id = 0, ml_terminated = False, ml_queues = demo_pending, ml_env = 0\<rparr>"

text \<open>A closure that sets a new task observer on the loop, if that is possible, and counts itself.\<close>

definition demo_invoke :: "nat \<Rightarrow> (nat, nat, nat) loop_op" where
  "demo_invoke c l =
     (case AddTaskObserver (ml_queue_id l) (int c) (Some 7) (ml_queues l) of
        Inl _ \<Rightarrow> Inr (l\<lparr>ml_env := ml_env l + 1\<rparr>)
      | Inr s \<Rightarrow>
          if queue_entries s (ml_queue_id l) = None then Inr l else Inr (l\<lparr>ml_queues := s, ml_env := ml_env l + 1\<rparr>))"

lemma demo_invoke_returns: "closures_return demo_invoke"
  unfolding closures_return_def
proof (intro allI)
  fix c l
  show "\<exists>l'. demo_invoke c l = Inr l' \<and> client_step\<^sup>*\<^sup>* l l'"
  proof (cases "AddTaskObserver (ml_queue_id l) (int c) (Some 7) (ml_queues l)")
    case (Inr s)
    have "client_step\<^sup>*\<^sup>* l (l\<lparr>ml_queues := s, ml_env := ml_env l + 1\<rparr>)" if "queue_entries s (ml_queue_id l) \<noteq> None"
    proof -
      have "client_step l (l\<lparr>ml_queues := s\<rparr>)" using Inr that by (blast intro: client_step.queues task_queues_step.add_observer)
      moreover have "client_step (l\<lparr>ml_queues := s\<rparr>) (l\<lparr>ml_queues := s, ml_env := ml_env l + 1\<rparr>)"
        using client_step.env [of "l\<lparr>ml_queues := s\<rparr>" "ml_env l + 1"] by simp
      ultimately show ?thesis by (meson converse_rtranclp_into_rtranclp rtranclp.rtrancl_refl)
    qed
    with Inr show ?thesis by (simp add: demo_invoke_def)
  qed (auto simp: demo_invoke_def intro: client_step.env)
qed

lemma demo_loop_facts:
  "loop_ok demo_loop" "subsumed_by (the (queue_entries (ml_queues demo_loop) (ml_queue_id demo_loop))) = kUnmerged"
  using demo_pending_reachable by (simp_all add: demo_loop_def loop_ok_def) (simp_all add: demo_defs)


section \<open>Shutting down\<close>

lemma DisposeTasks_succeeds:
  assumes inv: "task_queues_inv s" and e: "queue_entries s q = Some e" and free: "subsumed_by e = kUnmerged"
  obtains s' where "DisposeTasks q s = Inr s'"
proof (cases "owner_of e = kUnmerged")
  case True
  with inv e free that show thesis by (auto simp: DisposeTasks_def Let_def)
next
  case False
  then obtain e' where e': "queue_entries s (owner_of e) = Some e'" "owner_of e \<noteq> q"
    using inv e owned_entry by metis
  then have "owner_of e \<in> queue_locks s" using task_queues_invD(1) [OF inv] by blast
  with inv e e' False free that show thesis by (auto simp: DisposeTasks_def Let_def set_entry_def)
qed

lemma DisposeTasks_clears:
  assumes inv: "task_queues_inv s" and run: "DisposeTasks q s = Inr s'"
  shows "runnable_tasks q s' = []"
proof -
  from run obtain e where e: "queue_entries s q = Some e" by (auto simp: DisposeTasks_def Let_def)
  show ?thesis
  proof (cases "owner_of e = kUnmerged")
    case True
    with run e show ?thesis by (auto simp: DisposeTasks_def Let_def set_entry_def runnable_tasks_def)
  next
    case False
    then obtain e' where "queue_entries s (owner_of e) = Some e'" "owner_of e \<noteq> q"
      using inv e owned_entry by metis
    with False run e show ?thesis
      by (auto simp: DisposeTasks_def Let_def set_entry_def runnable_tasks_def)
  qed
qed

text \<open>The loop's queue is not subsumed, and closures leave it so.\<close>

definition loop_free :: "('c, 'w, 'x) message_loop \<Rightarrow> bool" where
  "loop_free l \<longleftrightarrow> subsumed_by (the (queue_entries (ml_queues l) (ml_queue_id l))) = kUnmerged"

definition closures_keep_free :: "('c \<Rightarrow> ('c, 'w, 'x) loop_op) \<Rightarrow> bool" where
  "closures_keep_free invoke \<longleftrightarrow> (\<forall>c l l'. invoke c l = Inr l' \<longrightarrow> loop_free l \<longrightarrow> loop_free l')"

lemma replays_free:
  "closures_keep_free invoke \<Longrightarrow> replays invoke l log l' \<Longrightarrow> loop_free l \<Longrightarrow> loop_free l'"
  by (induction invoke l log l' rule: replays.induct) (auto simp: closures_keep_free_def)

lemma flush_keeps_free:
  assumes "loop_ok l" "loop_free l"
    and "GetTasksToRunNow (ml_queue_id l) kAll now (ml_queues l) = Inr (map GetTask ts, s)"
  shows "subsumed_by (the (queue_entries s (ml_queue_id l))) = kUnmerged"
proof -
  obtain e where e: "queue_entries (ml_queues l) (ml_queue_id l) = Some e" "subsumed_by e = kUnmerged"
    using assms(1,2) by (auto simp: loop_ok_def loop_free_def)
  have inv: "task_queues_inv (ml_queues l)" using assms(1) by (auto simp: loop_ok_def dest: task_queues_reachable_ok)
  have "same_shape (ml_queues l) s" using inv e
    by (rule GetTasksToRunNow_all [where now = now]) (use assms(3) in auto)
  with e show ?thesis by (force dest: same_shapeD)
qed

text \<open>
  C5. Running a loop to completion shuts it down cleanly. Once the platform's \<^verbatim>\<open>Run\<close> returns, every task
  that is already due still runs, followed each time by the observers. The loop is terminated before the first
  of them is called, so none of these calls can post another task to the loop. Afterwards nothing is left to
  run on it and posting a task changes nothing. This holds for all closures that return, reach the loop
  through the public methods only and do not merge its queue into another one.
\<close>

theorem do_run_shuts_down:
  assumes "\<not> ml_terminated l" "run l = Inr l1" "loop_ok l1" "loop_free l1"
    and "closures_return invoke" "closures_keep_free invoke"
  shows "\<exists>ts blocks l'. DoRun invoke run now l = Inr (l', concat blocks) \<and>
    mset ts = filter_mset (\<lambda>t. dt_target_time t \<le> now)
      (mset (runnable_tasks (ml_queue_id l1) (ml_queues l1))) \<and>
    list_all2 (task_block invoke) (map GetTask ts) blocks \<and>
    list_all (\<lambda>(c, s). \<forall>c' t. PostTask (Some c') t s = Inr s) (concat blocks) \<and>
    ml_terminated l' \<and> runnable_tasks (ml_queue_id l') (ml_queues l') = [] \<and>
    (\<forall>c t. PostTask (Some c) t l' = Inr l')"
proof -
  let ?l = "l1\<lparr>ml_terminated := True\<rparr>"
  have "loop_ok ?l" "subsumed_by (the (queue_entries (ml_queues ?l) (ml_queue_id ?l))) = kUnmerged"
    using assms(3,4) by (simp_all add: loop_ok_def loop_free_def)
  from flush_log [OF this assms(5), of now] obtain ts s blocks l2 where f:
    "GetTasksToRunNow (ml_queue_id l1) kAll now (ml_queues l1) = Inr (map GetTask ts, s)"
    "FlushTasks invoke kAll now ?l = Inr (l2, concat blocks)"
    "mset ts = filter_mset (\<lambda>t. dt_target_time t \<le> now) (mset (runnable_tasks (ml_queue_id l1) (ml_queues l1)))"
    "list_all2 (task_block invoke) (map GetTask ts) blocks"
    "replays invoke (?l\<lparr>ml_queues := s\<rparr>) (concat blocks) l2" "loop_ok (?l\<lparr>ml_queues := s\<rparr>)"
    by auto
  note steps = replays_client_steps [OF assms(5) f(5)]
  then have l2: "ml_terminated l2" "loop_ok l2" "ml_queue_id l2 = ml_queue_id l1"
    using f(6) by (auto dest!: client_steps_keep)
  have post: "list_all (\<lambda>(c, s). \<forall>c' t. PostTask (Some c') t s = Inr s) (concat blocks)"
    unfolding list_all_iff
  proof clarify
    fix c s' c' t
    assume "(c, s') \<in> set (concat blocks)"
    with steps have "client_step\<^sup>*\<^sup>* (?l\<lparr>ml_queues := s\<rparr>) s'" by blast
    then show "PostTask (Some c') t s' = Inr s'" by (auto simp: PostTask_def dest: client_steps_keep)
  qed
  have "loop_free (?l\<lparr>ml_queues := s\<rparr>)" using flush_keeps_free [OF assms(3,4) f(1)] by (simp add: loop_free_def)
  then have "loop_free l2" using assms(6) f(5) by (blast intro: replays_free)
  with l2 obtain e where e: "task_queues_inv (ml_queues l2)" "queue_entries (ml_queues l2) (ml_queue_id l2) = Some e"
      "subsumed_by e = kUnmerged"
    by (auto simp: loop_ok_def loop_free_def dest: task_queues_reachable_ok)
  then obtain s'' where d: "DisposeTasks (ml_queue_id l2) (ml_queues l2) = Inr s''" by (rule DisposeTasks_succeeds)
  then have "runnable_tasks (ml_queue_id l2) s'' = []" using e(1) by (intro DisposeTasks_clears)
  with assms(1,2) f d l2 post show ?thesis
    by (intro exI [of _ ts] exI [of _ blocks] exI [of _ "l2\<lparr>ml_queues := s''\<rparr>"])
      (simp add: DoRun_def RunExpiredTasksNow_def PostTask_def [of _ _ "l2\<lparr>ml_queues := s''\<rparr>"])
qed

lemma demo_invoke_keeps_free: "closures_keep_free demo_invoke"
  by (auto simp: closures_keep_free_def demo_invoke_def loop_free_def AddTaskObserver_def set_entry_def
      Let_def split: sum.splits if_splits)

theorem do_run_shuts_down_witness:
  "\<exists>ts blocks l'. DoRun demo_invoke Inr 7 demo_loop = Inr (l', concat blocks) \<and>
     list_all2 (task_block demo_invoke) (map GetTask ts) blocks \<and>
     mset ts = filter_mset (\<lambda>t. dt_target_time t \<le> 7) (mset (runnable_tasks 0 demo_pending)) \<and>
     ml_terminated l' \<and> runnable_tasks (ml_queue_id l') (ml_queues l') = [] \<and> PostTask (Some 3) 9 l' = Inr l'"
proof -
  have d: "\<not> ml_terminated demo_loop" "loop_free demo_loop" "ml_queue_id demo_loop = 0" "ml_queues demo_loop = demo_pending"
    using demo_loop_facts by (simp_all add: demo_loop_def loop_free_def)
  show ?thesis
    using do_run_shuts_down [of demo_loop Inr demo_loop demo_invoke 7, OF d(1) refl demo_loop_facts(1) d(2) demo_invoke_returns demo_invoke_keeps_free]
    unfolding d(3,4) by blast
qed

end
