(* ===== verification/Thread_Merger.thy ===== *)
theory Thread_Merger
  imports Task_Queues_Correct
begin

text \<open>
  \<^verbatim>\<open>fml/gpu_thread_merger.{h,cc}\<close>: the lease under which the GPU thread's task queue is merged
  into the platform thread's queue. The locale \<open>mergeable_queues\<close> is what the merger relies on
  in \<^verbatim>\<open>MessageLoopTaskQueues\<close>; \<open>tq\<close> interprets it on the model of that class.
\<close>

section \<open>The interface to the task queues\<close>

locale mergeable_queues =
  fixes merge :: "'q \<Rightarrow> 'q \<Rightarrow> 's \<Rightarrow> (bool \<times> 's) res"
    and unmerge :: "'q \<Rightarrow> 's \<Rightarrow> (bool \<times> 's) res"
    and owns :: "'q \<Rightarrow> 'q \<Rightarrow> 's \<Rightarrow> bool res"
    and invar :: "'s \<Rightarrow> bool"
    and free :: "'q \<Rightarrow> 's \<Rightarrow> bool"
    and linked :: "'q \<Rightarrow> 'q \<Rightarrow> 's \<Rightarrow> bool"
  assumes merge_free: "invar s \<Longrightarrow> a \<noteq> b \<Longrightarrow> free a s \<Longrightarrow> free b s \<Longrightarrow>
      \<exists>s'. merge a b s = Inr (True, s') \<and> invar s' \<and> linked a b s'"
    and unmerge_linked: "invar s \<Longrightarrow> linked a b s \<Longrightarrow>
      \<exists>s'. unmerge a s = Inr (True, s') \<and> invar s' \<and> free a s' \<and> free b s'"
    and unmerge_free: "invar s \<Longrightarrow> free a s \<Longrightarrow> unmerge a s = Inr (False, s)"
    and owns_linked: "invar s \<Longrightarrow> linked a b s \<Longrightarrow> owns a b s = Inr True"
begin

lemma merge_unmerge_cycle:
  assumes "invar s" "a \<noteq> b" "free a s" "free b s"
  obtains s1 s2 where "merge a b s = Inr (True, s1)" "owns a b s1 = Inr True"
    "unmerge a s1 = Inr (True, s2)" "invar s2" "free a s2" "free b s2"
    "unmerge a s2 = Inr (False, s2)"
proof -
  obtain s1 where s1: "merge a b s = Inr (True, s1)" "invar s1" "linked a b s1"
    using merge_free [OF assms] by blast
  moreover obtain s2 where "unmerge a s1 = Inr (True, s2)" "invar s2" "free a s2" "free b s2"
    using unmerge_linked [OF s1(2,3)] by blast
  ultimately show thesis using that owns_linked unmerge_free by blast
qed

end

definition free_queue :: "task_queue_id \<Rightarrow> ('c, 'w) task_queues \<Rightarrow> bool" where
  "free_queue q s \<longleftrightarrow>
     (\<exists>e. queue_entries s q = Some e \<and> owner_of e = kUnmerged \<and> subsumed_by e = kUnmerged)"

definition linked_queues :: "task_queue_id \<Rightarrow> task_queue_id \<Rightarrow> ('c, 'w) task_queues \<Rightarrow> bool" where
  "linked_queues a b s \<longleftrightarrow>
     b \<noteq> kUnmerged \<and> (\<exists>e. queue_entries s a = Some e \<and> owner_of e = b)"

interpretation tq: mergeable_queues Merge Unmerge Owns task_queues_inv free_queue linked_queues
proof unfold_locales
  fix s :: "('a, 'b) task_queues" and a b
  assume inv: "task_queues_inv s" and ne: "a \<noteq> b" and "free_queue a s" "free_queue b s"
  then obtain ea eb where a: "queue_entries s a = Some ea" "owner_of ea = kUnmerged" "subsumed_by ea = kUnmerged"
    and b: "queue_entries s b = Some eb" "owner_of eb = kUnmerged" "subsumed_by eb = kUnmerged"
    by (auto simp: free_queue_def)
  obtain log where m: "Merge a b s = Inr (True, s\<lparr>queue_entries := (queue_entries s)(a \<mapsto> ea\<lparr>owner_of := b\<rparr>,
      b \<mapsto> eb\<lparr>subsumed_by := a\<rparr>), wake_log := log\<rparr>)" (is "_ = Inr (True, ?s)")
    using inv ne a b by (rule Merge_success)
  have "task_queues_inv ?s" using Merge_keeps [OF inv m] by (simp add: keeps_def)
  moreover have "linked_queues a b ?s"
    using ne queue_links_okD(1) [OF task_queues_invD(4) [OF inv b(1)] b(1)] by (simp add: linked_queues_def)
  ultimately show "\<exists>s'. Merge a b s = Inr (True, s') \<and> task_queues_inv s' \<and> linked_queues a b s'"
    using m by blast
next
  fix s :: "('a, 'b) task_queues" and a b
  assume inv: "task_queues_inv s" and "linked_queues a b s"
  then obtain ea where a: "queue_entries s a = Some ea" "owner_of ea = b" "b \<noteq> kUnmerged"
    by (auto simp: linked_queues_def)
  obtain eb where b: "queue_entries s (owner_of ea) = Some eb" "subsumed_by eb = a" "owner_of ea \<noteq> a"
    "subsumed_by ea = kUnmerged"
    using inv a owned_entry by metis
  obtain log where m: "Unmerge a s = Inr (True, s\<lparr>queue_entries :=
      (queue_entries s)(owner_of ea \<mapsto> eb\<lparr>subsumed_by := kUnmerged\<rparr>, a \<mapsto> ea\<lparr>owner_of := kUnmerged\<rparr>),
      wake_log := log\<rparr>)" (is "_ = Inr (True, ?s)")
    using Unmerge_success [OF inv a(1) _ b(1)] a(2,3) by metis
  have ok: "queue_links_ok (queue_entries s)" using inv a(1) by (rule task_queues_invD)
  have "a \<noteq> kUnmerged" using ok a(1) by (rule queue_links_okD)
  then have "owner_of eb = kUnmerged"
    using queue_links_okD(3) [OF ok b(1)] b(2) by metis
  then have "free_queue a ?s" "free_queue b ?s"
    using a b by (simp_all add: free_queue_def)
  moreover have "task_queues_inv ?s" using Unmerge_keeps [OF inv m] by (simp add: keeps_def)
  ultimately show "\<exists>s'. Unmerge a s = Inr (True, s') \<and> task_queues_inv s' \<and> free_queue a s' \<and> free_queue b s'"
    using m by blast
qed (auto simp: Unmerge_def Owns_def free_queue_def linked_queues_def)

section \<open>GpuThreadMerger\<close>

datatype gpu_thread_status = kRemainsMerged | kRemainsUnmerged | kUnmergedNow

record gpu_thread_merger =
  platform_queue_id :: task_queue_id
  gpu_queue_id :: task_queue_id
  lease_term :: "32 word"
  is_merged :: bool

definition kLeaseNotSet :: "32 word" where
  "kLeaseNotSet = - 1"

definition GpuThreadMerger ::
    "task_queue_id \<Rightarrow> task_queue_id \<Rightarrow> ('c, 'w) task_queues \<Rightarrow> gpu_thread_merger res" where
  "GpuThreadMerger platform gpu s =
     bind_res (Owns platform gpu s) (\<lambda>merged.
       Inr \<lparr>platform_queue_id = platform, gpu_queue_id = gpu, lease_term = kLeaseNotSet,
            is_merged = merged\<rparr>)"

text \<open>The \<^verbatim>\<open>size_t\<close> argument is narrowed to the \<^verbatim>\<open>int\<close> of the lease.\<close>

definition MergeWithLease ::
    "64 word \<Rightarrow> gpu_thread_merger \<times> ('c, 'w) task_queues \<Rightarrow>
     (gpu_thread_merger \<times> ('c, 'w) task_queues) res" where
  "MergeWithLease term x =
     (case x of (m, s) \<Rightarrow>
       bind_res (guard DCheckFailed (term > 0)) (\<lambda>_.
         if \<not> is_merged m then
           bind_res (Merge (platform_queue_id m) (gpu_queue_id m) s) (\<lambda>(merged, s').
             Inr (m\<lparr>is_merged := merged, lease_term := ucast term\<rparr>, s'))
         else Inr (m, s)))"

definition IsOnRasterizingThread :: "task_queue_id \<Rightarrow> gpu_thread_merger \<Rightarrow> bool" where
  "IsOnRasterizingThread current_queue_id m =
     (if is_merged m then current_queue_id = platform_queue_id m
      else current_queue_id = gpu_queue_id m)"

definition ExtendLeaseTo :: "64 word \<Rightarrow> gpu_thread_merger \<Rightarrow> gpu_thread_merger res" where
  "ExtendLeaseTo term m =
     bind_res (guard DCheckFailed (term > 0)) (\<lambda>_.
       Inr (if lease_term m \<noteq> kLeaseNotSet \<and> sint (ucast term :: 32 word) > sint (lease_term m)
            then m\<lparr>lease_term := ucast term\<rparr> else m))"

definition IsMerged :: "gpu_thread_merger \<Rightarrow> bool" where
  "IsMerged m = is_merged m"

definition DecrementLease ::
    "gpu_thread_merger \<times> ('c, 'w) task_queues \<Rightarrow>
     (gpu_thread_status \<times> gpu_thread_merger \<times> ('c, 'w) task_queues) res" where
  "DecrementLease x =
     (case x of (m, s) \<Rightarrow>
       if \<not> is_merged m then Inr (kRemainsUnmerged, m, s)
       else if lease_term m = kLeaseNotSet then Inr (kRemainsUnmerged, m, s)
       else
         bind_res (guard DCheckFailed (sint (lease_term m) > 0)) (\<lambda>_.
           let m1 = m\<lparr>lease_term := lease_term m - 1\<rparr> in
           if lease_term m1 = 0 then
             bind_res (Unmerge (platform_queue_id m1) s) (\<lambda>(success, s').
             bind_res (guard CheckFailed success) (\<lambda>_.
               Inr (kUnmergedNow, m1\<lparr>is_merged := False\<rparr>, s')))
           else Inr (kRemainsMerged, m1, s)))"

section \<open>Leases run out exactly on time\<close>

fun decrement_leases ::
    "nat \<Rightarrow> gpu_thread_merger \<times> ('c, 'w) task_queues \<Rightarrow>
     (gpu_thread_status list \<times> gpu_thread_merger \<times> ('c, 'w) task_queues) res" where
  "decrement_leases 0 x = Inr ([], x)"
| "decrement_leases (Suc n) x =
     bind_res (DecrementLease x) (\<lambda>(st, x').
     bind_res (decrement_leases n x') (\<lambda>(sts, x''). Inr (st # sts, x'')))"

lemma lease_word:
  assumes "0 < n" "n < 2 ^ 31"
  shows "sint (of_nat n :: 32 word) = int n" "(of_nat n :: 32 word) \<noteq> kLeaseNotSet"
    "(of_nat n :: 32 word) - 1 = of_nat (n - 1)" "(of_nat n :: 32 word) - 1 = 0 \<longleftrightarrow> n = 1"
proof -
  have u: "uint (of_nat n :: 32 word) = int n"
    using assms by (simp add: unsigned_of_nat take_bit_nat_eq_self)
  then show s: "sint (of_nat n :: 32 word) = int n"
    using assms by (simp add: sint_word32_eq)
  then show "(of_nat n :: 32 word) \<noteq> kLeaseNotSet"
    using assms by (auto simp: kLeaseNotSet_def)
  obtain k where k: "n = Suc k" using assms(1) by (cases n) auto
  then show "(of_nat n :: 32 word) - 1 = of_nat (n - 1)" by simp
  have u: "unat (of_nat k :: 32 word) = k"
    using assms(2) k by (simp add: unsigned_of_nat take_bit_nat_eq_self)
  have "k = 0" if "(of_nat k :: 32 word) = 0"
    using u unfolding that by simp
  then show "(of_nat n :: 32 word) - 1 = 0 \<longleftrightarrow> n = 1" unfolding k by auto
qed

lemma decrement_leases_run:
  assumes "0 < n" "n < 2 ^ 31" "is_merged m" "lease_term m = of_nat n"
    and "task_queues_inv s" "linked_queues (platform_queue_id m) (gpu_queue_id m) s"
  shows "\<exists>m' s'. decrement_leases n (m, s) =
      Inr (replicate (n - 1) kRemainsMerged @ [kUnmergedNow], m', s') \<and>
    \<not> is_merged m' \<and> task_queues_inv s' \<and>
    free_queue (platform_queue_id m) s' \<and> free_queue (gpu_queue_id m) s'"
  using assms
proof (induction n arbitrary: m)
  case (Suc n)
  note w = lease_word [OF Suc.prems(1,2)]
  show ?case
  proof (cases "n = 0")
    case True
    obtain s' where "Unmerge (platform_queue_id m) s = Inr (True, s')" "task_queues_inv s'"
      "free_queue (platform_queue_id m) s'" "free_queue (gpu_queue_id m) s'"
      using tq.unmerge_linked [OF Suc.prems(5,6)] by blast
    with True Suc.prems(3,4) w show ?thesis by (simp add: DecrementLease_def Let_def)
  next
    case False
    let ?m = "m\<lparr>lease_term := of_nat n\<rparr>"
    have "DecrementLease (m, s) = Inr (kRemainsMerged, ?m, s)"
      using Suc.prems(3,4) w False by (simp add: DecrementLease_def Let_def)
    moreover have "\<exists>m' s'. decrement_leases n (?m, s) =
        Inr (replicate (n - 1) kRemainsMerged @ [kUnmergedNow], m', s') \<and> \<not> is_merged m' \<and>
        task_queues_inv s' \<and> free_queue (platform_queue_id ?m) s' \<and> free_queue (gpu_queue_id ?m) s'"
      using Suc.prems False by (intro Suc.IH) auto
    moreover have "replicate n kRemainsMerged = kRemainsMerged # replicate (n - 1) kRemainsMerged"
      using False by (cases n) simp_all
    ultimately show ?thesis by auto
  qed
qed simp

text \<open>
  C7. Merging with a lease of \<open>n\<close> keeps the threads merged for exactly \<open>n\<close> calls of
  \<^verbatim>\<open>DecrementLease\<close>: the first \<open>n - 1\<close> report \<open>kRemainsMerged\<close>, the \<open>n\<close>-th reports
  \<open>kUnmergedNow\<close>, no check fails, and the platform and GPU queues are free again afterwards.
\<close>

theorem lease_expires_after_n_frames:
  assumes "task_queues_reachable s" "\<not> is_merged m" "platform_queue_id m \<noteq> gpu_queue_id m"
    and "free_queue (platform_queue_id m) s" "free_queue (gpu_queue_id m) s" "0 < n" "n < 2 ^ 31"
  shows "\<exists>m1 s1 m2 s2. MergeWithLease (of_nat n) (m, s) = Inr (m1, s1) \<and> is_merged m1 \<and>
    Owns (platform_queue_id m) (gpu_queue_id m) s1 = Inr True \<and>
    decrement_leases n (m1, s1) =
      Inr (replicate (n - 1) kRemainsMerged @ [kUnmergedNow], m2, s2) \<and>
    \<not> is_merged m2 \<and> free_queue (platform_queue_id m) s2 \<and> free_queue (gpu_queue_id m) s2"
proof -
  have inv: "task_queues_inv s" using assms(1) by (blast dest: task_queues_reachable_ok)
  obtain s1 where s1: "Merge (platform_queue_id m) (gpu_queue_id m) s = Inr (True, s1)"
    "task_queues_inv s1" "linked_queues (platform_queue_id m) (gpu_queue_id m) s1"
    using tq.merge_free [OF inv assms(3-5)] by blast
  let ?m1 = "m\<lparr>is_merged := True, lease_term := of_nat n\<rparr>"
  have u: "unat (of_nat n :: 64 word) = n"
    using assms(7) by (simp add: unsigned_of_nat take_bit_nat_eq_self)
  then have "(of_nat n :: 64 word) > 0" using assms(6) by (simp add: word_less_nat_alt)
  moreover have "(ucast (of_nat n :: 64 word) :: 32 word) = of_nat n"
    by (rule bit_word_eqI) (simp add: bit_simps)
  ultimately have "MergeWithLease (of_nat n) (m, s) = Inr (?m1, s1)"
    using assms(2) s1(1) by (simp add: MergeWithLease_def)
  moreover have "\<exists>m' s'. decrement_leases n (?m1, s1) =
      Inr (replicate (n - 1) kRemainsMerged @ [kUnmergedNow], m', s') \<and> \<not> is_merged m' \<and>
      task_queues_inv s' \<and> free_queue (platform_queue_id ?m1) s' \<and> free_queue (gpu_queue_id ?m1) s'"
    using assms(6,7) s1(2,3) by (intro decrement_leases_run) auto
  ultimately show ?thesis using tq.owns_linked [OF s1(2,3)] by auto
qed

definition demo_merger :: gpu_thread_merger where
  "demo_merger = \<lparr>platform_queue_id = 0, gpu_queue_id = 1, lease_term = kLeaseNotSet, is_merged = False\<rparr>"

theorem lease_expires_after_n_frames_witness:
  "\<exists>m1 s1 m2 s2. MergeWithLease (of_nat 3) (demo_merger, demo_two_queues) = Inr (m1, s1) \<and>
     decrement_leases 3 (m1, s1) = Inr ([kRemainsMerged, kRemainsMerged, kUnmergedNow], m2, s2)"
proof -
  have "replicate (3 - 1) kRemainsMerged @ [kUnmergedNow] = [kRemainsMerged, kRemainsMerged, kUnmergedNow]"
    by (simp add: numeral_2_eq_2)
  moreover have "free_queue (platform_queue_id demo_merger) demo_two_queues"
    "free_queue (gpu_queue_id demo_merger) demo_two_queues"
    by (simp_all add: demo_merger_def free_queue_def)
  moreover have "\<not> is_merged demo_merger" "platform_queue_id demo_merger \<noteq> gpu_queue_id demo_merger"
    by (simp_all add: demo_merger_def)
  ultimately show ?thesis
    using lease_expires_after_n_frames [OF demo_two_queues_reachable, of demo_merger 3] by auto
qed

text \<open>
  C11. A merger constructed over queues that are already merged never gets a lease: merging with a
  lease and extending it change nothing, and every \<^verbatim>\<open>DecrementLease\<close> answers
  \<open>kRemainsUnmerged\<close> although the threads are, and stay, merged.
\<close>

theorem merged_at_construction_is_never_released:
  assumes "linked_queues platform gpu s" "task_queues_reachable s"
  shows "\<exists>m. GpuThreadMerger platform gpu s = Inr m \<and> IsMerged m \<and>
    (\<forall>term. term > 0 \<longrightarrow> MergeWithLease term (m, s) = Inr (m, s) \<and> ExtendLeaseTo term m = Inr m) \<and>
    DecrementLease (m, s) = Inr (kRemainsUnmerged, m, s)"
proof -
  have inv: "task_queues_inv s" using assms(2) by (blast dest: task_queues_reachable_ok)
  show ?thesis
    using tq.owns_linked [OF inv assms(1)]
    by (simp add: GpuThreadMerger_def IsMerged_def MergeWithLease_def ExtendLeaseTo_def DecrementLease_def)
qed

theorem merged_at_construction_is_never_released_witness:
  "\<exists>m. GpuThreadMerger 0 1 demo_merged = Inr m \<and> IsMerged m \<and>
     DecrementLease (m, demo_merged) = Inr (kRemainsUnmerged, m, demo_merged)"
  using merged_at_construction_is_never_released [OF _ demo_merged_reachable, of 0 1]
  by (auto simp: linked_queues_def kUnmerged_eq)

end
