(* ===== verification/Byte_Stream.thy ===== *)
theory Byte_Stream
  imports Prelude
begin

text \<open>
  \<^verbatim>\<open>shell/platform/common/cpp/client_wrapper/byte_stream_wrappers.h\<close>: the reader and the writer
  the standard codec works on. The reader is the wrapped buffer with a read location, the writer is
  the buffer itself. \<^verbatim>\<open>size_t\<close> is unbounded here: a location is at most a few bytes beyond the
  end of a buffer in memory and a length below \<open>2 ^ 36\<close>, so their sum does not wrap in 64 bits.
\<close>

type_synonym byte = "8 word"

section \<open>Integers in memory\<close>

text \<open>A \<^verbatim>\<open>memcpy\<close> between an integer and bytes, on a little-endian machine.\<close>

fun le_bytes :: "nat \<Rightarrow> 'a::len word \<Rightarrow> byte list" where
  "le_bytes 0 w = []"
| "le_bytes (Suc n) w = ucast w # le_bytes n (drop_bit 8 w)"

fun of_le_bytes :: "byte list \<Rightarrow> 'a::len word" where
  "of_le_bytes [] = 0"
| "of_le_bytes (b # bs) = ucast b + push_bit 8 (of_le_bytes bs)"

lemma length_le_bytes [simp]: "length (le_bytes n w) = n"
  by (induction n w rule: le_bytes.induct) simp_all

lemma of_le_bytes_le_bytes_take:
  "of_le_bytes (le_bytes n (w :: 'a::len word)) = (take_bit (8 * n) w :: 'a word)"
proof (induction n arbitrary: w)
  case 0
  show ?case by simp
next
  case (Suc n)
  have "of_le_bytes (le_bytes (Suc n) w) = ucast (ucast w :: 8 word) + push_bit 8 (take_bit (8 * n) (drop_bit 8 w))"
    by (simp add: Suc.IH)
  also have "\<dots> = or (ucast (ucast w :: 8 word)) (push_bit 8 (take_bit (8 * n) (drop_bit 8 w)))"
    by (rule disjunctive_add) (auto simp: bit_simps)
  also have "\<dots> = take_bit (8 * Suc n) w"
    by (rule bit_word_eqI) (auto simp: bit_simps)
  finally show ?case .
qed

lemma of_le_bytes_le_bytes:
  assumes "LENGTH('a) \<le> 8 * n"
  shows "of_le_bytes (le_bytes n (w :: 'a::len word)) = w"
proof -
  have "take_bit (8 * n) w = w"
    using assms by (intro bit_word_eqI) (auto simp: bit_simps dest: bit_imp_le_length)
  then show ?thesis by (simp add: of_le_bytes_le_bytes_take)
qed

text \<open>The elements of a vector of \<open>'a word\<close> in memory, one after the other.\<close>

definition vector_bytes :: "'a::len word list \<Rightarrow> byte list" where
  "vector_bytes xs = concat (map (le_bytes (LENGTH('a) div 8)) xs)"

fun vector_of_bytes :: "nat \<Rightarrow> byte list \<Rightarrow> 'a::len word list" where
  "vector_of_bytes 0 bs = []"
| "vector_of_bytes (Suc n) bs =
     of_le_bytes (take (LENGTH('a) div 8) bs) # vector_of_bytes n (drop (LENGTH('a) div 8) bs)"

lemma vector_of_bytes_vector_bytes:
  fixes xs :: "'a::len word list"
  assumes "LENGTH('a) \<le> 8 * (LENGTH('a) div 8)"
  shows "vector_of_bytes (length xs) (vector_bytes xs) = xs"
  using assms by (induction xs) (simp_all add: vector_bytes_def of_le_bytes_le_bytes)

lemma length_vector_bytes: "length (vector_bytes (xs :: 'a::len word list)) = length xs * (LENGTH('a) div 8)"
  by (induction xs) (simp_all add: vector_bytes_def)

section \<open>ByteBufferStreamReader\<close>

record stream_reader =
  sr_bytes :: "byte list"
  sr_location :: nat

definition ByteBufferStreamReader :: "byte list \<Rightarrow> stream_reader" where
  "ByteBufferStreamReader bytes = \<lparr>sr_bytes = bytes, sr_location = 0\<rparr>"

definition ReadByte :: "stream_reader \<Rightarrow> byte \<times> stream_reader" where
  "ReadByte r =
     (if sr_location r \<ge> length (sr_bytes r) then (0, r)
      else (sr_bytes r ! sr_location r, r\<lparr>sr_location := sr_location r + 1\<rparr>))"

text \<open>\<open>None\<close>: the read is invalid and the caller's buffer keeps what it held.\<close>

definition ReadBytes :: "nat \<Rightarrow> stream_reader \<Rightarrow> byte list option \<times> stream_reader" where
  "ReadBytes n r =
     (if sr_location r + n > length (sr_bytes r) then (None, r)
      else (Some (take n (drop (sr_location r) (sr_bytes r))),
            r\<lparr>sr_location := sr_location r + n\<rparr>))"

definition ReadAlignment :: "nat \<Rightarrow> stream_reader \<Rightarrow> stream_reader" where
  "ReadAlignment alignment r =
     (let m = sr_location r mod alignment in
      if m \<noteq> 0 then r\<lparr>sr_location := sr_location r + (alignment - m)\<rparr> else r)"

section \<open>ByteBufferStreamWriter\<close>

definition WriteByte :: "byte \<Rightarrow> byte list \<Rightarrow> byte list" where
  "WriteByte b s = s @ [b]"

definition WriteBytes :: "byte list \<Rightarrow> byte list \<Rightarrow> byte list res" where
  "WriteBytes bs s = bind_res (guard AssertFailed (length bs > 0)) (\<lambda>_. Inr (s @ bs))"

definition WriteAlignment :: "nat \<Rightarrow> byte list \<Rightarrow> byte list" where
  "WriteAlignment alignment s =
     (let m = length s mod alignment in
      if m \<noteq> 0 then ((WriteByte 0) ^^ (alignment - m)) s else s)"

section \<open>Reading what was written\<close>

text \<open>\<open>padding a n\<close>: how far a position \<open>n\<close> is from the next multiple of \<open>a\<close>.\<close>

definition padding :: "nat \<Rightarrow> nat \<Rightarrow> nat" where
  "padding a n = (if n mod a = 0 then 0 else a - n mod a)"

lemma WriteByte_power: "((WriteByte b) ^^ n) s = s @ replicate n b"
  by (induction n) (simp_all add: WriteByte_def replicate_append_same)

lemma WriteAlignment_eq: "WriteAlignment a s = s @ replicate (padding a (length s)) 0"
  by (simp add: WriteAlignment_def padding_def WriteByte_power Let_def)

text \<open>\<open>at_bytes r bs\<close>: the bytes \<open>bs\<close> follow the position of the reader.\<close>

definition at_bytes :: "stream_reader \<Rightarrow> byte list \<Rightarrow> bool" where
  "at_bytes r bs \<longleftrightarrow> take (length bs) (drop (sr_location r) (sr_bytes r)) = bs \<and>
     sr_location r + length bs \<le> length (sr_bytes r)"

definition advance :: "nat \<Rightarrow> stream_reader \<Rightarrow> stream_reader" where
  "advance n r = r\<lparr>sr_location := sr_location r + n\<rparr>"

lemma advance_simps [simp]:
  "sr_bytes (advance n r) = sr_bytes r" "sr_location (advance n r) = sr_location r + n"
  "advance 0 r = r" "advance m (advance n r) = advance (n + m) r"
  by (simp_all add: advance_def algebra_simps)

lemma at_bytes_append [simp]:
  "at_bytes r (xs @ ys) \<longleftrightarrow> at_bytes r xs \<and> at_bytes (advance (length xs) r) ys"
proof -
  let ?d = "drop (sr_location r) (sr_bytes r)"
  have split: "take (length (xs @ ys)) ?d = take (length xs) ?d @ take (length ys) (drop (length xs) ?d)"
    by (simp only: length_append take_add)
  have "take (length (xs @ ys)) ?d = xs @ ys \<longleftrightarrow>
      take (length xs) ?d = xs \<and> take (length ys) (drop (length xs) ?d) = ys"
    if "sr_location r + length (xs @ ys) \<le> length (sr_bytes r)"
    using that unfolding split by (subst append_eq_append_conv) auto
  then show ?thesis by (auto simp: at_bytes_def add.assoc add.commute [of "sr_location r" "length xs"])
qed

lemma at_bytes_Nil: "at_bytes r [] \<longleftrightarrow> sr_location r \<le> length (sr_bytes r)"
  by (simp add: at_bytes_def)

lemma at_bytes_Cons:
  "at_bytes r (x # xs) \<longleftrightarrow> at_bytes r [x] \<and> at_bytes (advance 1 r) xs"
  using at_bytes_append [of r "[x]" xs] by simp

lemma at_bytes_Cons_ne [simp]:
  "xs \<noteq> [] \<Longrightarrow> at_bytes r (x # xs) \<longleftrightarrow> at_bytes r [x] \<and> at_bytes (advance 1 r) xs"
  by (rule at_bytes_Cons)

lemma ReadByte_at [simp]: "at_bytes r [b] \<Longrightarrow> ReadByte r = (b, advance 1 r)"
  by (auto simp: at_bytes_def ReadByte_def advance_def take_Suc_conv_app_nth hd_drop_conv_nth
      take_Suc)

lemma ReadBytes_at: "at_bytes r bs \<Longrightarrow> n = length bs \<Longrightarrow> ReadBytes n r = (Some bs, advance n r)"
  by (simp add: at_bytes_def ReadBytes_def advance_def)

lemma ReadAlignment_eq: "ReadAlignment a r = advance (padding a (sr_location r)) r"
  by (simp add: ReadAlignment_def padding_def advance_def Let_def)

text \<open>Reading never moves backwards and never changes the buffer.\<close>

definition reads :: "stream_reader \<Rightarrow> stream_reader \<Rightarrow> bool" where
  "reads r r' \<longleftrightarrow> sr_bytes r' = sr_bytes r \<and> sr_location r \<le> sr_location r'"

lemma reads_refl [simp]: "reads r r"
  by (simp add: reads_def)

lemma reads_trans [trans]: "reads r s \<Longrightarrow> reads s t \<Longrightarrow> reads r t"
  by (auto simp: reads_def)

lemma reads_advance [simp]: "reads r (advance n r)"
  by (simp add: reads_def)

lemma reads_ReadByte: "ReadByte r = (b, r') \<Longrightarrow> reads r r'"
  by (auto simp: ReadByte_def reads_def split: if_splits)

lemma reads_ReadBytes: "ReadBytes n r = (x, r') \<Longrightarrow> reads r r'"
  by (auto simp: ReadBytes_def reads_def split: if_splits)

end
