(* ===== verification/Doubles.thy ===== *)
theory Doubles
  imports Prelude
begin

text \<open>
  The C++ type \<^verbatim>\<open>double\<close> as its IEEE 754 binary64 bit pattern, with the comparisons and the
  arithmetic the engine uses. A finite double is an integer multiple of \<open>2 ^ -1074\<close>; \<open>double_units\<close> is
  that integer, so an operation is exact integer arithmetic followed by one rounding to nearest, ties to
  even. The payload of a NaN result is not specified; one quiet NaN stands for all of them.
\<close>

type_synonym double = "64 word"

section \<open>Order\<close>

definition double_magnitude :: "double \<Rightarrow> int" where
  "double_magnitude d = uint d mod 2 ^ 63"

definition double_nan :: "double \<Rightarrow> bool" where
  "double_nan d \<longleftrightarrow> double_magnitude d > 0x7FF0000000000000"

definition double_negative :: "double \<Rightarrow> bool" where
  "double_negative d \<longleftrightarrow> uint d \<ge> 2 ^ 63"

text \<open>Sign and magnitude; both zeros have rank 0.\<close>

definition double_rank :: "double \<Rightarrow> int" where
  "double_rank d = (if double_negative d then - double_magnitude d else double_magnitude d)"

definition double_less :: "double \<Rightarrow> double \<Rightarrow> bool" where
  "double_less a b \<longleftrightarrow> \<not> double_nan a \<and> \<not> double_nan b \<and> double_rank a < double_rank b"

definition double_eq :: "double \<Rightarrow> double \<Rightarrow> bool" where
  "double_eq a b \<longleftrightarrow> \<not> double_nan a \<and> \<not> double_nan b \<and> double_rank a = double_rank b"

section \<open>Subtraction\<close>

definition double_infinite :: "double \<Rightarrow> bool" where
  "double_infinite d \<longleftrightarrow> double_magnitude d = 0x7FF0000000000000"

definition double_units :: "double \<Rightarrow> int" where
  "double_units d =
     (let e = double_magnitude d div 2 ^ 52; f = double_magnitude d mod 2 ^ 52;
          m = (if e = 0 then f else (2 ^ 52 + f) * 2 ^ nat (e - 1)) in
      if double_negative d then - m else m)"

fun bit_count :: "int \<Rightarrow> nat" where
  "bit_count n = (if n \<le> 0 then 0 else Suc (bit_count (n div 2)))"

declare bit_count.simps [simp del]

definition round_magnitude :: "int \<Rightarrow> int" where
  "round_magnitude m =
     (let e = bit_count m - 53; q = m div 2 ^ e; r = m mod 2 ^ e;
          up = (2 * r > 2 ^ e \<or> 2 * r = 2 ^ e \<and> odd q) in
      min (int e * 2 ^ 52 + (if up then q + 1 else q)) 0x7FF0000000000000)"

definition double_of_units :: "int \<Rightarrow> double" where
  "double_of_units n =
     word_of_int ((if n < 0 then 2 ^ 63 else 0) + round_magnitude \<bar>n\<bar>)"

definition quiet_nan :: double where
  "quiet_nan = 0x7FF8000000000000"

definition double_neg :: "double \<Rightarrow> double" where
  "double_neg d = d + 0x8000000000000000"

definition double_minus :: "double \<Rightarrow> double \<Rightarrow> double" where
  "double_minus a b =
     (if double_nan a \<or> double_nan b then quiet_nan
      else if double_infinite a then
        (if double_infinite b \<and> double_negative a = double_negative b then quiet_nan else a)
      else if double_infinite b then double_neg b
      else
        let n = double_units a - double_units b in
        if n = 0 then
          (if double_negative a \<and> double_magnitude a = 0 \<and> \<not> double_negative b
           then 0x8000000000000000 else 0)
        else double_of_units n)"

section \<open>Multiplication, division and conversion\<close>

text \<open>The magnitude of the double nearest to \<open>p / q\<close> units.\<close>

definition round_quotient :: "int \<Rightarrow> int \<Rightarrow> int" where
  "round_quotient p q =
     (let e = bit_count (p div q) - 53; u = q * 2 ^ e; m = p div u; r = p mod u;
          up = (2 * r > u \<or> 2 * r = u \<and> odd m) in
      min (int e * 2 ^ 52 + (if up then m + 1 else m)) 0x7FF0000000000000)"

definition double_signed :: "bool \<Rightarrow> int \<Rightarrow> double" where
  "double_signed negative magnitude = word_of_int ((if negative then 2 ^ 63 else 0) + magnitude)"

definition double_times :: "double \<Rightarrow> double \<Rightarrow> double" where
  "double_times a b =
     (let negative = (double_negative a \<noteq> double_negative b) in
      if double_nan a \<or> double_nan b then quiet_nan
      else if double_infinite a \<or> double_infinite b then
        (if double_magnitude a = 0 \<or> double_magnitude b = 0 then quiet_nan
         else double_signed negative 0x7FF0000000000000)
      else double_signed negative (round_quotient \<bar>double_units a * double_units b\<bar> (2 ^ 1074)))"

definition double_divide :: "double \<Rightarrow> double \<Rightarrow> double" where
  "double_divide a b =
     (let negative = (double_negative a \<noteq> double_negative b) in
      if double_nan a \<or> double_nan b then quiet_nan
      else if double_infinite a \<and> double_infinite b \<or> double_magnitude a = 0 \<and> double_magnitude b = 0
      then quiet_nan
      else if double_infinite a \<or> double_magnitude b = 0 then double_signed negative 0x7FF0000000000000
      else if double_infinite b then double_signed negative 0
      else double_signed negative (round_quotient (\<bar>double_units a\<bar> * 2 ^ 1074) \<bar>double_units b\<bar>))"

definition double_of_int :: "int \<Rightarrow> double" where
  "double_of_int n = double_signed (n < 0) (round_quotient (\<bar>n\<bar> * 2 ^ 1074) 1)"

text \<open>\<^verbatim>\<open>std::max\<close>\<close>

definition double_max :: "double \<Rightarrow> double \<Rightarrow> double" where
  "double_max a b = (if double_less a b then b else a)"

section \<open>Facts\<close>

lemma double_eq_sym: "double_eq a b \<Longrightarrow> double_eq b a"
  by (simp add: double_eq_def)

lemma double_eq_refl: "double_eq a a \<longleftrightarrow> \<not> double_nan a"
  by (simp add: double_eq_def)

text \<open>A finite double minus itself is zero.\<close>

lemma double_minus_self:
  "\<not> double_nan a \<Longrightarrow> \<not> double_infinite a \<Longrightarrow> double_minus a a = 0"
  by (simp add: double_minus_def)

lemma bit_count_below: "n < 2 ^ k \<Longrightarrow> bit_count n \<le> k"
proof (induction n arbitrary: k rule: bit_count.induct)
  case (1 n)
  show ?case
  proof (cases "n \<le> 0")
    case True
    then show ?thesis by (simp add: bit_count.simps)
  next
    case False
    with 1(2) obtain j where j: "k = Suc j" by (cases k) auto
    with 1(2) have "n div 2 < 2 ^ j" by auto
    with 1(1) False have "bit_count (n div 2) \<le> j" by blast
    with False j show ?thesis by (simp add: bit_count.simps [of n])
  qed
qed

text \<open>Magnitudes that fit the significand are not rounded.\<close>

lemma round_quotient_one: "round_quotient m 1 = round_magnitude m"
  unfolding round_quotient_def round_magnitude_def by (simp add: Let_def)

lemma round_magnitude_small: "0 \<le> m \<Longrightarrow> m < 2 ^ 53 \<Longrightarrow> round_magnitude m = m"
  using bit_count_below [of m 53] by (simp add: round_magnitude_def)

end
