(* ===== verification/Encodable_Value.thy ===== *)
theory Encodable_Value
  imports Byte_Stream Doubles
begin

text \<open>
  \<^verbatim>\<open>shell/platform/common/cpp/client_wrapper/include/flutter/encodable_value.h\<close>: the values the
  standard codec transports. A double is its 64-bit pattern; a string is its bytes; a map is the
  list of its entries in iteration order. Boxes are owned by exactly one value and copied deeply, so
  a value stands for itself and copies and moves need no definitions.
\<close>

section \<open>Values\<close>

datatype encodable_type =
    kNull | kBool | kInt | kLong | kDouble | kString | kByteList | kIntList | kLongList
  | kDoubleList | kList | kMap

fun type_index :: "encodable_type \<Rightarrow> nat" where
  "type_index kNull = 0" | "type_index kBool = 1" | "type_index kInt = 2" | "type_index kLong = 3"
| "type_index kDouble = 4" | "type_index kString = 5" | "type_index kByteList = 6"
| "type_index kIntList = 7" | "type_index kLongList = 8" | "type_index kDoubleList = 9"
| "type_index kList = 10" | "type_index kMap = 11"

lemma type_index_inject [simp]: "type_index a = type_index b \<longleftrightarrow> a = b"
  by (cases a; cases b) simp_all

instantiation encodable_type :: linorder
begin

definition less_eq_encodable_type :: "encodable_type \<Rightarrow> encodable_type \<Rightarrow> bool" where
  "a \<le> b \<longleftrightarrow> type_index a \<le> type_index b"

definition less_encodable_type :: "encodable_type \<Rightarrow> encodable_type \<Rightarrow> bool" where
  "a < b \<longleftrightarrow> type_index a < type_index b"

instance
  by standard (auto simp: less_eq_encodable_type_def less_encodable_type_def)

end

datatype encodable_value =
    VNull
  | VBool bool
  | VInt "32 word"
  | VLong "64 word"
  | VDouble double
  | VString "byte list"
  | VByteList "byte list"
  | VIntList "32 word list"
  | VLongList "64 word list"
  | VDoubleList "double list"
  | VList "encodable_value list"
  | VMap "(encodable_value \<times> encodable_value) list"

fun value_type :: "encodable_value \<Rightarrow> encodable_type" where
  "value_type VNull = kNull"
| "value_type (VBool _) = kBool"
| "value_type (VInt _) = kInt"
| "value_type (VLong _) = kLong"
| "value_type (VDouble _) = kDouble"
| "value_type (VString _) = kString"
| "value_type (VByteList _) = kByteList"
| "value_type (VIntList _) = kIntList"
| "value_type (VLongList _) = kLongList"
| "value_type (VDoubleList _) = kDoubleList"
| "value_type (VList _) = kList"
| "value_type (VMap _) = kMap"

text \<open>\<^verbatim>\<open>EncodableValue(Type)\<close>\<close>

fun EncodableValue :: "encodable_type \<Rightarrow> encodable_value" where
  "EncodableValue kNull = VNull"
| "EncodableValue kBool = VBool False"
| "EncodableValue kInt = VInt 0"
| "EncodableValue kLong = VLong 0"
| "EncodableValue kDouble = VDouble 0"
| "EncodableValue kString = VString []"
| "EncodableValue kByteList = VByteList []"
| "EncodableValue kIntList = VIntList []"
| "EncodableValue kLongList = VLongList []"
| "EncodableValue kDoubleList = VDoubleList []"
| "EncodableValue kList = VList []"
| "EncodableValue kMap = VMap []"

lemma value_type_EncodableValue [simp]: "value_type (EncodableValue t) = t"
  by (cases t) simp_all

text \<open>Calling an accessor on a value of another type is an \<^verbatim>\<open>assert\<close> failure.\<close>

definition BoolValue :: "encodable_value \<Rightarrow> bool res" where
  "BoolValue v = (case v of VBool b \<Rightarrow> Inr b | _ \<Rightarrow> Inl AssertFailed)"

definition IntValue :: "encodable_value \<Rightarrow> 32 word res" where
  "IntValue v = (case v of VInt i \<Rightarrow> Inr i | _ \<Rightarrow> Inl AssertFailed)"

definition LongValue :: "encodable_value \<Rightarrow> 64 word res" where
  "LongValue v = (case v of VLong l \<Rightarrow> Inr l | VInt i \<Rightarrow> Inr (scast i) | _ \<Rightarrow> Inl AssertFailed)"

definition DoubleValue :: "encodable_value \<Rightarrow> double res" where
  "DoubleValue v = (case v of VDouble d \<Rightarrow> Inr d | _ \<Rightarrow> Inl AssertFailed)"

definition StringValue :: "encodable_value \<Rightarrow> byte list res" where
  "StringValue v = (case v of VString s \<Rightarrow> Inr s | _ \<Rightarrow> Inl AssertFailed)"

definition ByteListValue :: "encodable_value \<Rightarrow> byte list res" where
  "ByteListValue v = (case v of VByteList l \<Rightarrow> Inr l | _ \<Rightarrow> Inl AssertFailed)"

definition IntListValue :: "encodable_value \<Rightarrow> 32 word list res" where
  "IntListValue v = (case v of VIntList l \<Rightarrow> Inr l | _ \<Rightarrow> Inl AssertFailed)"

definition LongListValue :: "encodable_value \<Rightarrow> 64 word list res" where
  "LongListValue v = (case v of VLongList l \<Rightarrow> Inr l | _ \<Rightarrow> Inl AssertFailed)"

definition DoubleListValue :: "encodable_value \<Rightarrow> double list res" where
  "DoubleListValue v = (case v of VDoubleList l \<Rightarrow> Inr l | _ \<Rightarrow> Inl AssertFailed)"

definition ListValue :: "encodable_value \<Rightarrow> encodable_value list res" where
  "ListValue v = (case v of VList l \<Rightarrow> Inr l | _ \<Rightarrow> Inl AssertFailed)"

definition MapValue :: "encodable_value \<Rightarrow> (encodable_value \<times> encodable_value) list res" where
  "MapValue v = (case v of VMap m \<Rightarrow> Inr m | _ \<Rightarrow> Inl AssertFailed)"

definition IsNull :: "encodable_value \<Rightarrow> bool" where
  "IsNull v \<longleftrightarrow> value_type v = kNull"

definition IsBool :: "encodable_value \<Rightarrow> bool" where
  "IsBool v \<longleftrightarrow> value_type v = kBool"

definition IsInt :: "encodable_value \<Rightarrow> bool" where
  "IsInt v \<longleftrightarrow> value_type v = kInt"

definition IsLong :: "encodable_value \<Rightarrow> bool" where
  "IsLong v \<longleftrightarrow> value_type v = kLong"

definition IsDouble :: "encodable_value \<Rightarrow> bool" where
  "IsDouble v \<longleftrightarrow> value_type v = kDouble"

definition IsString :: "encodable_value \<Rightarrow> bool" where
  "IsString v \<longleftrightarrow> value_type v = kString"

definition IsByteList :: "encodable_value \<Rightarrow> bool" where
  "IsByteList v \<longleftrightarrow> value_type v = kByteList"

definition IsIntList :: "encodable_value \<Rightarrow> bool" where
  "IsIntList v \<longleftrightarrow> value_type v = kIntList"

definition IsLongList :: "encodable_value \<Rightarrow> bool" where
  "IsLongList v \<longleftrightarrow> value_type v = kLongList"

definition IsDoubleList :: "encodable_value \<Rightarrow> bool" where
  "IsDoubleList v \<longleftrightarrow> value_type v = kDoubleList"

definition IsList :: "encodable_value \<Rightarrow> bool" where
  "IsList v \<longleftrightarrow> value_type v = kList"

definition IsMap :: "encodable_value \<Rightarrow> bool" where
  "IsMap v \<longleftrightarrow> value_type v = kMap"

section \<open>The key order\<close>

text \<open>
  \<^verbatim>\<open>std::string\<close> compares bytes as unsigned characters. Values of the collection types compare by
  the address of the value, so the order is on pairs of an address and a value.
\<close>

fun string_less :: "byte list \<Rightarrow> byte list \<Rightarrow> bool" where
  "string_less xs [] = False"
| "string_less [] (y # ys) = True"
| "string_less (x # xs) (y # ys) = (x < y \<or> x = y \<and> string_less xs ys)"

definition value_less :: "nat \<times> encodable_value \<Rightarrow> nat \<times> encodable_value \<Rightarrow> bool" where
  "value_less this other =
     (case (this, other) of ((p, a), (q, b)) \<Rightarrow>
       if value_type a \<noteq> value_type b then value_type a < value_type b
       else (case (a, b) of
         (VNull, VNull) \<Rightarrow> False
       | (VBool x, VBool y) \<Rightarrow> x < y
       | (VInt x, VInt y) \<Rightarrow> sint x < sint y
       | (VLong x, VLong y) \<Rightarrow> sint x < sint y
       | (VDouble x, VDouble y) \<Rightarrow> double_less x y
       | (VString x, VString y) \<Rightarrow> string_less x y
       | _ \<Rightarrow> p < q))"

lemma string_less_irrefl [simp]: "\<not> string_less xs xs"
  by (induction xs) simp_all

lemma string_less_trans: "string_less xs ys \<Longrightarrow> string_less ys zs \<Longrightarrow> string_less xs zs"
proof (induction xs ys arbitrary: zs rule: string_less.induct)
  case (2 y ys)
  then show ?case by (cases zs) simp_all
next
  case (3 x xs y ys)
  then show ?case by (cases zs) auto
qed simp

lemma string_less_linear: "string_less xs ys \<or> xs = ys \<or> string_less ys xs"
proof (induction xs ys rule: string_less.induct)
  case (1 xs)
  then show ?case by (cases xs) simp_all
next
  case (3 x xs y ys)
  then show ?case by auto
qed simp

lemma string_less_equiv: "\<not> string_less xs ys \<Longrightarrow> \<not> string_less ys xs \<Longrightarrow> xs = ys"
  using string_less_linear by blast

text \<open>A key that compares with every other key: anything but a NaN.\<close>

fun key_ordered :: "encodable_value \<Rightarrow> bool" where
  "key_ordered (VDouble d) \<longleftrightarrow> \<not> double_nan d"
| "key_ordered _ \<longleftrightarrow> True"

text \<open>The scalar types compare by value; every other type compares by address.\<close>

definition scalar_key :: "encodable_value \<Rightarrow> bool" where
  "scalar_key v \<longleftrightarrow> value_type v \<in> {kNull, kBool, kInt, kLong, kDouble, kString}"

lemma scalar_key_simps [simp]:
  "scalar_key VNull" "scalar_key (VBool b)" "scalar_key (VInt i)" "scalar_key (VLong l)"
  "scalar_key (VDouble d)" "scalar_key (VString str)"
  by (simp_all add: scalar_key_def)

text \<open>Comparing two values of the same type, type by type.\<close>

lemma same_type_cases [consumes 1]:
  assumes "value_type a = value_type b"
  obtains (null) "a = VNull" "b = VNull"
  | (bool) x y where "a = VBool x" "b = VBool y"
  | (int) x y where "a = VInt x" "b = VInt y"
  | (long) x y where "a = VLong x" "b = VLong y"
  | (double) x y where "a = VDouble x" "b = VDouble y"
  | (string) x y where "a = VString x" "b = VString y"
  | (collection) "\<not> scalar_key a" "\<not> scalar_key b"
  using assms by (cases a; cases b) (simp_all add: scalar_key_def)

lemma value_less_same [simp]:
  "\<not> value_less (p, VNull) (q, VNull)"
  "value_less (p, VBool x1) (q, VBool y1) \<longleftrightarrow> x1 < y1"
  "value_less (p, VInt x2) (q, VInt y2) \<longleftrightarrow> sint x2 < sint y2"
  "value_less (p, VLong x3) (q, VLong y3) \<longleftrightarrow> sint x3 < sint y3"
  "value_less (p, VDouble x4) (q, VDouble y4) \<longleftrightarrow> double_less x4 y4"
  "value_less (p, VString x5) (q, VString y5) \<longleftrightarrow> string_less x5 y5"
  by (simp_all add: value_less_def)

lemma value_less_collection [simp]:
  "\<not> scalar_key a \<Longrightarrow> value_type a = value_type b \<Longrightarrow> value_less (p, a) (q, b) \<longleftrightarrow> p < q"
  by (cases a) (simp_all add: value_less_def scalar_key_def)

lemma value_less_diff: "value_type a \<noteq> value_type b \<Longrightarrow> value_less (p, a) (q, b) \<longleftrightarrow> value_type a < value_type b"
  by (simp add: value_less_def)

lemma value_less_irrefl: "\<not> value_less x x"
proof (cases x)
  case (Pair p a)
  have "value_type a = value_type a" ..
  then show ?thesis by (cases rule: same_type_cases) (simp_all add: Pair double_less_def)
qed

lemma value_less_type: "value_less (p, a) (q, b) \<Longrightarrow> value_type a \<le> value_type b"
  by (cases "value_type a = value_type b") (simp_all add: value_less_diff)

lemma value_less_trans:
  assumes "value_less (p, a) (q, b)" "value_less (q, b) (r, c)"
  shows "value_less (p, a) (r, c)"
proof (cases "value_type a = value_type b \<and> value_type b = value_type c")
  case True
  then have ab: "value_type a = value_type b" and ac: "value_type a = value_type c" by simp_all
  from ab show ?thesis
    by (cases rule: same_type_cases; use ab ac assms in \<open>cases c\<close>)
      (auto simp: double_less_def intro: string_less_trans)
next
  case False
  have "value_type a \<le> value_type b" "value_type b \<le> value_type c"
    using assms by (auto dest: value_less_type)
  with False have "value_type a < value_type c"
    by (metis order.not_eq_order_implies_strict order.trans order.antisym)
  then show ?thesis by (simp add: value_less_diff)
qed

definition equiv_keys :: "nat \<times> encodable_value \<Rightarrow> nat \<times> encodable_value \<Rightarrow> bool" where
  "equiv_keys x y \<longleftrightarrow> \<not> value_less x y \<and> \<not> value_less y x"

lemma equiv_keys_type: "equiv_keys (p, a) (q, b) \<Longrightarrow> value_type a = value_type b"
  by (rule ccontr) (auto simp: equiv_keys_def value_less_diff)

text \<open>What equivalence of two ordered keys amounts to.\<close>

definition same_key :: "nat \<times> encodable_value \<Rightarrow> nat \<times> encodable_value \<Rightarrow> bool" where
  "same_key x y \<longleftrightarrow> value_type (snd x) = value_type (snd y) \<and>
     (if scalar_key (snd x)
      then snd x = snd y \<or> (\<exists>d e. snd x = VDouble d \<and> snd y = VDouble e \<and> double_eq d e)
      else fst x = fst y)"

lemma equiv_keys_iff:
  assumes "key_ordered a" "key_ordered b"
  shows "equiv_keys (p, a) (q, b) \<longleftrightarrow> same_key (p, a) (q, b)"
proof (cases "value_type a = value_type b")
  case True
  then show ?thesis
    by (cases rule: same_type_cases; use True assms in \<open>simp add: equiv_keys_def same_key_def\<close>)
      (auto simp: double_less_def double_eq_def dest: string_less_equiv signed_word_eqI)
next
  case False
  then show ?thesis by (auto simp: same_key_def dest: equiv_keys_type)
qed

lemma same_key_trans: "same_key x y \<Longrightarrow> same_key y z \<Longrightarrow> same_key x z"
  by (cases x; cases y; cases z) (auto simp: same_key_def scalar_key_def double_eq_def split: if_splits)

text \<open>
  C17. On every value but a NaN, \<^verbatim>\<open>operator<\<close> is the strict weak order a \<^verbatim>\<open>std::map\<close> needs: irreflexive,
  transitive, and with a transitive notion of equivalent keys. Two equivalent keys have the same
  type; for the scalar types except doubles (where the two zeros meet) they are equal, and for the
  collection types they are the same object.
\<close>

theorem key_order_strict_weak:
  assumes "key_ordered a" "key_ordered b" "key_ordered c"
  shows "\<not> value_less (p, a) (p, a) \<and>
    (value_less (p, a) (q, b) \<and> value_less (q, b) (r, c) \<longrightarrow> value_less (p, a) (r, c)) \<and>
    (equiv_keys (p, a) (q, b) \<and> equiv_keys (q, b) (r, c) \<longrightarrow> equiv_keys (p, a) (r, c)) \<and>
    (equiv_keys (p, a) (q, b) \<longleftrightarrow> same_key (p, a) (q, b))"
proof (intro conjI impI)
  show "\<not> value_less (p, a) (p, a)" by (rule value_less_irrefl)
  show "value_less (p, a) (r, c)" if "value_less (p, a) (q, b) \<and> value_less (q, b) (r, c)"
    using that value_less_trans by blast
  show "equiv_keys (p, a) (r, c)" if "equiv_keys (p, a) (q, b) \<and> equiv_keys (q, b) (r, c)"
    using that assms by (auto simp: equiv_keys_iff intro: same_key_trans)
  show "equiv_keys (p, a) (q, b) \<longleftrightarrow> same_key (p, a) (q, b)"
    using assms by (simp add: equiv_keys_iff)
qed

theorem key_order_strict_weak_witness:
  "value_less (0, VInt (- 1)) (0, VInt 3) \<and> value_less (0, VInt 3) (0, VString [65]) \<and>
   value_less (0, VInt (- 1)) (0, VString [65])"
proof -
  have "value_less (0, VInt (- 1)) (0, VInt 3)" "value_less (0, VInt 3) (0, VString [65])"
    by (simp_all add: value_less_def less_encodable_type_def)
  with key_order_strict_weak [of "VInt (- 1)" "VInt 3" "VString [65]" 0 0 0] show ?thesis by simp
qed


end
