(* ===== verification/Standard_Codec.thy ===== *)
theory Standard_Codec
  imports Encodable_Value
begin

text \<open>
  \<^verbatim>\<open>shell/platform/common/cpp/client_wrapper/standard_codec.cc\<close>: the binary format of platform
  channel messages. \<^verbatim>\<open>ReadValue\<close> recurses over bytes it is still to read, so its model takes a
  recursion bound; a message is decoded with a bound of one more than its length, which is always enough
  (property \<open>decode_terminates\<close>).
\<close>

section \<open>Sizes\<close>

datatype encoded_type =
    EkNull | EkTrue | EkFalse | EkInt32 | EkInt64 | EkLargeInt | EkFloat64 | EkString | EkUInt8List
  | EkInt32List | EkInt64List | EkFloat64List | EkList | EkMap

definition encoded_types :: "encoded_type list" where
  "encoded_types =
     [EkNull, EkTrue, EkFalse, EkInt32, EkInt64, EkLargeInt, EkFloat64, EkString, EkUInt8List,
      EkInt32List, EkInt64List, EkFloat64List, EkList, EkMap]"

text \<open>The two casts between the enumeration and a byte; a byte may be no enumerator.\<close>

fun byte_of_type :: "encoded_type \<Rightarrow> byte" where
  "byte_of_type EkNull = 0" | "byte_of_type EkTrue = 1" | "byte_of_type EkFalse = 2"
| "byte_of_type EkInt32 = 3" | "byte_of_type EkInt64 = 4" | "byte_of_type EkLargeInt = 5"
| "byte_of_type EkFloat64 = 6" | "byte_of_type EkString = 7" | "byte_of_type EkUInt8List = 8"
| "byte_of_type EkInt32List = 9" | "byte_of_type EkInt64List = 10"
| "byte_of_type EkFloat64List = 11" | "byte_of_type EkList = 12" | "byte_of_type EkMap = 13"

definition type_of_byte :: "byte \<Rightarrow> encoded_type option" where
  "type_of_byte b = (if b < 14 then Some (encoded_types ! unat b) else None)"

lemma type_of_byte_of_type [simp]: "type_of_byte (byte_of_type t) = Some t"
  by (cases t) (simp_all add: type_of_byte_def encoded_types_def)

declare byte_of_type.simps [simp del]

fun EncodedTypeForValue :: "encodable_value \<Rightarrow> encoded_type" where
  "EncodedTypeForValue VNull = EkNull"
| "EncodedTypeForValue (VBool b) = (if b then EkTrue else EkFalse)"
| "EncodedTypeForValue (VInt _) = EkInt32"
| "EncodedTypeForValue (VLong _) = EkInt64"
| "EncodedTypeForValue (VDouble _) = EkFloat64"
| "EncodedTypeForValue (VString _) = EkString"
| "EncodedTypeForValue (VByteList _) = EkUInt8List"
| "EncodedTypeForValue (VIntList _) = EkInt32List"
| "EncodedTypeForValue (VLongList _) = EkInt64List"
| "EncodedTypeForValue (VDoubleList _) = EkFloat64List"
| "EncodedTypeForValue (VList _) = EkList"
| "EncodedTypeForValue (VMap _) = EkMap"

text \<open>The local that receives a two or four byte size is not initialised.\<close>

definition ReadSize :: "stream_reader \<Rightarrow> (nat \<times> stream_reader) res" where
  "ReadSize r =
     (case ReadByte r of (b, r1) \<Rightarrow>
       if b < 254 then Inr (unat b, r1)
       else if b = 254 then
         (case ReadBytes 2 r1 of
            (None, r2) \<Rightarrow> Inl UninitRead
          | (Some bs, r2) \<Rightarrow> Inr (unat (of_le_bytes bs :: 16 word), r2))
       else
         (case ReadBytes 4 r1 of
            (None, r2) \<Rightarrow> Inl UninitRead
          | (Some bs, r2) \<Rightarrow> Inr (unat (of_le_bytes bs :: 32 word), r2)))"

definition WriteSize :: "nat \<Rightarrow> byte list \<Rightarrow> byte list res" where
  "WriteSize n s =
     (if n < 254 then Inr (WriteByte (of_nat n) s)
      else if n \<le> 0xffff then WriteBytes (le_bytes 2 (of_nat n :: 16 word)) (WriteByte 254 s)
      else WriteBytes (le_bytes 4 (of_nat n :: 32 word)) (WriteByte 255 s))"

section \<open>Vectors\<close>

text \<open>A vector the stream is too short for keeps the zeros \<^verbatim>\<open>resize\<close> filled it with.\<close>

definition ReadVector :: "stream_reader \<Rightarrow> ('a::len word list \<times> stream_reader) res" where
  "ReadVector r =
     bind_res (ReadSize r) (\<lambda>(count, r1).
       let type_size = LENGTH('a) div 8;
           r2 = (if type_size > 1 then ReadAlignment type_size r1 else r1) in
       case ReadBytes (count * type_size) r2 of
         (None, r3) \<Rightarrow> Inr (replicate count 0, r3)
       | (Some bs, r3) \<Rightarrow> Inr (vector_of_bytes count bs, r3))"

definition WriteVector :: "'a::len word list \<Rightarrow> byte list \<Rightarrow> byte list res" where
  "WriteVector vector s =
     bind_res (WriteSize (length vector) s) (\<lambda>s1.
       if length vector = 0 then Inr s1
       else
         let type_size = LENGTH('a) div 8;
             s2 = (if type_size > 1 then WriteAlignment type_size s1 else s1) in
         WriteBytes (vector_bytes vector) s2)"

section \<open>Values\<close>

text \<open>
  \<^verbatim>\<open>std::map::emplace\<close> on the nodes of a map in key order: the address of the key, the key and
  the value. The order of a map with a NaN among several doubles is undefined.
\<close>

type_synonym map_node = "(nat \<times> encodable_value) \<times> encodable_value"

fun map_insert :: "map_node \<Rightarrow> map_node list \<Rightarrow> map_node list" where
  "map_insert n [] = [n]"
| "map_insert n (m # ms) =
     (if value_less (fst m) (fst n) then m # map_insert n ms
      else if value_less (fst n) (fst m) then n # m # ms
      else m # ms)"

definition nan_conflict :: "encodable_value \<Rightarrow> map_node list \<Rightarrow> bool" where
  "nan_conflict k ms \<longleftrightarrow>
     value_type k = kDouble \<and>
     list_ex (\<lambda>m. value_type (snd (fst m)) = kDouble \<and> \<not> (key_ordered k \<and> key_ordered (snd (fst m)))) ms"

definition emplace ::
    "nat \<Rightarrow> encodable_value \<Rightarrow> encodable_value \<Rightarrow> map_node list \<Rightarrow> map_node list res" where
  "emplace address k v ms =
     (if nan_conflict k ms then Inl UnorderedKey else Inr (map_insert ((address, k), v) ms))"

text \<open>The loops of \<^verbatim>\<open>ReadValue\<close>; \<open>read_value\<close> is its recursive call.\<close>

fun read_list ::
    "(stream_reader \<Rightarrow> (encodable_value \<times> stream_reader) res) \<Rightarrow> nat \<Rightarrow> stream_reader \<Rightarrow>
     (encodable_value list \<times> stream_reader) res" where
  "read_list read_value 0 r = Inr ([], r)"
| "read_list read_value (Suc n) r =
     bind_res (read_value r) (\<lambda>(v, r1).
     bind_res (read_list read_value n r1) (\<lambda>(vs, r2). Inr (v # vs, r2)))"

text \<open>\<open>addr i\<close> is the address the allocator gives the key of the \<open>i\<close>-th entry read.\<close>

fun read_map ::
    "(nat \<Rightarrow> nat) \<Rightarrow> (stream_reader \<Rightarrow> (encodable_value \<times> stream_reader) res) \<Rightarrow> nat \<Rightarrow> nat \<Rightarrow>
     map_node list \<Rightarrow> stream_reader \<Rightarrow> (map_node list \<times> stream_reader) res" where
  "read_map addr read_value i 0 ms r = Inr (ms, r)"
| "read_map addr read_value i (Suc n) ms r =
     bind_res (read_value r) (\<lambda>(k, r1).
     bind_res (read_value r1) (\<lambda>(v, r2).
     bind_res (emplace (addr i) k v ms) (\<lambda>ms'. read_map addr read_value (Suc i) n ms' r2)))"

definition read_word :: "nat \<Rightarrow> stream_reader \<Rightarrow> 'a::len word \<times> stream_reader" where
  "read_word n r = (case ReadBytes n r of (None, r1) \<Rightarrow> (0, r1) | (Some bs, r1) \<Rightarrow> (of_le_bytes bs, r1))"

definition read_string :: "stream_reader \<Rightarrow> (byte list \<times> stream_reader) res" where
  "read_string r =
     bind_res (ReadSize r) (\<lambda>(n, r1).
       case ReadBytes n r1 of
         (None, r2) \<Rightarrow> Inr (replicate n 0, r2)
       | (Some bs, r2) \<Rightarrow> Inr (bs, r2))"

definition read_typed ::
    "(nat \<Rightarrow> nat) \<Rightarrow> (stream_reader \<Rightarrow> (encodable_value \<times> stream_reader) res) \<Rightarrow> encoded_type \<Rightarrow>
     stream_reader \<Rightarrow> (encodable_value \<times> stream_reader) res" where
  "read_typed addr read_value t r =
     (case t of
        EkNull \<Rightarrow> Inr (VNull, r)
      | EkTrue \<Rightarrow> Inr (VBool True, r)
      | EkFalse \<Rightarrow> Inr (VBool False, r)
      | EkInt32 \<Rightarrow> (case read_word 4 r of (w, r1) \<Rightarrow> Inr (VInt w, r1))
      | EkInt64 \<Rightarrow> (case read_word 8 r of (w, r1) \<Rightarrow> Inr (VLong w, r1))
      | EkFloat64 \<Rightarrow> (case read_word 8 (ReadAlignment 8 r) of (w, r1) \<Rightarrow> Inr (VDouble w, r1))
      | EkLargeInt \<Rightarrow> bind_res (read_string r) (\<lambda>(s, r1). Inr (VString s, r1))
      | EkString \<Rightarrow> bind_res (read_string r) (\<lambda>(s, r1). Inr (VString s, r1))
      | EkUInt8List \<Rightarrow> bind_res (ReadVector r) (\<lambda>(xs, r1). Inr (VByteList xs, r1))
      | EkInt32List \<Rightarrow> bind_res (ReadVector r) (\<lambda>(xs, r1). Inr (VIntList xs, r1))
      | EkInt64List \<Rightarrow> bind_res (ReadVector r) (\<lambda>(xs, r1). Inr (VLongList xs, r1))
      | EkFloat64List \<Rightarrow> bind_res (ReadVector r) (\<lambda>(xs, r1). Inr (VDoubleList xs, r1))
      | EkList \<Rightarrow>
          bind_res (ReadSize r) (\<lambda>(n, r1).
          bind_res (read_list read_value n r1) (\<lambda>(vs, r2). Inr (VList vs, r2)))
      | EkMap \<Rightarrow>
          bind_res (ReadSize r) (\<lambda>(n, r1).
          bind_res (read_map addr read_value 0 n [] r1) (\<lambda>(ms, r2).
            Inr (VMap (map (\<lambda>m. (snd (fst m), snd m)) ms), r2))))"

primrec ReadValue :: "(nat \<Rightarrow> nat) \<Rightarrow> nat \<Rightarrow> stream_reader \<Rightarrow> (encodable_value \<times> stream_reader) res" where
  "ReadValue addr 0 r = Inl OutOfFuel"
| "ReadValue addr (Suc fuel) r =
     (let (b, r1) = ReadByte r in
      case type_of_byte b of
        None \<Rightarrow> Inr (VNull, r1)
      | Some t \<Rightarrow> read_typed addr (ReadValue addr fuel) t r1)"

definition write_type :: "encodable_value \<Rightarrow> byte list \<Rightarrow> byte list" where
  "write_type v s = WriteByte (byte_of_type (EncodedTypeForValue v)) s"

function (sequential) WriteValue :: "encodable_value \<Rightarrow> byte list \<Rightarrow> byte list res"
  and write_list :: "encodable_value list \<Rightarrow> byte list \<Rightarrow> byte list res"
  and write_map :: "(encodable_value \<times> encodable_value) list \<Rightarrow> byte list \<Rightarrow> byte list res" where
  "WriteValue VNull s = Inr (write_type VNull s)"
| "WriteValue (VBool b) s = Inr (write_type (VBool b) s)"
| "WriteValue (VInt i) s = WriteBytes (le_bytes 4 i) (write_type (VInt i) s)"
| "WriteValue (VLong l) s = WriteBytes (le_bytes 8 l) (write_type (VLong l) s)"
| "WriteValue (VDouble d) s = WriteBytes (le_bytes 8 d) (WriteAlignment 8 (write_type (VDouble d) s))"
| "WriteValue (VString str) s =
     bind_res (WriteSize (length str) (write_type (VString str) s)) (\<lambda>s1.
       if length str > 0 then WriteBytes str s1 else Inr s1)"
| "WriteValue (VByteList xs) s = WriteVector xs (write_type (VByteList xs) s)"
| "WriteValue (VIntList xs) s = WriteVector xs (write_type (VIntList xs) s)"
| "WriteValue (VLongList xs) s = WriteVector xs (write_type (VLongList xs) s)"
| "WriteValue (VDoubleList xs) s = WriteVector xs (write_type (VDoubleList xs) s)"
| "WriteValue (VList vs) s =
     bind_res (WriteSize (length vs) (write_type (VList vs) s)) (\<lambda>s1. write_list vs s1)"
| "WriteValue (VMap ms) s =
     bind_res (WriteSize (length ms) (write_type (VMap ms) s)) (\<lambda>s1. write_map ms s1)"
| "write_list [] s = Inr s"
| "write_list (v # vs) s = bind_res (WriteValue v s) (\<lambda>s1. write_list vs s1)"
| "write_map [] s = Inr s"
| "write_map ((k, v) # ms) s =
     bind_res (WriteValue k s) (\<lambda>s1. bind_res (WriteValue v s1) (\<lambda>s2. write_map ms s2))"
  by pat_completeness auto
termination
  by (relation "measure (\<lambda>x. case x of
      Inl (v, _) \<Rightarrow> size v
    | Inr (Inl (vs, _)) \<Rightarrow> size_list size vs
    | Inr (Inr (ms, _)) \<Rightarrow> size_list (size_prod size size) ms)") simp_all

section \<open>Message and method codecs\<close>

definition DecodeMessageInternal :: "(nat \<Rightarrow> nat) \<Rightarrow> byte list \<Rightarrow> encodable_value res" where
  "DecodeMessageInternal addr message =
     bind_res (ReadValue addr (length message + 1) (ByteBufferStreamReader message)) (\<lambda>(v, _). Inr v)"

definition EncodeMessageInternal :: "encodable_value \<Rightarrow> byte list res" where
  "EncodeMessageInternal message = WriteValue message []"

record method_call =
  method_name :: "byte list"
  mc_arguments :: "encodable_value option"

text \<open>\<open>None\<close> is the null pointer an invalid call decodes to.\<close>

definition DecodeMethodCallInternal :: "(nat \<Rightarrow> nat) \<Rightarrow> byte list \<Rightarrow> method_call option res" where
  "DecodeMethodCallInternal addr message =
     bind_res (ReadValue addr (length message + 1) (ByteBufferStreamReader message)) (\<lambda>(name, r).
       if \<not> IsString name then Inr None
       else
         bind_res (ReadValue addr (length message + 1) r) (\<lambda>(arguments, _).
         bind_res (StringValue name) (\<lambda>str.
           Inr (Some \<lparr>method_name = str, mc_arguments = Some arguments\<rparr>))))"

definition write_optional :: "encodable_value option \<Rightarrow> byte list \<Rightarrow> byte list res" where
  "write_optional v s = (case v of Some x \<Rightarrow> WriteValue x s | None \<Rightarrow> WriteValue VNull s)"

definition EncodeMethodCallInternal :: "method_call \<Rightarrow> byte list res" where
  "EncodeMethodCallInternal c =
     bind_res (WriteValue (VString (method_name c)) []) (\<lambda>s. write_optional (mc_arguments c) s)"

definition EncodeSuccessEnvelopeInternal :: "encodable_value option \<Rightarrow> byte list res" where
  "EncodeSuccessEnvelopeInternal r = write_optional r (WriteByte 0 [])"

definition EncodeErrorEnvelopeInternal ::
    "byte list \<Rightarrow> byte list \<Rightarrow> encodable_value option \<Rightarrow> byte list res" where
  "EncodeErrorEnvelopeInternal error_code error_message error_details =
     bind_res (WriteValue (VString error_code) (WriteByte 1 [])) (\<lambda>s1.
     bind_res (if error_message = [] then WriteValue VNull s1 else WriteValue (VString error_message) s1)
       (\<lambda>s2. write_optional error_details s2))"

end
