(* ===== verification/Standard_Codec_Correct.thy ===== *)
theory Standard_Codec_Correct
  imports Standard_Codec
begin

text \<open>
  The standard codec is correct: what \<^verbatim>\<open>WriteValue\<close> writes, \<^verbatim>\<open>ReadValue\<close> reads back, and decoding
  any message ends. Both directions are compared position by position, since the padding in front of
  doubles and typed lists depends on where in the buffer they stand.
\<close>

section \<open>Reading what was written\<close>

text \<open>
  \<open>reads_back f s bs x\<close>: a reader that has consumed as many bytes as \<open>s\<close> holds and has \<open>bs\<close> in front
  of it reads \<open>x\<close> with \<open>f\<close> and consumes exactly \<open>bs\<close>.
\<close>

definition reads_back ::
    "(stream_reader \<Rightarrow> ('a \<times> stream_reader) res) \<Rightarrow> byte list \<Rightarrow> byte list \<Rightarrow> 'a \<Rightarrow> bool" where
  "reads_back f s bs x \<longleftrightarrow>
     (\<forall>r. at_bytes r bs \<and> sr_location r = length s \<longrightarrow> f r = Inr (x, advance (length bs) r))"

lemma WriteBytes_Inr [simp]: "bs \<noteq> [] \<Longrightarrow> WriteBytes bs s = Inr (s @ bs)"
  by (simp add: WriteBytes_def)

lemma le_bytes_Nil [simp]: "le_bytes n w = [] \<longleftrightarrow> n = 0"
  by (metis length_le_bytes length_0_conv)

lemma WriteSize_ReadSize:
  assumes "n < 2 ^ 32"
  obtains bs where "WriteSize n s = Inr (s @ bs)" "reads_back ReadSize s bs n"
proof -
  consider "n < 254" | "254 \<le> n" "n \<le> 0xffff" | "0xffff < n" by linarith
  then have "\<exists>bs. WriteSize n s = Inr (s @ bs) \<and> reads_back ReadSize s bs n"
  proof cases
    case 1
    then have "unat (of_nat n :: byte) = n" by (intro unat_of_nat_below) simp
    moreover from this 1 have "(of_nat n :: byte) < 254" by (simp add: word_less_nat_alt)
    ultimately show ?thesis using 1
      by (intro exI [of _ "[of_nat n]"]) (auto simp: WriteSize_def WriteByte_def reads_back_def ReadSize_def)
  next
    case 2
    then have "unat (of_nat n :: 16 word) = n" by (intro unat_of_nat_below) simp
    with 2 show ?thesis
      by (intro exI [of _ "254 # le_bytes 2 (of_nat n :: 16 word)"])
        (auto simp: WriteSize_def WriteByte_def reads_back_def ReadSize_def
          ReadBytes_at of_le_bytes_le_bytes)
  next
    case 3
    then have "unat (of_nat n :: 32 word) = n" using assms by (intro unat_of_nat_below) simp
    with 3 show ?thesis
      by (intro exI [of _ "255 # le_bytes 4 (of_nat n :: 32 word)"])
        (auto simp: WriteSize_def WriteByte_def reads_back_def ReadSize_def
          ReadBytes_at of_le_bytes_le_bytes)
  qed
  with that show thesis by blast
qed

lemma WriteVector_ReadVector:
  fixes xs :: "'a::len word list"
  assumes size: "LENGTH('a) = 8 * k" "0 < k" and len: "length xs < 2 ^ 32" and ne: "xs = [] \<Longrightarrow> k = 1"
  obtains bs where "WriteVector xs s = Inr (s @ bs)" "reads_back ReadVector s bs xs"
proof -
  have ts: "LENGTH('a) div 8 = k" "LENGTH('a) \<le> 8 * (LENGTH('a) div 8)" using size by simp_all
  obtain bs where bs: "WriteSize (length xs) s = Inr (s @ bs)" "reads_back ReadSize s bs (length xs)"
    using WriteSize_ReadSize [OF len] by metis
  define pad where "pad = (if k > 1 then padding k (length s + length bs) else 0)"
  let ?bs = "bs @ replicate pad 0 @ vector_bytes xs"
  have "WriteVector xs s = Inr (s @ ?bs)"
  proof (cases "xs = []")
    case True
    then show ?thesis using bs(1) ne by (simp add: WriteVector_def pad_def vector_bytes_def)
  next
    case False
    then have "vector_bytes xs \<noteq> []" using length_vector_bytes [of xs] ts size(2) by auto
    with False show ?thesis using bs(1) ts
      by (simp add: WriteVector_def pad_def WriteAlignment_eq Let_def)
  qed
  moreover have "ReadVector r = Inr (xs, advance (length ?bs) r)"
    if "at_bytes r ?bs" "sr_location r = length s" for r
  proof -
    have "ReadSize r = Inr (length xs, advance (length bs) r)"
      using bs(2) that by (auto simp: reads_back_def)
    moreover have "ReadBytes (length xs * k) (advance (length bs + pad) r) =
        (Some (vector_bytes xs), advance (length xs * k) (advance (length bs + pad) r))"
      using that by (intro ReadBytes_at) (simp_all add: length_vector_bytes ts(1) add.commute)
    ultimately show ?thesis using that(2) ts
      by (cases "1 < k") (simp_all add: ReadVector_def ReadAlignment_eq pad_def
          vector_of_bytes_vector_bytes length_vector_bytes add.assoc)
  qed
  ultimately show thesis using that by (auto simp: reads_back_def)
qed

text \<open>
  The values that survive a round trip: sizes fit the 32-bit size field, the typed lists with an alignment
  are not empty (see \<open>empty_typed_list_corrupts\<close>), and the keys of a map are scalars, none of them
  a NaN, in strictly increasing order, as they are in an \<^verbatim>\<open>EncodableMap\<close> with such keys.
\<close>

definition keys_ok :: "(encodable_value \<times> encodable_value) list \<Rightarrow> bool" where
  "keys_ok ms \<longleftrightarrow> list_all (\<lambda>(k, v). scalar_key k \<and> key_ordered k) ms \<and>
     sorted_wrt (\<lambda>(k, v) (k', v'). value_less (0, k) (0, k')) ms"

fun codec_ok :: "encodable_value \<Rightarrow> bool" where
  "codec_ok (VString str) \<longleftrightarrow> length str < 2 ^ 32"
| "codec_ok (VByteList xs) \<longleftrightarrow> length xs < 2 ^ 32"
| "codec_ok (VIntList xs) \<longleftrightarrow> length xs < 2 ^ 32 \<and> xs \<noteq> []"
| "codec_ok (VLongList xs) \<longleftrightarrow> length xs < 2 ^ 32 \<and> xs \<noteq> []"
| "codec_ok (VDoubleList xs) \<longleftrightarrow> length xs < 2 ^ 32 \<and> xs \<noteq> []"
| "codec_ok (VList vs) \<longleftrightarrow> length vs < 2 ^ 32 \<and> (\<forall>v \<in> set vs. codec_ok v)"
| "codec_ok (VMap ms) \<longleftrightarrow>
     length ms < 2 ^ 32 \<and> keys_ok ms \<and> (\<forall>(k, v) \<in> set ms. codec_ok k \<and> codec_ok v)"
| "codec_ok _ \<longleftrightarrow> True"

text \<open>Inserting a key above all others appends it.\<close>

lemma map_insert_last:
  "(\<And>m. m \<in> set ms \<Longrightarrow> value_less (fst m) (fst n)) \<Longrightarrow> map_insert n ms = ms @ [n]"
  by (induction ms) simp_all

lemma value_less_scalar:
  assumes "scalar_key a"
  shows "value_less (p, a) (q, b) \<longleftrightarrow> value_less (p', a) (q', b)"
proof (cases "value_type a = value_type b")
  case True
  then show ?thesis by (cases rule: same_type_cases) (use assms in simp_all)
qed (simp add: value_less_diff)

lemma emplace_last:
  assumes "key_ordered k" "\<And>m. m \<in> set ms \<Longrightarrow> scalar_key (snd (fst m)) \<and> key_ordered (snd (fst m)) \<and>
      value_less (0, snd (fst m)) (0, k)"
  shows "emplace p k v ms = Inr (ms @ [((p, k), v)])"
proof -
  have "\<not> nan_conflict k ms"
    using assms by (auto simp: nan_conflict_def list_ex_iff)
  moreover have "value_less (fst m) (p, k)" if "m \<in> set ms" for m
    using assms(2) [OF that] value_less_scalar [of "snd (fst m)" 0 0 k "fst (fst m)" p] by simp
  then have "map_insert ((p, k), v) ms = ms @ [((p, k), v)]" by (intro map_insert_last) simp
  ultimately show ?thesis by (simp add: emplace_def)
qed

text \<open>The type byte in front of a value, and the values that follow it directly.\<close>

lemma write_type_eq: "write_type v s = s @ [byte_of_type (EncodedTypeForValue v)]"
  by (simp add: write_type_def WriteByte_def)

lemma ReadValue_tagged:
  assumes "at_bytes r (byte_of_type t # bs)"
  shows "ReadByte r = (byte_of_type t, advance 1 r)" "at_bytes (advance 1 r) bs"
  using assms at_bytes_Cons [of r "byte_of_type t" bs] by auto

lemma reads_back_tagged:
  assumes "\<And>r. at_bytes r bs \<Longrightarrow> sr_location r = length s + 1 \<Longrightarrow>
      ReadByte r0 = (byte_of_type t, r) \<Longrightarrow> ReadValue addr (Suc fuel) r0 = Inr (v, advance (length bs) r)"
    and "at_bytes r0 (byte_of_type t # bs)" "sr_location r0 = length s"
  shows "ReadValue addr (Suc fuel) r0 = Inr (v, advance (length (byte_of_type t # bs)) r0)"
  using assms(1) [of "advance 1 r0"] ReadValue_tagged [OF assms(2)] assms(3) by simp

definition round_trips :: "(nat \<Rightarrow> nat) \<Rightarrow> encodable_value \<Rightarrow> byte list \<Rightarrow> bool" where
  "round_trips addr v s \<longleftrightarrow>
     (\<exists>bs. WriteValue v s = Inr (s @ bs) \<and> bs \<noteq> [] \<and>
        (\<forall>fuel \<ge> length bs. reads_back (ReadValue addr fuel) s bs v))"

lemma round_tripsI:
  assumes "WriteValue v s = Inr (s @ byte_of_type (EncodedTypeForValue v) # bs)"
    and "\<And>fuel r0 r. length bs \<le> fuel \<Longrightarrow> at_bytes r bs \<Longrightarrow> sr_location r = length s + 1 \<Longrightarrow>
      ReadByte r0 = (byte_of_type (EncodedTypeForValue v), r) \<Longrightarrow>
      ReadValue addr (Suc fuel) r0 = Inr (v, advance (length bs) r)"
  shows "round_trips addr v s"
proof -
  let ?bs = "byte_of_type (EncodedTypeForValue v) # bs"
  have "reads_back (ReadValue addr fuel) s ?bs v" if "length ?bs \<le> fuel" for fuel
  proof -
    obtain n where n: "fuel = Suc n" "length bs \<le> n" using \<open>length ?bs \<le> fuel\<close> by (cases fuel) auto
    show ?thesis unfolding reads_back_def n(1)
      using reads_back_tagged [where fuel = n and addr = addr and v = v and bs = bs and s = s]
        assms(2) [OF n(2)] by blast
  qed
  with assms(1) show ?thesis unfolding round_trips_def by blast
qed

lemma read_word_at:
  "at_bytes r (le_bytes n w) \<Longrightarrow> LENGTH('a) \<le> 8 * n \<Longrightarrow> read_word n r = (w :: 'a::len word, advance n r)"
  by (simp add: read_word_def ReadBytes_at of_le_bytes_le_bytes)

lemma round_trips_scalars:
  "round_trips addr VNull s" "round_trips addr (VBool b) s" "round_trips addr (VInt i) s"
  "round_trips addr (VLong l) s" "round_trips addr (VDouble d) s"
proof -
  show "round_trips addr VNull s" by (rule round_tripsI [where bs = "[]"]) (simp_all add: write_type_eq read_typed_def)
  show "round_trips addr (VBool b) s"
    by (cases b; rule round_tripsI [where bs = "[]"]) (simp_all add: write_type_eq read_typed_def)
  show "round_trips addr (VInt i) s"
    by (rule round_tripsI [where bs = "le_bytes 4 i"]) (simp_all add: write_type_eq read_typed_def read_word_at)
  show "round_trips addr (VLong l) s"
    by (rule round_tripsI [where bs = "le_bytes 8 l"]) (simp_all add: write_type_eq read_typed_def read_word_at)
  show "round_trips addr (VDouble d) s"
    by (rule round_tripsI [where bs = "replicate (padding 8 (length s + 1)) 0 @ le_bytes 8 d"])
      (auto simp: write_type_eq WriteAlignment_eq ReadAlignment_eq read_typed_def read_word_at)
qed

lemma round_trips_string:
  assumes "length str < 2 ^ 32"
  shows "round_trips addr (VString str) s"
proof -
  obtain bs where bs: "WriteSize (length str) (write_type (VString str) s) = Inr (write_type (VString str) s @ bs)"
    "reads_back ReadSize (write_type (VString str) s) bs (length str)"
    using WriteSize_ReadSize [OF assms] by metis
  show ?thesis
  proof (rule round_tripsI [where bs = "bs @ str"])
    show "WriteValue (VString str) s = Inr (s @ byte_of_type (EncodedTypeForValue (VString str)) # bs @ str)"
      using bs(1) by (simp add: write_type_eq)
    show "ReadValue addr (Suc fuel) r0 = Inr (VString str, advance (length (bs @ str)) r)"
      if "at_bytes r (bs @ str)" "sr_location r = length s + 1"
        "ReadByte r0 = (byte_of_type (EncodedTypeForValue (VString str)), r)" for fuel r0 r
      using that bs(2) by (auto simp: reads_back_def write_type_eq read_typed_def read_string_def ReadBytes_at)
  qed
qed

lemma round_trips_vectors:
  "length xs < 2 ^ 32 \<Longrightarrow> round_trips addr (VByteList xs) s"
  "length ys < 2 ^ 32 \<Longrightarrow> ys \<noteq> [] \<Longrightarrow> round_trips addr (VIntList ys) s"
  "length zs < 2 ^ 32 \<Longrightarrow> zs \<noteq> [] \<Longrightarrow> round_trips addr (VLongList zs) s"
  "length ds < 2 ^ 32 \<Longrightarrow> ds \<noteq> [] \<Longrightarrow> round_trips addr (VDoubleList ds) s"
proof -
  assume "length xs < 2 ^ 32"
  from WriteVector_ReadVector [OF _ _ this, of 1 "write_type (VByteList xs) s"] obtain bs where
    bs: "WriteVector xs (write_type (VByteList xs) s) = Inr (write_type (VByteList xs) s @ bs)"
      "reads_back ReadVector (write_type (VByteList xs) s) bs xs" by auto
  then show "round_trips addr (VByteList xs) s"
    by (intro round_tripsI [where bs = bs]) (simp_all add: write_type_eq reads_back_def read_typed_def)
next
  assume "length ys < 2 ^ 32" "ys \<noteq> []"
  from WriteVector_ReadVector [OF _ _ this(1), of 4 "write_type (VIntList ys) s"] this(2) obtain bs where
    bs: "WriteVector ys (write_type (VIntList ys) s) = Inr (write_type (VIntList ys) s @ bs)"
      "reads_back ReadVector (write_type (VIntList ys) s) bs ys" by auto
  then show "round_trips addr (VIntList ys) s"
    by (intro round_tripsI [where bs = bs]) (simp_all add: write_type_eq reads_back_def read_typed_def)
next
  assume "length zs < 2 ^ 32" "zs \<noteq> []"
  from WriteVector_ReadVector [OF _ _ this(1), of 8 "write_type (VLongList zs) s"] this(2) obtain bs where
    bs: "WriteVector zs (write_type (VLongList zs) s) = Inr (write_type (VLongList zs) s @ bs)"
      "reads_back ReadVector (write_type (VLongList zs) s) bs zs" by auto
  then show "round_trips addr (VLongList zs) s"
    by (intro round_tripsI [where bs = bs]) (simp_all add: write_type_eq reads_back_def read_typed_def)
next
  assume "length ds < 2 ^ 32" "ds \<noteq> []"
  from WriteVector_ReadVector [OF _ _ this(1), of 8 "write_type (VDoubleList ds) s"] this(2) obtain bs where
    bs: "WriteVector ds (write_type (VDoubleList ds) s) = Inr (write_type (VDoubleList ds) s @ bs)"
      "reads_back ReadVector (write_type (VDoubleList ds) s) bs ds" by auto
  then show "round_trips addr (VDoubleList ds) s"
    by (intro round_tripsI [where bs = bs]) (simp_all add: write_type_eq reads_back_def read_typed_def)
qed

text \<open>Lists and maps, from the round trips of their elements.\<close>

lemma reads_back_bind:
  assumes "reads_back f s bs x" "at_bytes r (bs @ cs)" "sr_location r = length s"
  shows "f r = Inr (x, advance (length bs) r)" "at_bytes (advance (length bs) r) cs"
    "sr_location (advance (length bs) r) = length (s @ bs)"
  using assms by (auto simp: reads_back_def)

lemma write_list_reads_back:
  assumes "\<And>v s. v \<in> set vs \<Longrightarrow> round_trips addr v s"
  shows "\<exists>bs. write_list vs s = Inr (s @ bs) \<and>
    (\<forall>fuel \<ge> length bs. reads_back (read_list (ReadValue addr fuel) (length vs)) s bs vs)"
  using assms
proof (induction vs arbitrary: s)
  case Nil
  show ?case by (simp add: reads_back_def)
next
  case (Cons v vs)
  obtain bs where bs: "WriteValue v s = Inr (s @ bs)"
    "\<And>fuel. length bs \<le> fuel \<Longrightarrow> reads_back (ReadValue addr fuel) s bs v"
    using Cons.prems [of v s] by (auto simp: round_trips_def)
  obtain cs where cs: "write_list vs (s @ bs) = Inr ((s @ bs) @ cs)"
    "\<And>fuel. length cs \<le> fuel \<Longrightarrow>
      reads_back (read_list (ReadValue addr fuel) (length vs)) (s @ bs) cs vs"
    using Cons.IH [of "s @ bs"] Cons.prems by (meson list.set_intros(2))
  have "read_list (ReadValue addr fuel) (length (v # vs)) r = Inr (v # vs, advance (length (bs @ cs)) r)"
    if "length (bs @ cs) \<le> fuel" "at_bytes r (bs @ cs)" "sr_location r = length s" for fuel r
  proof -
    have "length bs \<le> fuel" using that(1) by simp
    note 1 = reads_back_bind [OF bs(2) [OF this] that(2,3)]
    have "reads_back (read_list (ReadValue addr fuel) (length vs)) (s @ bs) cs vs"
      using that(1) by (intro cs(2)) simp
    with 1 that(1) show ?thesis by (simp add: reads_back_def)
  qed
  then show ?case using bs(1) cs(1)
    by (intro exI [of _ "bs @ cs"]) (simp add: reads_back_def)
qed

lemma round_trips_list:
  assumes "length vs < 2 ^ 32" "\<And>v s. v \<in> set vs \<Longrightarrow> round_trips addr v s"
  shows "round_trips addr (VList vs) s"
proof -
  let ?s = "write_type (VList vs) s"
  obtain bs where bs: "WriteSize (length vs) ?s = Inr (?s @ bs)" "reads_back ReadSize ?s bs (length vs)"
    using WriteSize_ReadSize [OF assms(1)] by metis
  obtain cs where cs: "write_list vs (?s @ bs) = Inr ((?s @ bs) @ cs)"
    "\<And>fuel. length cs \<le> fuel \<Longrightarrow>
      reads_back (read_list (ReadValue addr fuel) (length vs)) (?s @ bs) cs vs"
    using write_list_reads_back [OF assms(2)] by blast
  show ?thesis
  proof (rule round_tripsI [where bs = "bs @ cs"])
    show "WriteValue (VList vs) s = Inr (s @ byte_of_type (EncodedTypeForValue (VList vs)) # bs @ cs)"
      using bs(1) cs(1) by (simp add: write_type_eq)
    fix fuel r0 r
    assume r: "length (bs @ cs) \<le> fuel" "at_bytes r (bs @ cs)" "sr_location r = length s + 1"
      "ReadByte r0 = (byte_of_type (EncodedTypeForValue (VList vs)), r)"
    then have "sr_location r = length ?s" by (simp add: write_type_eq)
    note 1 = reads_back_bind [OF bs(2) r(2) this]
    have "reads_back (read_list (ReadValue addr fuel) (length vs)) (?s @ bs) cs vs"
      using r(1) by (intro cs(2)) simp
    with 1 have "read_list (ReadValue addr fuel) (length vs) (advance (length bs) r) =
        Inr (vs, advance (length cs) (advance (length bs) r))" by (simp add: reads_back_def)
    with 1 r(4) show "ReadValue addr (Suc fuel) r0 = Inr (VList vs, advance (length (bs @ cs)) r)"
      by (simp add: read_typed_def)
  qed
qed

abbreviation entry_of :: "map_node \<Rightarrow> encodable_value \<times> encodable_value" where
  "entry_of m \<equiv> (snd (fst m), snd m)"

lemma keys_ok_emplace:
  assumes "keys_ok (map entry_of ms @ (k, v) # ns)"
  shows "emplace p k v ms = Inr (ms @ [((p, k), v)])"
  using assms by (intro emplace_last) (auto simp: keys_ok_def list_all_iff sorted_wrt_append)

text \<open>Reading the entries \<open>es\<close> into a map that already holds smaller keys appends them.\<close>

definition map_reads_back ::
    "(nat \<Rightarrow> nat) \<Rightarrow> nat \<Rightarrow> byte list \<Rightarrow> byte list \<Rightarrow> (encodable_value \<times> encodable_value) list \<Rightarrow> bool" where
  "map_reads_back addr fuel s bs es \<longleftrightarrow>
     (\<forall>i ms r. keys_ok (map entry_of ms @ es) \<longrightarrow> at_bytes r bs \<longrightarrow> sr_location r = length s \<longrightarrow>
       (\<exists>ms'. read_map addr (ReadValue addr fuel) i (length es) ms r = Inr (ms', advance (length bs) r) \<and>
          map entry_of ms' = map entry_of ms @ es))"

lemma map_reads_back_Cons:
  assumes k: "reads_back (ReadValue addr fuel) s bs k"
    and v: "reads_back (ReadValue addr fuel) (s @ bs) cs v"
    and es: "map_reads_back addr fuel ((s @ bs) @ cs) ds es"
  shows "map_reads_back addr fuel s (bs @ cs @ ds) ((k, v) # es)"
  unfolding map_reads_back_def
proof (intro allI impI)
  fix i ms r
  assume ok: "keys_ok (map entry_of ms @ (k, v) # es)"
    and r: "at_bytes r (bs @ cs @ ds)" "sr_location r = length s"
  note b = reads_back_bind [OF k r]
  note c = reads_back_bind [OF v b(2,3)]
  let ?ms = "ms @ [((addr i, k), v)]" and ?r = "advance (length cs) (advance (length bs) r)"
  have "keys_ok (map entry_of ?ms @ es)" using ok by simp
  then obtain ms' where ms':
    "read_map addr (ReadValue addr fuel) (Suc i) (length es) ?ms ?r = Inr (ms', advance (length ds) ?r)"
    "map entry_of ms' = map entry_of ?ms @ es"
    using es c(2,3) unfolding map_reads_back_def by blast
  have "read_map addr (ReadValue addr fuel) i (length ((k, v) # es)) ms r =
      read_map addr (ReadValue addr fuel) (Suc i) (length es) ?ms ?r"
    using b(1) c(1) keys_ok_emplace [OF ok] by simp
  also have "\<dots> = Inr (ms', advance (length (bs @ cs @ ds)) r)" using ms'(1) by (simp add: add.assoc)
  finally show "\<exists>ms'. read_map addr (ReadValue addr fuel) i (length ((k, v) # es)) ms r =
        Inr (ms', advance (length (bs @ cs @ ds)) r) \<and> map entry_of ms' = map entry_of ms @ (k, v) # es"
    using ms'(2) by auto
qed

lemma write_map_reads_back:
  assumes "\<And>k v s. (k, v) \<in> set es \<Longrightarrow> round_trips addr k s \<and> round_trips addr v s"
  shows "\<exists>bs. write_map es s = Inr (s @ bs) \<and> (\<forall>fuel \<ge> length bs. map_reads_back addr fuel s bs es)"
  using assms
proof (induction es arbitrary: s)
  case Nil
  show ?case by (simp add: map_reads_back_def)
next
  case (Cons e es)
  obtain k v where e: "e = (k, v)" by (cases e)
  obtain bs where bs: "WriteValue k s = Inr (s @ bs)"
    "\<And>fuel. length bs \<le> fuel \<Longrightarrow> reads_back (ReadValue addr fuel) s bs k"
    using Cons.prems [of k v s] e by (auto simp: round_trips_def)
  obtain cs where cs: "WriteValue v (s @ bs) = Inr ((s @ bs) @ cs)"
    "\<And>fuel. length cs \<le> fuel \<Longrightarrow> reads_back (ReadValue addr fuel) (s @ bs) cs v"
    using Cons.prems [of k v "s @ bs"] e by (auto simp: round_trips_def)
  obtain ds where ds: "write_map es ((s @ bs) @ cs) = Inr (((s @ bs) @ cs) @ ds)"
    "\<And>fuel. length ds \<le> fuel \<Longrightarrow> map_reads_back addr fuel ((s @ bs) @ cs) ds es"
    using Cons.IH [of "(s @ bs) @ cs"] Cons.prems by (meson list.set_intros(2))
  have "map_reads_back addr fuel s (bs @ cs @ ds) (e # es)" if "length (bs @ cs @ ds) \<le> fuel" for fuel
    unfolding e using that by (intro map_reads_back_Cons bs(2) cs(2) ds(2)) simp_all
  moreover have "write_map (e # es) s = Inr (s @ bs @ cs @ ds)" using bs(1) cs(1) ds(1) e by simp
  ultimately show ?case by blast
qed

lemma round_trips_map:
  assumes "length es < 2 ^ 32" "keys_ok es"
    and "\<And>k v s. (k, v) \<in> set es \<Longrightarrow> round_trips addr k s \<and> round_trips addr v s"
  shows "round_trips addr (VMap es) s"
proof -
  let ?s = "write_type (VMap es) s"
  obtain bs where bs: "WriteSize (length es) ?s = Inr (?s @ bs)" "reads_back ReadSize ?s bs (length es)"
    using WriteSize_ReadSize [OF assms(1)] by metis
  obtain cs where cs: "write_map es (?s @ bs) = Inr ((?s @ bs) @ cs)"
    "\<And>fuel. length cs \<le> fuel \<Longrightarrow> map_reads_back addr fuel (?s @ bs) cs es"
    using write_map_reads_back [of es addr "?s @ bs", OF assms(3)] by blast
  show ?thesis
  proof (rule round_tripsI [where bs = "bs @ cs"])
    show "WriteValue (VMap es) s = Inr (s @ byte_of_type (EncodedTypeForValue (VMap es)) # bs @ cs)"
      using bs(1) cs(1) by (simp add: write_type_eq)
    fix fuel r0 r
    assume r: "length (bs @ cs) \<le> fuel" "at_bytes r (bs @ cs)" "sr_location r = length s + 1"
      "ReadByte r0 = (byte_of_type (EncodedTypeForValue (VMap es)), r)"
    then have "sr_location r = length ?s" by (simp add: write_type_eq)
    note 1 = reads_back_bind [OF bs(2) r(2) this]
    have m: "map_reads_back addr fuel (?s @ bs) cs es" using r(1) by (intro cs(2)) simp
    have "keys_ok (map entry_of [] @ es)" using assms(2) by simp
    with m [unfolded map_reads_back_def] 1(2,3) obtain ms where
      "read_map addr (ReadValue addr fuel) 0 (length es) [] (advance (length bs) r) =
         Inr (ms, advance (length cs) (advance (length bs) r))" "map entry_of ms = map entry_of [] @ es"
      by blast
    with 1 r(4) show "ReadValue addr (Suc fuel) r0 = Inr (VMap es, advance (length (bs @ cs)) r)"
      by (simp add: read_typed_def)
  qed
qed

lemma codec_ok_round_trips: "codec_ok v \<Longrightarrow> round_trips addr v s"
proof (induction v arbitrary: s rule: codec_ok.induct)
  case (7 es)
  then show ?case by (intro round_trips_map) auto
qed (auto intro: round_trips_scalars round_trips_string round_trips_vectors round_trips_list)

section \<open>Messages, calls and envelopes\<close>

lemma at_bytes_whole: "at_bytes (ByteBufferStreamReader bs) bs"
  by (simp add: at_bytes_def ByteBufferStreamReader_def)

lemma round_trips_message:
  assumes "round_trips addr v []"
  shows "\<exists>m. EncodeMessageInternal v = Inr m \<and> DecodeMessageInternal addr m = Inr v"
proof -
  obtain m where m: "WriteValue v [] = Inr m" "reads_back (ReadValue addr (length m + 1)) [] m v"
    using assms by (auto simp: round_trips_def)
  then have "ReadValue addr (length m + 1) (ByteBufferStreamReader m) =
      Inr (v, advance (length m) (ByteBufferStreamReader m))"
    using at_bytes_whole [of m] by (simp add: reads_back_def ByteBufferStreamReader_def)
  with m(1) show ?thesis by (simp add: EncodeMessageInternal_def DecodeMessageInternal_def)
qed

lemma round_trips_optional:
  assumes "pred_option (\<lambda>v. codec_ok v) x"
  obtains bs where "write_optional x s = Inr (s @ bs)"
    "\<And>fuel. length bs \<le> fuel \<Longrightarrow> reads_back (ReadValue addr fuel) s bs (case x of None \<Rightarrow> VNull | Some v \<Rightarrow> v)"
proof (cases x)
  case None
  with that round_trips_scalars(1) [of addr s] show thesis
    by (auto simp: round_trips_def write_optional_def)
next
  case (Some v)
  with assms codec_ok_round_trips [of v addr s] that show thesis
    by (auto simp: round_trips_def write_optional_def)
qed



lemma method_call_decodes:
  assumes "length (method_name c) < 2 ^ 32" "pred_option (\<lambda>v. codec_ok v) (mc_arguments c)"
  shows "\<exists>m. EncodeMethodCallInternal c = Inr m \<and> DecodeMethodCallInternal addr m =
    Inr (Some \<lparr>method_name = method_name c,
      mc_arguments = Some (case mc_arguments c of None \<Rightarrow> VNull | Some v \<Rightarrow> v)\<rparr>)"
proof -
  let ?name = "VString (method_name c)" and ?args = "case mc_arguments c of None \<Rightarrow> VNull | Some v \<Rightarrow> v"
  obtain bs where bs: "WriteValue ?name [] = Inr bs"
    "\<And>fuel. length bs \<le> fuel \<Longrightarrow> reads_back (ReadValue addr fuel) [] bs ?name"
    using round_trips_string [OF assms(1), of addr "[]"] by (auto simp: round_trips_def)
  obtain cs where cs: "write_optional (mc_arguments c) bs = Inr (bs @ cs)"
    "\<And>fuel. length cs \<le> fuel \<Longrightarrow> reads_back (ReadValue addr fuel) bs cs ?args"
    using round_trips_optional [OF assms(2), of bs addr] by metis
  let ?m = "bs @ cs" and ?r = "ByteBufferStreamReader (bs @ cs)"
  have "reads_back (ReadValue addr (length ?m + 1)) [] bs ?name" by (intro bs(2)) simp
  note 1 = reads_back_bind [OF this at_bytes_whole]
  have "reads_back (ReadValue addr (length ?m + 1)) bs cs ?args" by (intro cs(2)) simp
  with 1 have "ReadValue addr (length ?m + 1) (advance (length bs) ?r) =
      Inr (?args, advance (length cs) (advance (length bs) ?r))"
    by (simp add: reads_back_def ByteBufferStreamReader_def)
  with 1(1) have "DecodeMethodCallInternal addr ?m =
      Inr (Some \<lparr>method_name = method_name c, mc_arguments = Some ?args\<rparr>)"
    by (simp add: DecodeMethodCallInternal_def IsString_def StringValue_def ByteBufferStreamReader_def)
  moreover have "EncodeMethodCallInternal c = Inr ?m"
    using bs(1) cs(1) by (simp add: EncodeMethodCallInternal_def del: WriteValue.simps)
  ultimately show ?thesis by blast
qed





lemma WriteSize_appends: "\<exists>bs. WriteSize n s = Inr (s @ bs)"
  by (simp add: WriteSize_def WriteByte_def)

lemma WriteVector_appends:
  assumes "8 \<le> LENGTH('a::len)"
  shows "\<exists>bs. WriteVector (xs :: 'a word list) s = Inr (s @ bs)"
proof -
  obtain bs where "WriteSize (length xs) s = Inr (s @ bs)" using WriteSize_appends by blast
  moreover have "vector_bytes xs \<noteq> []" if "xs \<noteq> []"
    using that length_vector_bytes [of xs] assms by (auto simp: div_eq_0_iff)
  ultimately show ?thesis by (auto simp: WriteVector_def Let_def WriteAlignment_eq)
qed

lemma write_list_appends:
  assumes "\<And>v s. v \<in> set vs \<Longrightarrow> \<exists>bs. WriteValue v s = Inr (s @ bs)"
  shows "\<exists>bs. write_list vs s = Inr (s @ bs)"
  using assms
proof (induction vs arbitrary: s)
  case (Cons v vs)
  obtain bs where bs: "WriteValue v s = Inr (s @ bs)" using Cons.prems [of v s] by auto
  obtain cs where "write_list vs (s @ bs) = Inr ((s @ bs) @ cs)"
    using Cons.IH [of "s @ bs"] Cons.prems by (meson list.set_intros(2))
  with bs show ?case by simp
qed simp

lemma write_map_appends:
  assumes "\<And>k v s. (k, v) \<in> set es \<Longrightarrow> (\<exists>bs. WriteValue k s = Inr (s @ bs)) \<and> (\<exists>bs. WriteValue v s = Inr (s @ bs))"
  shows "\<exists>bs. write_map es s = Inr (s @ bs)"
  using assms
proof (induction es arbitrary: s)
  case (Cons e es)
  obtain k v where e: "e = (k, v)" by (cases e)
  obtain bs where bs: "WriteValue k s = Inr (s @ bs)" using Cons.prems [of k v s] e by auto
  obtain cs where cs: "WriteValue v (s @ bs) = Inr ((s @ bs) @ cs)"
    using Cons.prems [of k v "s @ bs"] e by auto
  obtain ds where "write_map es ((s @ bs) @ cs) = Inr (((s @ bs) @ cs) @ ds)"
    using Cons.IH [of "(s @ bs) @ cs"] Cons.prems by (meson list.set_intros(2))
  with bs cs e show ?case by simp
qed simp

lemma WriteValue_appends: "\<exists>bs. WriteValue v s = Inr (s @ bs)"
proof (induction v arbitrary: s rule: codec_ok.induct)
  case (1 str)
  obtain bs where "WriteSize (length str) (write_type (VString str) s) = Inr (write_type (VString str) s @ bs)"
    using WriteSize_appends by blast
  then show ?case by (cases "str = []") (auto simp: write_type_eq)
next
  case (6 vs)
  let ?s = "write_type (VList vs) s"
  obtain bs where "WriteSize (length vs) ?s = Inr (?s @ bs)" using WriteSize_appends by blast
  moreover obtain cs where "write_list vs (?s @ bs) = Inr ((?s @ bs) @ cs)"
    using write_list_appends [of vs] 6 by blast
  ultimately show ?case by (simp add: write_type_eq)
next
  case (7 es)
  let ?s = "write_type (VMap es) s"
  obtain bs where "WriteSize (length es) ?s = Inr (?s @ bs)" using WriteSize_appends by blast
  moreover obtain cs where "write_map es (?s @ bs) = Inr ((?s @ bs) @ cs)"
    using write_map_appends [of es] 7 by blast
  ultimately show ?case by (simp add: write_type_eq)
next
  case (2 xs)
  show ?case using WriteVector_appends [of xs "write_type (VByteList xs) s"] by (auto simp: write_type_eq)
next
  case (3 xs)
  show ?case using WriteVector_appends [of xs "write_type (VIntList xs) s"] by (auto simp: write_type_eq)
next
  case (4 xs)
  show ?case using WriteVector_appends [of xs "write_type (VLongList xs) s"] by (auto simp: write_type_eq)
next
  case (5 xs)
  show ?case using WriteVector_appends [of xs "write_type (VDoubleList xs) s"] by (auto simp: write_type_eq)
qed (simp_all add: write_type_eq WriteAlignment_eq)

section \<open>Decoding ends on every input\<close>

text \<open>\<open>ends_ok r x\<close>: a read from \<open>r\<close> ended with one of the two real failures or moved on.\<close>

definition ends_ok :: "stream_reader \<Rightarrow> ('a \<times> stream_reader) res \<Rightarrow> bool" where
  "ends_ok r x \<longleftrightarrow> (case x of Inl e \<Rightarrow> e \<in> {UninitRead, UnorderedKey} | Inr (v, r') \<Rightarrow> reads r r')"

lemma ends_ok_simps [simp]:
  "ends_ok r (Inr (v, r')) \<longleftrightarrow> reads r r'"
  "ends_ok r (Inl e) \<longleftrightarrow> e \<in> {UninitRead, UnorderedKey}"
  by (simp_all add: ends_ok_def)

lemma ends_ok_bind:
  assumes "ends_ok r x" "\<And>v r'. x = Inr (v, r') \<Longrightarrow> reads r r' \<Longrightarrow> ends_ok r' (f (v, r'))"
  shows "ends_ok r (bind_res x f)"
proof (cases x)
  case (Inr y)
  then obtain v r' where x: "x = Inr (v, r')" by (cases y) auto
  with assms have "reads r r'" "ends_ok r' (f (v, r'))" by auto
  then show ?thesis unfolding x
    by (cases "f (v, r')") (auto intro: reads_trans)
qed (use assms in auto)

lemma ends_ok_ReadSize: "ends_ok r (ReadSize r)"
proof -
  obtain b r1 where b: "ReadByte r = (b, r1)" by (cases "ReadByte r")
  obtain x2 r2 where 2: "ReadBytes 2 r1 = (x2, r2)" by (cases "ReadBytes 2 r1")
  obtain x4 r4 where 4: "ReadBytes 4 r1 = (x4, r4)" by (cases "ReadBytes 4 r1")
  have "reads r r1" "reads r r2" "reads r r4"
    using b 2 4 by (meson reads_ReadByte reads_ReadBytes reads_trans)+
  with b 2 4 show ?thesis by (auto simp: ReadSize_def split: option.splits)
qed

text \<open>
  C15. Encoding never trips the assertion in \<^verbatim>\<open>WriteBytes\<close>: every value can be encoded after any
  prefix, and the prefix is kept.
\<close>

theorem encoding_never_fails: "\<exists>bs. WriteValue v s = Inr (s @ bs)"
  by (rule WriteValue_appends)

lemma reads_ReadAlignment: "reads r (ReadAlignment a r)"
  by (simp add: ReadAlignment_eq)

lemma ends_ok_read_string: "ends_ok r (read_string r)"
  unfolding read_string_def
  by (rule ends_ok_bind [OF ends_ok_ReadSize]) (auto split: prod.splits option.splits dest: reads_ReadBytes)

lemma ends_ok_mono: "reads r r' \<Longrightarrow> ends_ok r' x \<Longrightarrow> ends_ok r x"
  by (cases x) (auto intro: reads_trans)

lemma ends_ok_ReadVector: "ends_ok r (ReadVector r)"
  unfolding ReadVector_def
  by (rule ends_ok_bind [OF ends_ok_ReadSize])
    (auto simp: Let_def split: prod.splits option.splits
      dest!: reads_ReadBytes intro: reads_trans [OF reads_ReadAlignment])

lemma reads_read_word: "read_word n r = (w, r') \<Longrightarrow> reads r r'"
  by (auto simp: read_word_def split: prod.splits option.splits dest: reads_ReadBytes)

text \<open>\<open>safe_reader m f\<close>: \<open>f\<close> ends properly on every reader with fewer than \<open>m\<close> bytes left.\<close>

definition bytes_left :: "stream_reader \<Rightarrow> nat" where
  "bytes_left r = length (sr_bytes r) - sr_location r"

definition safe_reader :: "nat \<Rightarrow> (stream_reader \<Rightarrow> ('a \<times> stream_reader) res) \<Rightarrow> bool" where
  "safe_reader m f \<longleftrightarrow> (\<forall>r. bytes_left r < m \<longrightarrow> ends_ok r (f r))"

lemma bytes_left_reads: "reads r r' \<Longrightarrow> bytes_left r < m \<Longrightarrow> bytes_left r' < m"
  by (auto simp: bytes_left_def reads_def)

lemma ends_ok_read_list:
  "safe_reader m f \<Longrightarrow> bytes_left r < m \<Longrightarrow> ends_ok r (read_list f n r)"
proof (induction n arbitrary: r)
  case (Suc n)
  have "ends_ok r (f r)" using Suc.prems by (simp add: safe_reader_def)
  then show ?case unfolding read_list.simps
  proof (rule ends_ok_bind)
    fix v r'
    assume "reads r r'"
    then have "ends_ok r' (read_list f n r')" using Suc bytes_left_reads by blast
    then show "ends_ok r' (case (v, r') of (v, r1) \<Rightarrow>
        bind_res (read_list f n r1) (\<lambda>(vs, r2). Inr (v # vs, r2)))"
      by (auto intro!: ends_ok_bind)
  qed
qed simp

lemma ends_ok_read_map:
  "safe_reader m f \<Longrightarrow> bytes_left r < m \<Longrightarrow> ends_ok r (read_map addr f i n ms r)"
proof (induction n arbitrary: r i ms)
  case (Suc n)
  have f: "ends_ok r (f r)" if "bytes_left r < m" for r using Suc.prems that by (simp add: safe_reader_def)
  show ?case unfolding read_map.simps
  proof (rule ends_ok_bind [OF f [OF Suc.prems(2)]], clarify, rule ends_ok_bind)
    fix k r1
    assume r1: "reads r r1"
    then have "bytes_left r1 < m" using Suc.prems(2) bytes_left_reads by blast
    then show "ends_ok r1 (f r1)" by (rule f)
    fix v r2
    assume "reads r1 r2"
    then have "bytes_left r2 < m" using \<open>bytes_left r1 < m\<close> bytes_left_reads by blast
    then show "ends_ok r2 (case (v, r2) of (v, r2) \<Rightarrow>
        bind_res (emplace (addr i) k v ms) (\<lambda>ms'. read_map addr f (Suc i) n ms' r2))"
      using Suc.IH [OF Suc.prems(1)] by (simp add: emplace_def)
  qed
qed simp

lemma ends_ok_read_typed:
  assumes "safe_reader m f" "bytes_left r < m"
  shows "ends_ok r (read_typed addr f t r)"
proof -
  have left: "bytes_left r' < m" if "reads r r'" for r' using that assms(2) bytes_left_reads by blast
  have list: "ends_ok r (bind_res (ReadSize r) (\<lambda>(n, r1).
      bind_res (read_list f n r1) (\<lambda>(vs, r2). Inr (VList vs, r2))))"
    by (rule ends_ok_bind [OF ends_ok_ReadSize], clarify, rule ends_ok_bind [OF ends_ok_read_list])
      (use assms(1) left in auto)
  have maps: "ends_ok r (bind_res (ReadSize r) (\<lambda>(n, r1).
      bind_res (read_map addr f 0 n [] r1) (\<lambda>(ms, r2). Inr (VMap (map entry_of ms), r2))))"
    by (rule ends_ok_bind [OF ends_ok_ReadSize], clarify, rule ends_ok_bind [OF ends_ok_read_map])
      (use assms(1) left in auto)
  show ?thesis
    by (cases t)
      (auto simp: read_typed_def list maps split: prod.splits
        intro!: ends_ok_bind [OF ends_ok_read_string] ends_ok_bind [OF ends_ok_ReadVector]
        dest!: reads_read_word intro: reads_trans [OF reads_ReadAlignment])
qed

lemma safe_reader_ReadValue: "safe_reader fuel (ReadValue addr fuel)"
proof (induction fuel)
  case 0
  show ?case by (simp add: safe_reader_def)
next
  case (Suc fuel)
  have "ends_ok r (ReadValue addr (Suc fuel) r)" if "bytes_left r < Suc fuel" for r
  proof (cases "bytes_left r = 0")
    case True
    then have "ReadByte r = (0, r)" by (simp add: ReadByte_def bytes_left_def)
    moreover have "type_of_byte 0 = Some EkNull" by (simp add: type_of_byte_def encoded_types_def)
    ultimately show ?thesis by (simp add: read_typed_def)
  next
    case False
    obtain b r1 where b: "ReadByte r = (b, r1)" by (cases "ReadByte r")
    with False have "bytes_left r1 < bytes_left r" "reads r r1"
      by (auto simp: ReadByte_def bytes_left_def reads_def split: if_splits)
    then have "ends_ok r (read_typed addr (ReadValue addr fuel) t r1)" for t
      using that by (intro ends_ok_mono [of r r1] ends_ok_read_typed [OF Suc.IH]) auto
    with b \<open>reads r r1\<close> show ?thesis by (auto split: option.splits)
  qed
  then show ?case by (simp add: safe_reader_def)
qed

lemma decode_ends_ok: "ends_ok (ByteBufferStreamReader m) (ReadValue addr (length m + 1) (ByteBufferStreamReader m))"
  using safe_reader_ReadValue [of "length m + 1" addr]
  by (simp add: safe_reader_def bytes_left_def ByteBufferStreamReader_def del: ReadValue.simps)

text \<open>
  C13. Decoding ends on every byte sequence, however malformed. It yields a value except in two
  cases: a size field that is cut off, and a NaN among several double keys of one map.
\<close>

theorem decode_terminates:
  "case DecodeMessageInternal addr m of Inl e \<Rightarrow> e = UninitRead \<or> e = UnorderedKey | Inr v \<Rightarrow> True"
  using decode_ends_ok [of m addr]
  by (cases "ReadValue addr (length m + 1) (ByteBufferStreamReader m)")
    (auto simp: DecodeMessageInternal_def simp del: ReadValue.simps split: prod.splits)

section \<open>Two defects\<close>

lemma type_of_byte_numerals:
  "type_of_byte 3 = Some EkInt32" "type_of_byte 5 = Some EkLargeInt" "type_of_byte 7 = Some EkString"
  "type_of_byte 8 = Some EkUInt8List" "type_of_byte 9 = Some EkInt32List" "type_of_byte 10 = Some EkInt64List"
  "type_of_byte 11 = Some EkFloat64List" "type_of_byte 12 = Some EkList" "type_of_byte 13 = Some EkMap"
  "type_of_byte 0 = Some EkNull"
  by (simp_all add: type_of_byte_def encoded_types_def)

lemmas reader_defs = ByteBufferStreamReader_def ReadByte_def ReadBytes_def ReadAlignment_def ReadSize_def
  type_of_byte_numerals read_typed_def read_string_def ReadVector_def



text \<open>
  C18. An empty list of 64-bit integers corrupts what follows it: the writer leaves out the padding, the
  reader skips it. A list of an empty long list and a small integer comes back with a null instead of
  the integer.
\<close>

theorem empty_typed_list_corrupts:
  assumes "drop_bit 24 i = 0"
  shows "bind_res (EncodeMessageInternal (VList [VLongList [], VInt i])) (DecodeMessageInternal addr) =
    Inr (VList [VLongList [], VNull])"
proof -
  let ?m = "[12, 2, 10, 0, 3, ucast i, ucast (drop_bit 8 i), ucast (drop_bit 16 i), 0] :: byte list"
  define R where "R k = \<lparr>sr_bytes = ?m, sr_location = k\<rparr>" for k
  have "le_bytes 4 i = [ucast i, ucast (drop_bit 8 i), ucast (drop_bit 16 i), 0]"
    using assms by (simp add: numeral_eq_Suc)
  then have "EncodeMessageInternal (VList [VLongList [], VInt i]) = Inr ?m"
    by (simp add: EncodeMessageInternal_def write_type_eq byte_of_type.simps WriteSize_def WriteByte_def
        WriteVector_def)
  moreover have size: "ReadSize (R 1) = Inr (2, R 2)" "ReadSize (R 3) = Inr (0, R 4)"
    by (simp_all add: ReadSize_def ReadByte_def R_def)
  have "(ReadVector (R 3) :: (64 word list \<times> _) res) = Inr ([], R 8)"
    using size(2) by (simp add: ReadVector_def) (simp add: ReadAlignment_def ReadBytes_def R_def)
  then have empty: "ReadValue addr (Suc fuel) (R 2) = Inr (VLongList [], R 8)" for fuel
    by (simp add: ReadByte_def R_def type_of_byte_numerals read_typed_def)
  have lost: "ReadValue addr (Suc fuel) (R 8) = Inr (VNull, R 9)" for fuel
    by (simp add: ReadByte_def R_def type_of_byte_numerals read_typed_def)
  have "read_list (ReadValue addr (Suc fuel)) n (R 2) = Inr ([VLongList [], VNull], R 9)"
    if "n = Suc (Suc 0)" for fuel n
    by (simp only: that read_list.simps empty lost bind_res_simps prod.case)
  note elements = this [OF numeral_2_eq_2]
  have "ReadByte (R 0) = (12, R 1)" by (simp add: ReadByte_def R_def)
  then have "ReadValue addr (Suc (Suc 8)) (R 0) = Inr (VList [VLongList [], VNull], R 9)"
    by (simp only: ReadValue.simps(2) type_of_byte_numerals Let_def prod.case option.case
        read_typed_def encoded_type.case size elements bind_res_simps)
  moreover have "length ?m + 1 = Suc (Suc 8)" "ByteBufferStreamReader ?m = R 0"
    by (simp_all add: ByteBufferStreamReader_def R_def)
  ultimately show ?thesis by (simp only: bind_res_simps DecodeMessageInternal_def prod.case)
qed

theorem empty_typed_list_corrupts_witness:
  "bind_res (EncodeMessageInternal (VList [VLongList [], VInt 5])) (DecodeMessageInternal id) =
     Inr (VList [VLongList [], VNull])"
  by (rule empty_typed_list_corrupts) simp

end
