(* ===== verification/Pointer_Data.thy ===== *)
theory Pointer_Data
  imports Byte_Stream Doubles
begin

text \<open>
  \<^verbatim>\<open>lib/ui/window/pointer_data.h\<close>, \<^verbatim>\<open>pointer_data_packet.cc\<close>: one pointer event as the 28 eight-byte fields the
  framework unpacks, and a packet of events as their bytes. The enumerations are \<^verbatim>\<open>int64_t\<close>; a value that
  is no enumerator can only come out of raw bytes.
\<close>

datatype pointer_change = kCancel | kAdd | kRemove | kHover | kDown | kMove | kUp | OtherChange "64 word"

datatype device_kind = kTouch | kMouse | kStylus | kInvertedStylus | OtherDevice "64 word"

datatype signal_kind = kNone | kScroll | OtherSignal "64 word"

record pointer_data =
  time_stamp :: "64 word"
  change :: pointer_change
  pd_kind :: device_kind
  pd_signal :: signal_kind
  device :: "64 word"
  pointer_identifier :: "64 word"
  physical_x :: double
  physical_y :: double
  physical_delta_x :: double
  physical_delta_y :: double
  buttons :: "64 word"
  obscured :: "64 word"
  synthesized :: "64 word"
  pressure :: double
  pressure_min :: double
  pressure_max :: double
  distance :: double
  distance_max :: double
  pd_size :: double
  radius_major :: double
  radius_minor :: double
  radius_min :: double
  radius_max :: double
  orientation :: double
  tilt :: double
  platformData :: "64 word"
  scroll_delta_x :: double
  scroll_delta_y :: double

section \<open>Layout\<close>

definition enum_of_word :: "'a list \<Rightarrow> (64 word \<Rightarrow> 'a) \<Rightarrow> 64 word \<Rightarrow> 'a" where
  "enum_of_word enumerators other w =
     (if unat w < length enumerators then enumerators ! unat w else other w)"

definition change_of_word :: "64 word \<Rightarrow> pointer_change" where
  "change_of_word = enum_of_word [kCancel, kAdd, kRemove, kHover, kDown, kMove, kUp] OtherChange"

fun word_of_change :: "pointer_change \<Rightarrow> 64 word" where
  "word_of_change kCancel = 0" | "word_of_change kAdd = 1" | "word_of_change kRemove = 2"
| "word_of_change kHover = 3" | "word_of_change kDown = 4" | "word_of_change kMove = 5"
| "word_of_change kUp = 6" | "word_of_change (OtherChange w) = w"

definition kind_of_word :: "64 word \<Rightarrow> device_kind" where
  "kind_of_word = enum_of_word [kTouch, kMouse, kStylus, kInvertedStylus] OtherDevice"

fun word_of_kind :: "device_kind \<Rightarrow> 64 word" where
  "word_of_kind kTouch = 0" | "word_of_kind kMouse = 1" | "word_of_kind kStylus = 2"
| "word_of_kind kInvertedStylus = 3" | "word_of_kind (OtherDevice w) = w"

definition signal_of_word :: "64 word \<Rightarrow> signal_kind" where
  "signal_of_word = enum_of_word [kNone, kScroll] OtherSignal"

fun word_of_signal :: "signal_kind \<Rightarrow> 64 word" where
  "word_of_signal kNone = 0" | "word_of_signal kScroll = 1" | "word_of_signal (OtherSignal w) = w"

text \<open>The fields in memory order, and an event from its fields.\<close>

definition pointer_data_fields :: "pointer_data \<Rightarrow> 64 word list" where
  "pointer_data_fields d =
     [time_stamp d, word_of_change (change d), word_of_kind (pd_kind d), word_of_signal (pd_signal d),
      device d, pointer_identifier d, physical_x d, physical_y d, physical_delta_x d,
      physical_delta_y d, buttons d, obscured d, synthesized d, pressure d, pressure_min d,
      pressure_max d, distance d, distance_max d, pd_size d, radius_major d, radius_minor d,
      radius_min d, radius_max d, orientation d, tilt d, platformData d, scroll_delta_x d,
      scroll_delta_y d]"

definition pointer_data_of_fields :: "64 word list \<Rightarrow> pointer_data" where
  "pointer_data_of_fields f =
     \<lparr>time_stamp = f ! 0, change = change_of_word (f ! 1), pd_kind = kind_of_word (f ! 2),
      pd_signal = signal_of_word (f ! 3), device = f ! 4, pointer_identifier = f ! 5,
      physical_x = f ! 6, physical_y = f ! 7, physical_delta_x = f ! 8, physical_delta_y = f ! 9,
      buttons = f ! 10, obscured = f ! 11, synthesized = f ! 12, pressure = f ! 13,
      pressure_min = f ! 14, pressure_max = f ! 15, distance = f ! 16, distance_max = f ! 17,
      pd_size = f ! 18, radius_major = f ! 19, radius_minor = f ! 20, radius_min = f ! 21,
      radius_max = f ! 22, orientation = f ! 23, tilt = f ! 24, platformData = f ! 25,
      scroll_delta_x = f ! 26, scroll_delta_y = f ! 27\<rparr>"

definition kPointerDataFieldCount :: nat where
  "kPointerDataFieldCount = 28"

definition kBytesPerField :: nat where
  "kBytesPerField = 8"

text \<open>The size of the structure, which a \<^verbatim>\<open>static_assert\<close> ties to the two constants.\<close>

definition sizeof_pointer_data :: nat where
  "sizeof_pointer_data = kBytesPerField * kPointerDataFieldCount"

definition pointer_data_bytes :: "pointer_data \<Rightarrow> byte list" where
  "pointer_data_bytes d = vector_bytes (pointer_data_fields d)"

definition pointer_data_of_bytes :: "byte list \<Rightarrow> pointer_data" where
  "pointer_data_of_bytes bs = pointer_data_of_fields (vector_of_bytes kPointerDataFieldCount bs)"

definition Clear :: "pointer_data \<Rightarrow> pointer_data" where
  "Clear d = pointer_data_of_bytes (replicate sizeof_pointer_data 0)"

section \<open>PointerDataPacket\<close>

definition PointerDataPacket :: "nat \<Rightarrow> byte list" where
  "PointerDataPacket n = replicate (n * sizeof_pointer_data) 0"

definition PointerDataPacket_of_bytes :: "byte list \<Rightarrow> nat \<Rightarrow> byte list" where
  "PointerDataPacket_of_bytes data num_bytes = take num_bytes data"

text \<open>Writing past the end of the packet is undefined.\<close>

definition SetPointerData :: "nat \<Rightarrow> pointer_data \<Rightarrow> byte list \<Rightarrow> byte list res" where
  "SetPointerData i d data =
     bind_res (guard BadIterator (Suc i * sizeof_pointer_data \<le> length data)) (\<lambda>_.
       Inr (take (i * sizeof_pointer_data) data @ pointer_data_bytes d @
            drop (Suc i * sizeof_pointer_data) data))"

section \<open>The layout loses nothing\<close>

definition pointer_data_wf :: "pointer_data \<Rightarrow> bool" where
  "pointer_data_wf d \<longleftrightarrow>
     (case change d of OtherChange w \<Rightarrow> unat w \<ge> 7 | _ \<Rightarrow> True) \<and>
     (case pd_kind d of OtherDevice w \<Rightarrow> unat w \<ge> 4 | _ \<Rightarrow> True) \<and>
     (case pd_signal d of OtherSignal w \<Rightarrow> unat w \<ge> 2 | _ \<Rightarrow> True)"

lemma length_pointer_data_fields [simp]: "length (pointer_data_fields d) = 28"
  by (simp add: pointer_data_fields_def)

lemma length_pointer_data_bytes [simp]: "length (pointer_data_bytes d) = sizeof_pointer_data"
  by (simp add: pointer_data_bytes_def length_vector_bytes sizeof_pointer_data_def
      kBytesPerField_def kPointerDataFieldCount_def)

lemma change_of_word_of_change:
  "(case c of OtherChange w \<Rightarrow> unat w \<ge> 7 | _ \<Rightarrow> True) \<Longrightarrow> change_of_word (word_of_change c) = c"
  by (cases c) (simp_all add: change_of_word_def enum_of_word_def)

lemma kind_of_word_of_kind:
  "(case k of OtherDevice w \<Rightarrow> unat w \<ge> 4 | _ \<Rightarrow> True) \<Longrightarrow> kind_of_word (word_of_kind k) = k"
  by (cases k) (simp_all add: kind_of_word_def enum_of_word_def)

lemma signal_of_word_of_signal:
  "(case s of OtherSignal w \<Rightarrow> unat w \<ge> 2 | _ \<Rightarrow> True) \<Longrightarrow> signal_of_word (word_of_signal s) = s"
  by (cases s) (simp_all add: signal_of_word_def enum_of_word_def)

lemmas enums_of_words = change_of_word_of_change kind_of_word_of_kind signal_of_word_of_signal

lemma pointer_data_of_fields_fields:
  "pointer_data_wf d \<Longrightarrow> pointer_data_of_fields (pointer_data_fields d) = d"
  by (simp add: pointer_data_of_fields_def pointer_data_fields_def pointer_data_wf_def enums_of_words)

lemma pointer_data_of_bytes_bytes:
  assumes "pointer_data_wf d"
  shows "pointer_data_of_bytes (pointer_data_bytes d) = d"
proof -
  have "(vector_of_bytes 28 (vector_bytes (pointer_data_fields d)) :: 64 word list) = pointer_data_fields d"
    using vector_of_bytes_vector_bytes [of "pointer_data_fields d"] by simp
  with assms show ?thesis
    by (simp add: pointer_data_of_bytes_def pointer_data_bytes_def kPointerDataFieldCount_def
        pointer_data_of_fields_fields)
qed

end
