(* ===== verification/Pointer_Converter.thy ===== *)
theory Pointer_Converter
  imports Pointer_Data
begin

text \<open>
  \<^verbatim>\<open>lib/ui/window/pointer_data_packet_converter.cc\<close>: the converter that fills in identifiers and
  deltas and repairs the event stream of every pointer device. An operation that updates its
  \<^verbatim>\<open>PointerData&\<close> and \<^verbatim>\<open>PointerState&\<close> arguments returns them.
\<close>

record pointer_state =
  ps_identifier :: "64 word"
  isDown :: bool
  ps_x :: double
  ps_y :: double

record converter =
  cv_states :: "64 word \<rightharpoonup> pointer_state"
  cv_pointer :: "64 word"

definition PointerDataPacketConverter :: converter where
  "PointerDataPacketConverter = \<lparr>cv_states = Map.empty, cv_pointer = 0\<rparr>"

definition set_state :: "64 word \<Rightarrow> pointer_state \<Rightarrow> converter \<Rightarrow> converter" where
  "set_state dev state c = c\<lparr>cv_states := (cv_states c)(dev \<mapsto> state)\<rparr>"

definition EnsurePointerState :: "pointer_data \<Rightarrow> converter \<Rightarrow> pointer_state \<times> converter" where
  "EnsurePointerState d c =
     (let state = \<lparr>ps_identifier = 0, isDown = False, ps_x = physical_x d, ps_y = physical_y d\<rparr> in
      (state, set_state (device d) state c))"

definition UpdateDeltaAndState ::
    "pointer_data \<Rightarrow> pointer_state \<Rightarrow> converter \<Rightarrow> pointer_data \<times> pointer_state \<times> converter" where
  "UpdateDeltaAndState d state c =
     (let d' = d\<lparr>physical_delta_x := double_minus (physical_x d) (ps_x state),
                 physical_delta_y := double_minus (physical_y d) (ps_y state)\<rparr>;
          state' = state\<lparr>ps_x := physical_x d, ps_y := physical_y d\<rparr> in
      (d', state', set_state (device d) state' c))"

definition LocationNeedsUpdate :: "pointer_data \<Rightarrow> pointer_state \<Rightarrow> bool" where
  "LocationNeedsUpdate d state \<longleftrightarrow>
     \<not> double_eq (ps_x state) (physical_x d) \<or> \<not> double_eq (ps_y state) (physical_y d)"

definition UpdatePointerIdentifier ::
    "pointer_data \<Rightarrow> pointer_state \<Rightarrow> bool \<Rightarrow> converter \<Rightarrow> pointer_data \<times> pointer_state \<times> converter" where
  "UpdatePointerIdentifier d state start_new_pointer c =
     (let (state', c') =
        (if start_new_pointer then
           let c1 = c\<lparr>cv_pointer := cv_pointer c + 1\<rparr>;
               state1 = state\<lparr>ps_identifier := cv_pointer c1\<rparr> in
           (state1, set_state (device d) state1 c1)
         else (state, c)) in
      (d\<lparr>pointer_identifier := ps_identifier state'\<rparr>, state', c'))"

text \<open>A copy of an event with another kind of change, marked as synthesized.\<close>

definition synthesize :: "pointer_change \<Rightarrow> pointer_data \<Rightarrow> pointer_data" where
  "synthesize ch d = d\<lparr>change := ch, synthesized := 1\<rparr>"

text \<open>The synthesized event in front of an event whose location does not match the state.\<close>

definition synthesize_location ::
    "pointer_change \<Rightarrow> pointer_data \<Rightarrow> pointer_state \<Rightarrow> converter \<Rightarrow>
     pointer_data list \<times> pointer_state \<times> converter" where
  "synthesize_location ch d state c =
     (if LocationNeedsUpdate d state then
        let (d', state', c') = UpdateDeltaAndState (synthesize ch d) state c in ([d'], state', c')
      else ([], state, c))"

type_synonym conversion = "pointer_data \<Rightarrow> converter \<Rightarrow> (pointer_data list \<times> converter) res"

definition convert_cancel :: conversion where
  "convert_cancel d c =
     (case cv_states c (device d) of
        None \<Rightarrow> Inr ([], c)
      | Some state \<Rightarrow>
          bind_res (guard DCheckFailed (isDown state)) (\<lambda>_.
            let (d1, state1, c1) = UpdatePointerIdentifier d state False c;
                (moves, state2, c2) = synthesize_location kMove d1 state1 c1;
                state3 = state2\<lparr>isDown := False\<rparr> in
            Inr (moves @ [d1], set_state (device d1) state3 c2)))"

definition convert_add :: conversion where
  "convert_add d c =
     bind_res (guard DCheckFailed (cv_states c (device d) = None)) (\<lambda>_.
       Inr ([d], snd (EnsurePointerState d c)))"

definition convert_remove :: conversion where
  "convert_remove d c =
     (case cv_states c (device d) of
        None \<Rightarrow> Inl DCheckFailed
      | Some state \<Rightarrow>
          let (cancels, state1, c1) =
                (if isDown state then
                   let (e, s1, c0) = UpdatePointerIdentifier (synthesize kCancel d) state False c;
                       s2 = s1\<lparr>isDown := False\<rparr> in
                   ([e], s2, set_state (device e) s2 c0)
                 else ([], state, c));
              (hovers, state2, c2) = synthesize_location kHover d state1 c1 in
          Inr (cancels @ hovers @ [d], c2\<lparr>cv_states := (cv_states c2)(device d := None)\<rparr>))"

text \<open>The state of a device, with an \<^verbatim>\<open>kAdd\<close> synthesized for one that is not known yet.\<close>

definition state_or_add ::
    "pointer_data \<Rightarrow> converter \<Rightarrow> pointer_data list \<times> pointer_state \<times> converter" where
  "state_or_add d c =
     (case cv_states c (device d) of
        None \<Rightarrow>
          let a = synthesize kAdd d; (state, c') = EnsurePointerState a c in ([a], state, c')
      | Some state \<Rightarrow> ([], state, c))"

definition convert_hover :: conversion where
  "convert_hover d c =
     (let (adds, state, c1) = state_or_add d c in
      bind_res (guard DCheckFailed (\<not> isDown state)) (\<lambda>_.
        if LocationNeedsUpdate d state then
          let (d', state', c2) = UpdateDeltaAndState d state c1 in Inr (adds @ [d'], c2)
        else Inr (adds, c1)))"

definition convert_down :: conversion where
  "convert_down d c =
     (let (adds, state, c1) = state_or_add d c in
      bind_res (guard DCheckFailed (\<not> isDown state)) (\<lambda>_.
        let (hovers, state1, c2) = synthesize_location kHover d state c1;
            (d1, state2, c3) = UpdatePointerIdentifier d state1 True c2;
            state3 = state2\<lparr>isDown := True\<rparr> in
        Inr (adds @ hovers @ [d1], set_state (device d1) state3 c3)))"

definition convert_move :: conversion where
  "convert_move d c =
     (case cv_states c (device d) of
        None \<Rightarrow> Inl DCheckFailed
      | Some state \<Rightarrow>
          bind_res (guard DCheckFailed (isDown state)) (\<lambda>_.
            if LocationNeedsUpdate d state then
              let (d1, state1, c1) = UpdatePointerIdentifier d state False c;
                  (d2, state2, c2) = UpdateDeltaAndState d1 state1 c1 in
              Inr ([d2], c2)
            else Inr ([], c)))"

definition convert_up :: conversion where
  "convert_up d c =
     (case cv_states c (device d) of
        None \<Rightarrow> Inl DCheckFailed
      | Some state \<Rightarrow>
          bind_res (guard DCheckFailed (isDown state)) (\<lambda>_.
            let (d1, state1, c1) = UpdatePointerIdentifier d state False c;
                (moves, state2, c2) = synthesize_location kMove d1 state1 c1;
                state3 = state2\<lparr>isDown := False\<rparr> in
            Inr (moves @ [d1], set_state (device d1) state3 c2)))"

definition convert_scroll :: conversion where
  "convert_scroll d c =
     (case cv_states c (device d) of
        None \<Rightarrow> Inl DCheckFailed
      | Some state \<Rightarrow>
          let (events, state', c') =
            synthesize_location (if isDown state then kMove else kHover) (d\<lparr>pd_signal := kNone\<rparr>) state c in
          Inr (events @ [d], c'))"

definition ConvertPointerData :: conversion where
  "ConvertPointerData d c =
     (if pd_signal d = kNone then
        (case change d of
           kCancel \<Rightarrow> convert_cancel d c
         | kAdd \<Rightarrow> convert_add d c
         | kRemove \<Rightarrow> convert_remove d c
         | kHover \<Rightarrow> convert_hover d c
         | kDown \<Rightarrow> convert_down d c
         | kMove \<Rightarrow> convert_move d c
         | kUp \<Rightarrow> convert_up d c
         | OtherChange _ \<Rightarrow> Inr ([d], c))
      else
        (case pd_signal d of
           kScroll \<Rightarrow> convert_scroll d c
         | _ \<Rightarrow> Inr ([], c)))"

fun convert_all :: "pointer_data list \<Rightarrow> converter \<Rightarrow> (pointer_data list \<times> converter) res" where
  "convert_all [] c = Inr ([], c)"
| "convert_all (d # ds) c =
     bind_res (ConvertPointerData d c) (\<lambda>(out1, c1).
     bind_res (convert_all ds c1) (\<lambda>(out2, c2). Inr (out1 @ out2, c2)))"

text \<open>The events of a packet: as many whole events as it has bytes for.\<close>

definition packet_events :: "byte list \<Rightarrow> pointer_data list" where
  "packet_events buffer =
     map (\<lambda>i. pointer_data_of_bytes (take sizeof_pointer_data (drop (i * sizeof_pointer_data) buffer)))
       [0..<length buffer div sizeof_pointer_data]"

fun set_all :: "nat \<Rightarrow> pointer_data list \<Rightarrow> byte list \<Rightarrow> byte list res" where
  "set_all i [] packet = Inr packet"
| "set_all i (d # ds) packet = bind_res (SetPointerData i d packet) (\<lambda>packet'. set_all (Suc i) ds packet')"

definition Convert :: "byte list \<Rightarrow> converter \<Rightarrow> (byte list \<times> converter) res" where
  "Convert packet c =
     bind_res (convert_all (packet_events packet) c) (\<lambda>(converted, c').
     bind_res (set_all 0 converted (PointerDataPacket (length converted))) (\<lambda>out. Inr (out, c')))"

end
