(* ===== verification/Pointer_Converter_Correct.thy ===== *)
theory Pointer_Converter_Correct
  imports Pointer_Converter
begin

text \<open>
  The converter refines a clean pointer stream. The specification is a step relation on the phase of
  every device (unknown, hovering at a location, pressed with an identifier at a location) and the last
  identifier handed out; the refinement maps the converter's table to these phases and shows that what the
  converter emits is a run of the relation.
\<close>

section \<open>Clean streams\<close>

datatype phase = Hovering double double | Pressed "64 word" double double

type_synonym stream_state = "(64 word \<rightharpoonup> phase) \<times> 64 word"

fun phase_at :: "phase \<Rightarrow> pointer_data \<Rightarrow> bool" where
  "phase_at (Hovering x y) d \<longleftrightarrow>
     (x = physical_x d \<or> double_eq x (physical_x d)) \<and> (y = physical_y d \<or> double_eq y (physical_y d))"
| "phase_at (Pressed i x y) d \<longleftrightarrow>
     (x = physical_x d \<or> double_eq x (physical_x d)) \<and> (y = physical_y d \<or> double_eq y (physical_y d))"

definition delta_from :: "double \<Rightarrow> double \<Rightarrow> pointer_data \<Rightarrow> bool" where
  "delta_from x y d \<longleftrightarrow>
     physical_delta_x d = double_minus (physical_x d) x \<and> physical_delta_y d = double_minus (physical_y d) y"

inductive clean_step :: "stream_state \<Rightarrow> pointer_data \<Rightarrow> stream_state \<Rightarrow> bool" where
  add: "pd_signal d = kNone \<Longrightarrow> change d = kAdd \<Longrightarrow> m (device d) = None \<Longrightarrow>
    clean_step (m, n) d (m(device d \<mapsto> Hovering (physical_x d) (physical_y d)), n)"
| hover: "pd_signal d = kNone \<Longrightarrow> change d = kHover \<Longrightarrow> m (device d) = Some (Hovering x y) \<Longrightarrow>
    delta_from x y d \<Longrightarrow>
    clean_step (m, n) d (m(device d \<mapsto> Hovering (physical_x d) (physical_y d)), n)"
| down: "pd_signal d = kNone \<Longrightarrow> change d = kDown \<Longrightarrow> m (device d) = Some (Hovering x y) \<Longrightarrow>
    phase_at (Hovering x y) d \<Longrightarrow> pointer_identifier d = n + 1 \<Longrightarrow>
    clean_step (m, n) d (m(device d \<mapsto> Pressed (n + 1) x y), n + 1)"
| move: "pd_signal d = kNone \<Longrightarrow> change d = kMove \<Longrightarrow> m (device d) = Some (Pressed i x y) \<Longrightarrow>
    delta_from x y d \<Longrightarrow> pointer_identifier d = i \<Longrightarrow>
    clean_step (m, n) d (m(device d \<mapsto> Pressed i (physical_x d) (physical_y d)), n)"
| up: "pd_signal d = kNone \<Longrightarrow> change d = kUp \<Longrightarrow> m (device d) = Some (Pressed i x y) \<Longrightarrow>
    phase_at (Pressed i x y) d \<Longrightarrow> pointer_identifier d = i \<Longrightarrow>
    clean_step (m, n) d (m(device d \<mapsto> Hovering x y), n)"
| cancel: "pd_signal d = kNone \<Longrightarrow> change d = kCancel \<Longrightarrow> m (device d) = Some (Pressed i x y) \<Longrightarrow>
    phase_at (Pressed i x y) d \<or> synthesized d = 1 \<Longrightarrow> pointer_identifier d = i \<Longrightarrow>
    clean_step (m, n) d (m(device d \<mapsto> Hovering x y), n)"
| remove: "pd_signal d = kNone \<Longrightarrow> change d = kRemove \<Longrightarrow> m (device d) = Some (Hovering x y) \<Longrightarrow>
    phase_at (Hovering x y) d \<Longrightarrow>
    clean_step (m, n) d (m(device d := None), n)"
| scroll: "pd_signal d = kScroll \<Longrightarrow> m (device d) = Some p \<Longrightarrow> phase_at p d \<Longrightarrow>
    clean_step (m, n) d (m, n)"

inductive clean_run :: "stream_state \<Rightarrow> pointer_data list \<Rightarrow> stream_state \<Rightarrow> bool" where
  nil: "clean_run s [] s"
| cons: "clean_step s d s' \<Longrightarrow> clean_run s' ds s'' \<Longrightarrow> clean_run s (d # ds) s''"

inductive_cases clean_run_NilE: "clean_run s [] s'"
inductive_cases clean_run_ConsE: "clean_run s (d # ds) s'"

lemma clean_run_single: "clean_step s d s' \<Longrightarrow> clean_run s [d] s'"
  by (auto intro: clean_run.intros)

lemma clean_run_append: "clean_run s ds s' \<Longrightarrow> clean_run s' es s'' \<Longrightarrow> clean_run s (ds @ es) s''"
  by (induction rule: clean_run.induct) (auto intro: clean_run.intros)

section \<open>The refinement\<close>

definition phase_of :: "pointer_state \<Rightarrow> phase" where
  "phase_of state =
     (if isDown state then Pressed (ps_identifier state) (ps_x state) (ps_y state)
      else Hovering (ps_x state) (ps_y state))"

definition stream_of :: "converter \<Rightarrow> stream_state" where
  "stream_of c = (map_option phase_of \<circ> cv_states c, cv_pointer c)"

lemma stream_of_set_state [simp]:
  "stream_of (set_state dev state c) = ((fst (stream_of c))(dev \<mapsto> phase_of state), cv_pointer c)"
  by (auto simp: stream_of_def set_state_def)

lemma set_state_simps [simp]:
  "cv_states (set_state dev state c) = (cv_states c)(dev \<mapsto> state)"
  "cv_pointer (set_state dev state c) = cv_pointer c"
  by (simp_all add: set_state_def)

lemma fst_stream_of [simp]: "fst (stream_of c) dev = map_option phase_of (cv_states c dev)"
  by (simp add: stream_of_def)

lemma snd_stream_of [simp]: "snd (stream_of c) = cv_pointer c"
  by (simp add: stream_of_def)

lemma phase_of_simps [simp]:
  "phase_of (state\<lparr>isDown := False\<rparr>) = Hovering (ps_x state) (ps_y state)"
  "phase_of (state\<lparr>isDown := True\<rparr>) = Pressed (ps_identifier state) (ps_x state) (ps_y state)"
  "\<not> isDown state \<Longrightarrow> phase_of state = Hovering (ps_x state) (ps_y state)"
  "isDown state \<Longrightarrow> phase_of state = Pressed (ps_identifier state) (ps_x state) (ps_y state)"
  by (simp_all add: phase_of_def)

text \<open>Steps that start from the stream of a converter.\<close>

lemma clean_step_stream:
  assumes "clean_step (fst (stream_of c), cv_pointer c) d s'"
  shows "clean_step (stream_of c) d s'"
  using assms by (simp add: stream_of_def)

text \<open>\<open>located state d\<close>: after an update, or when none is needed, an event is where the state says.\<close>

definition located :: "pointer_state \<Rightarrow> pointer_data \<Rightarrow> bool" where
  "located state d \<longleftrightarrow> phase_at (Hovering (ps_x state) (ps_y state)) d"

lemma located_phase_at:
  "located state d \<Longrightarrow> phase_at (Hovering (ps_x state) (ps_y state)) d"
  "located state d \<Longrightarrow> phase_at (Pressed i (ps_x state) (ps_y state)) d"
  by (simp_all add: located_def)

lemma synthesize_location_clean:
  assumes syn: "synthesize_location ch d state c = (events, state', c')"
    and state: "cv_states c (device d) = Some state" and sig: "pd_signal d = kNone"
    and ch: "ch = (if isDown state then kMove else kHover)"
    and ident: "isDown state \<Longrightarrow> pointer_identifier d = ps_identifier state"
  shows "clean_run (stream_of c) events (stream_of c')" "cv_states c' = (cv_states c)(device d \<mapsto> state')"
    "cv_pointer c' = cv_pointer c" "isDown state' = isDown state"
    "ps_identifier state' = ps_identifier state" "located state' d"
proof -
  have "clean_run (stream_of c) events (stream_of c') \<and> cv_states c' = (cv_states c)(device d \<mapsto> state') \<and>
    cv_pointer c' = cv_pointer c \<and> isDown state' = isDown state \<and>
    ps_identifier state' = ps_identifier state \<and> located state' d"
  proof (cases "LocationNeedsUpdate d state")
    case False
    with syn have eq: "events = []" "state' = state" "c' = c" by (simp_all add: synthesize_location_def)
    have "located state d" using False by (simp add: LocationNeedsUpdate_def located_def)
    with eq state show ?thesis by (auto intro: clean_run.nil)
  next
    case True
    let ?d = "(synthesize ch d)\<lparr>physical_delta_x := double_minus (physical_x d) (ps_x state),
        physical_delta_y := double_minus (physical_y d) (ps_y state)\<rparr>"
    let ?state = "state\<lparr>ps_x := physical_x d, ps_y := physical_y d\<rparr>"
    from True syn have eq: "events = [?d]" "state' = ?state" "c' = set_state (device d) ?state c"
      by (auto simp: synthesize_location_def UpdateDeltaAndState_def synthesize_def Let_def)
    have "clean_step (stream_of c) ?d ((fst (stream_of c))(device ?d \<mapsto> phase_of ?state), cv_pointer c)"
    proof (cases "isDown state")
      case True
      then show ?thesis
        using clean_step.move [of ?d "fst (stream_of c)" "ps_identifier state" "ps_x state" "ps_y state" "cv_pointer c"]
          state sig ch ident by (intro clean_step_stream) (simp add: synthesize_def delta_from_def)
    next
      case False
      then show ?thesis
        using clean_step.hover [of ?d "fst (stream_of c)" "ps_x state" "ps_y state" "cv_pointer c"]
          state sig ch by (intro clean_step_stream) (simp add: synthesize_def delta_from_def)
    qed
    then show ?thesis unfolding eq
      by (auto simp: synthesize_def located_def intro: clean_run_single)
  qed
  then show "clean_run (stream_of c) events (stream_of c')" "cv_states c' = (cv_states c)(device d \<mapsto> state')"
    "cv_pointer c' = cv_pointer c" "isDown state' = isDown state"
    "ps_identifier state' = ps_identifier state" "located state' d" by blast+
qed

text \<open>
  The events that release a pressed pointer: a move to the right place and the event itself, which carries
  the identifier of the press.
\<close>

lemma release_clean:
  assumes syn: "synthesize_location kMove (d\<lparr>pointer_identifier := ps_identifier state\<rparr>) state c = (moves, state2, c2)"
    and d: "pd_signal d = kNone" "change d = kCancel \<or> change d = kUp"
    and state: "cv_states c (device d) = Some state" "isDown state"
  shows "clean_run (stream_of c) (moves @ [d\<lparr>pointer_identifier := ps_identifier state\<rparr>])
    (stream_of (set_state (device d) (state2\<lparr>isDown := False\<rparr>) c2))"
proof -
  let ?d = "d\<lparr>pointer_identifier := ps_identifier state\<rparr>"
  have s: "cv_states c (device ?d) = Some state" "pd_signal ?d = kNone" "kMove = (if isDown state then kMove else kHover)"
    "isDown state \<Longrightarrow> pointer_identifier ?d = ps_identifier state" using d state by simp_all
  note syn = synthesize_location_clean [OF syn s]
  have "clean_step (stream_of c2) ?d ((fst (stream_of c2))(device ?d \<mapsto> Hovering (ps_x state2) (ps_y state2)), cv_pointer c2)"
    using d state syn located_phase_at(2) [OF syn(6)]
    by (intro clean_step_stream, elim disjE)
      (intro clean_step.cancel [where i = "ps_identifier state"] clean_step.up [where i = "ps_identifier state"]; simp)+
  from clean_run_append [OF syn(1) clean_run_single [OF this]] show ?thesis by simp
qed

lemma convert_cancel_clean:
  assumes "convert_cancel d c = Inr (out, c')" "pd_signal d = kNone" "change d = kCancel"
  shows "clean_run (stream_of c) out (stream_of c')"
proof (cases "cv_states c (device d)")
  case None
  with assms show ?thesis by (auto simp: convert_cancel_def intro: clean_run.nil)
next
  case (Some state)
  obtain moves state2 c2 where
    syn: "synthesize_location kMove (d\<lparr>pointer_identifier := ps_identifier state\<rparr>) state c = (moves, state2, c2)"
    by (metis prod_cases3)
  with Some assms show ?thesis
    using release_clean [OF syn] by (auto simp: convert_cancel_def UpdatePointerIdentifier_def)
qed

lemma convert_up_clean:
  assumes "convert_up d c = Inr (out, c')" "pd_signal d = kNone" "change d = kUp"
  shows "clean_run (stream_of c) out (stream_of c')"
proof (cases "cv_states c (device d)")
  case None
  with assms show ?thesis by (auto simp: convert_up_def)
next
  case (Some state)
  obtain moves state2 c2 where
    syn: "synthesize_location kMove (d\<lparr>pointer_identifier := ps_identifier state\<rparr>) state c = (moves, state2, c2)"
    by (metis prod_cases3)
  with Some assms show ?thesis
    using release_clean [OF syn] by (auto simp: convert_up_def UpdatePointerIdentifier_def)
qed

lemma convert_add_clean:
  assumes "convert_add d c = Inr (out, c')" "pd_signal d = kNone" "change d = kAdd"
  shows "clean_run (stream_of c) out (stream_of c')"
  using assms clean_step.add [of d "fst (stream_of c)" "cv_pointer c"]
  by (auto simp: convert_add_def EnsurePointerState_def Let_def
      intro!: clean_run_single clean_step_stream)

lemma isDown_update_same: "\<not> isDown state \<Longrightarrow> state\<lparr>isDown := False\<rparr> = state"
  by (cases state) simp

lemma convert_remove_clean:
  assumes "convert_remove d c = Inr (out, c')" "pd_signal d = kNone" "change d = kRemove"
  shows "clean_run (stream_of c) out (stream_of c')"
proof -
  from assms obtain state where state: "cv_states c (device d) = Some state"
    by (auto simp: convert_remove_def split: option.splits)
  define e where "e = (synthesize kCancel d)\<lparr>pointer_identifier := ps_identifier state\<rparr>"
  define state1 where "state1 = state\<lparr>isDown := False\<rparr>"
  define c1 where "c1 = (if isDown state then set_state (device d) state1 c else c)"
  define cancels where "cancels = (if isDown state then [e] else [])"
  have c1: "clean_run (stream_of c) cancels (stream_of c1)"
  proof (cases "isDown state")
    case True
    then have "clean_step (stream_of c) e ((fst (stream_of c))(device e \<mapsto> Hovering (ps_x state) (ps_y state)), cv_pointer c)"
      using state assms(2) by (intro clean_step_stream clean_step.cancel [where i = "ps_identifier state"])
        (simp_all add: e_def synthesize_def)
    then have "clean_run (stream_of c) [e] ((fst (stream_of c))(device e \<mapsto> Hovering (ps_x state) (ps_y state)), cv_pointer c)"
      by (rule clean_run_single)
    with True show ?thesis by (simp add: cancels_def c1_def state1_def e_def synthesize_def)
  qed (simp add: cancels_def c1_def clean_run.nil)
  have s1: "cv_states c1 (device d) = Some state1" "\<not> isDown state1"
    using state by (simp_all add: c1_def state1_def isDown_update_same)
  then have hover: "kHover = (if isDown state1 then kMove else kHover)"
    "isDown state1 \<Longrightarrow> pointer_identifier d = ps_identifier state1" by simp_all
  obtain hovers state2 c2 where syn: "synthesize_location kHover d state1 c1 = (hovers, state2, c2)"
    by (metis prod_cases3)
  note h = synthesize_location_clean [OF syn s1(1) assms(2) hover]
  have "convert_remove d c = Inr (cancels @ hovers @ [d], c2\<lparr>cv_states := (cv_states c2)(device d := None)\<rparr>)"
    using state syn
    by (cases "isDown state") (simp_all add: convert_remove_def cancels_def c1_def state1_def e_def
        UpdatePointerIdentifier_def synthesize_def isDown_update_same Let_def)
  with assms(1) have out: "out = cancels @ hovers @ [d]"
      "c' = c2\<lparr>cv_states := (cv_states c2)(device d := None)\<rparr>" by simp_all
  have step: "clean_step (stream_of c2) d ((fst (stream_of c2))(device d := None), cv_pointer c2)"
    using h s1(2) located_phase_at(1) [OF h(6)] assms(2,3)
    by (intro clean_step_stream clean_step.remove [where x = "ps_x state2" and y = "ps_y state2"]) simp_all
  have "stream_of c' = ((fst (stream_of c2))(device d := None), cv_pointer c2)"
    unfolding out(2) by (auto simp: stream_of_def)
  with clean_run_append [OF c1 clean_run_append [OF h(1) clean_run_single [OF step]]] show ?thesis
    by (simp add: out(1))
qed

lemma state_or_add_clean:
  assumes add: "state_or_add d c = (adds, state, c1)" and sig: "pd_signal d = kNone"
  shows "clean_run (stream_of c) adds (stream_of c1)" "cv_states c1 (device d) = Some state"
    "cv_pointer c1 = cv_pointer c"
proof -
  have "clean_run (stream_of c) adds (stream_of c1) \<and> cv_states c1 (device d) = Some state \<and>
    cv_pointer c1 = cv_pointer c"
  proof (cases "cv_states c (device d)")
    case None
    let ?a = "synthesize kAdd d"
    let ?state = "\<lparr>ps_identifier = 0, isDown = False, ps_x = physical_x d, ps_y = physical_y d\<rparr>"
    from add None have eq: "adds = [?a]" "state = ?state" "c1 = set_state (device d) ?state c"
      by (auto simp: state_or_add_def EnsurePointerState_def synthesize_def Let_def)
    have "clean_step (stream_of c) ?a ((fst (stream_of c))(device ?a \<mapsto> Hovering (physical_x ?a) (physical_y ?a)), cv_pointer c)"
      using None sig by (intro clean_step_stream clean_step.add) (simp_all add: synthesize_def)
    then show ?thesis unfolding eq by (auto simp: synthesize_def intro: clean_run_single)
  qed (use add in \<open>auto simp: state_or_add_def intro: clean_run.nil\<close>)
  then show "clean_run (stream_of c) adds (stream_of c1)" "cv_states c1 (device d) = Some state"
    "cv_pointer c1 = cv_pointer c" by blast+
qed

lemma hover_step:
  assumes "cv_states c (device d) = Some state" "\<not> isDown state" "pd_signal d = kNone" "change d = kHover"
    and "UpdateDeltaAndState d state c = (d', state', c')"
  shows "clean_step (stream_of c) d' (stream_of c')"
proof -
  have "clean_step (stream_of c) d' ((fst (stream_of c))(device d' \<mapsto> Hovering (physical_x d') (physical_y d')), cv_pointer c)"
    using assms by (intro clean_step_stream clean_step.hover [where x = "ps_x state" and y = "ps_y state"])
      (auto simp: UpdateDeltaAndState_def delta_from_def Let_def)
  with assms show ?thesis by (auto simp: UpdateDeltaAndState_def Let_def)
qed

lemma convert_hover_clean:
  assumes "convert_hover d c = Inr (out, c')" "pd_signal d = kNone" "change d = kHover"
  shows "clean_run (stream_of c) out (stream_of c')"
proof -
  obtain adds state c1 where add: "state_or_add d c = (adds, state, c1)" by (metis prod_cases3)
  note a = state_or_add_clean [OF add assms(2)]
  have down: "\<not> isDown state" using assms(1) add by (auto simp: convert_hover_def)
  show ?thesis
  proof (cases "LocationNeedsUpdate d state")
    case True
    obtain d' state' c2 where u: "UpdateDeltaAndState d state c1 = (d', state', c2)" by (metis prod_cases3)
    have "clean_run (stream_of c) (adds @ [d']) (stream_of c2)"
      by (rule clean_run_append [OF a(1) clean_run_single]) (rule hover_step [OF a(2) down assms(2,3) u])
    with True assms(1) add u down show ?thesis by (simp add: convert_hover_def)
  next
    case False
    with assms(1) add down a show ?thesis by (simp add: convert_hover_def)
  qed
qed

lemma convert_move_clean:
  assumes "convert_move d c = Inr (out, c')" "pd_signal d = kNone" "change d = kMove"
  shows "clean_run (stream_of c) out (stream_of c')"
proof -
  from assms(1) obtain state where state: "cv_states c (device d) = Some state" "isDown state"
    by (auto simp: convert_move_def split: option.splits)
  show ?thesis
  proof (cases "LocationNeedsUpdate d state")
    case True
    obtain d' state' c2 where
      u: "UpdateDeltaAndState (d\<lparr>pointer_identifier := ps_identifier state\<rparr>) state c = (d', state', c2)"
      by (metis prod_cases3)
    have "clean_step (stream_of c) d' ((fst (stream_of c))(device d' \<mapsto>
        Pressed (ps_identifier state) (physical_x d') (physical_y d')), cv_pointer c)"
      using assms state u
      by (intro clean_step_stream clean_step.move [where x = "ps_x state" and y = "ps_y state"])
        (auto simp: UpdateDeltaAndState_def delta_from_def Let_def)
    then have "clean_run (stream_of c) [d'] (stream_of c2)"
      using u state by (intro clean_run_single) (auto simp: UpdateDeltaAndState_def Let_def)
    with True assms(1) u state show ?thesis by (simp add: convert_move_def UpdatePointerIdentifier_def)
  next
    case False
    with assms(1) state show ?thesis by (simp add: convert_move_def clean_run.nil)
  qed
qed

lemma convert_down_clean:
  assumes "convert_down d c = Inr (out, c')" "pd_signal d = kNone" "change d = kDown"
  shows "clean_run (stream_of c) out (stream_of c')"
proof -
  obtain adds state c1 where add: "state_or_add d c = (adds, state, c1)" by (metis prod_cases3)
  note a = state_or_add_clean [OF add assms(2)]
  have down: "\<not> isDown state" using assms(1) add by (auto simp: convert_down_def)
  then have hover: "kHover = (if isDown state then kMove else kHover)"
    "isDown state \<Longrightarrow> pointer_identifier d = ps_identifier state" by simp_all
  obtain hovers state1 c2 where syn: "synthesize_location kHover d state c1 = (hovers, state1, c2)"
    by (metis prod_cases3)
  note h = synthesize_location_clean [OF syn a(2) assms(2) hover]
  let ?d = "d\<lparr>pointer_identifier := cv_pointer c2 + 1\<rparr>"
  let ?c = "c2\<lparr>cv_states := (cv_states c2)(device d \<mapsto> state1\<lparr>ps_identifier := cv_pointer c2 + 1, isDown := True\<rparr>),
      cv_pointer := cv_pointer c2 + 1\<rparr>"
  have "convert_down d c = Inr (adds @ hovers @ [?d], ?c)"
    using add down syn by (simp add: convert_down_def UpdatePointerIdentifier_def set_state_def Let_def)
  with assms(1) have out: "out = adds @ hovers @ [?d]" "c' = ?c" by simp_all
  have "clean_step (stream_of c2) ?d ((fst (stream_of c2))(device ?d \<mapsto>
      Pressed (cv_pointer c2 + 1) (ps_x state1) (ps_y state1)), cv_pointer c2 + 1)"
    using h down located_phase_at(1) [OF h(6)] assms(2,3)
    by (intro clean_step_stream clean_step.down) simp_all
  moreover have "stream_of ?c = ((fst (stream_of c2))(device ?d \<mapsto>
      Pressed (cv_pointer c2 + 1) (ps_x state1) (ps_y state1)), cv_pointer c2 + 1)"
    by (auto simp: stream_of_def phase_of_def)
  ultimately have step: "clean_run (stream_of c2) [?d] (stream_of ?c)"
    using clean_run_single by metis
  show ?thesis unfolding out by (rule clean_run_append [OF a(1) clean_run_append [OF h(1) step]])
qed

text \<open>
  A scroll of a pressed pointer to another location is in order only if the raw event already carries
  the identifier of the press: the move synthesized for it is not given one.
\<close>

definition scroll_tracked :: "pointer_data \<Rightarrow> converter \<Rightarrow> bool" where
  "scroll_tracked d c \<longleftrightarrow>
     (case cv_states c (device d) of
        None \<Rightarrow> True
      | Some state \<Rightarrow>
          isDown state \<and> LocationNeedsUpdate d state \<longrightarrow> pointer_identifier d = ps_identifier state)"

lemma convert_scroll_clean:
  assumes "convert_scroll d c = Inr (out, c')" "pd_signal d = kScroll" "scroll_tracked d c"
  shows "clean_run (stream_of c) out (stream_of c')"
proof -
  from assms(1) obtain state where state: "cv_states c (device d) = Some state"
    by (auto simp: convert_scroll_def split: option.splits)
  let ?ch = "if isDown state then kMove else kHover" and ?d = "d\<lparr>pd_signal := kNone\<rparr>"
  obtain events state' c2 where syn: "synthesize_location ?ch ?d state c = (events, state', c2)"
    by (metis prod_cases3)
  have run: "clean_run (stream_of c) events (stream_of c2) \<and> cv_states c2 (device d) = Some state' \<and> located state' d"
  proof (cases "LocationNeedsUpdate d state")
    case True
    have "isDown state \<Longrightarrow> pointer_identifier ?d = ps_identifier state"
      using True assms(3) state by (simp add: scroll_tracked_def)
    from synthesize_location_clean [OF syn _ _ _ this] state show ?thesis by (auto simp: located_def)
  next
    case False
    with syn have "events = []" "state' = state" "c2 = c"
      by (auto simp: synthesize_location_def LocationNeedsUpdate_def)
    with False state show ?thesis
      by (auto simp: located_def LocationNeedsUpdate_def intro: clean_run.nil)
  qed
  have "phase_at (phase_of state') d"
    using run by (cases "isDown state'") (simp_all add: located_def)
  then have "clean_step (fst (stream_of c2), cv_pointer c2) d (fst (stream_of c2), cv_pointer c2)"
    using run assms(2) by (intro clean_step.scroll) simp_all
  then have "clean_step (stream_of c2) d (stream_of c2)" by (simp add: stream_of_def)
  with run have "clean_run (stream_of c) (events @ [d]) (stream_of c2)"
    using clean_run_append clean_run_single by blast
  with assms(1) state syn show ?thesis by (simp add: convert_scroll_def)
qed

definition known_change :: "pointer_data \<Rightarrow> bool" where
  "known_change d \<longleftrightarrow> (case change d of OtherChange _ \<Rightarrow> pd_signal d \<noteq> kNone | _ \<Rightarrow> True)"

definition trackable :: "pointer_data \<Rightarrow> converter \<Rightarrow> bool" where
  "trackable d c \<longleftrightarrow> known_change d \<and> (pd_signal d = kScroll \<longrightarrow> scroll_tracked d c)"

lemma ConvertPointerData_clean:
  assumes conv: "ConvertPointerData d c = Inr (out, c')" and "trackable d c"
  shows "clean_run (stream_of c) out (stream_of c')"
proof (cases "pd_signal d")
  case kNone
  then show ?thesis using assms
    by (cases "change d") (auto simp: ConvertPointerData_def trackable_def known_change_def
        intro: convert_cancel_clean convert_add_clean convert_remove_clean convert_hover_clean
          convert_down_clean convert_move_clean convert_up_clean)
next
  case kScroll
  then show ?thesis using assms
    by (auto simp: ConvertPointerData_def trackable_def intro: convert_scroll_clean)
next
  case (OtherSignal w)
  then show ?thesis using assms by (auto simp: ConvertPointerData_def intro: clean_run.nil)
qed

fun trackable_all :: "pointer_data list \<Rightarrow> converter \<Rightarrow> bool" where
  "trackable_all [] c \<longleftrightarrow> True"
| "trackable_all (d # ds) c \<longleftrightarrow>
     trackable d c \<and> (case ConvertPointerData d c of Inl _ \<Rightarrow> True | Inr (_, c1) \<Rightarrow> trackable_all ds c1)"

lemma convert_all_clean:
  "convert_all ds c = Inr (out, c') \<Longrightarrow> trackable_all ds c \<Longrightarrow> clean_run (stream_of c) out (stream_of c')"
proof (induction ds arbitrary: c out)
  case Nil
  then show ?case by (auto intro: clean_run.nil)
next
  case (Cons d ds)
  from Cons.prems(1) obtain out1 c1 out2 where
    1: "ConvertPointerData d c = Inr (out1, c1)" "convert_all ds c1 = Inr (out2, c')" "out = out1 @ out2"
    by auto
  with Cons.prems(2) have "trackable d c" "trackable_all ds c1" by simp_all
  with 1 Cons.IH show ?case using ConvertPointerData_clean clean_run_append by blast
qed

section \<open>Properties of the converted stream\<close>

text \<open>A demonstration event: everything but the kind, the device and the x coordinate is zero.\<close>

definition demo_event :: "pointer_change \<Rightarrow> double \<Rightarrow> pointer_data" where
  "demo_event ch x =
     (pointer_data_of_fields (replicate 28 0))\<lparr>change := ch, device := 4, physical_x := x\<rparr>"

lemma demo_event_simps [simp]:
  "change (demo_event ch x) = ch" "device (demo_event ch x) = 4" "physical_x (demo_event ch x) = x"
  "physical_y (demo_event ch x) = 0" "pd_signal (demo_event ch x) = kNone"
  "pointer_identifier (demo_event ch x) = 0"
  by (simp_all add: demo_event_def pointer_data_of_fields_def signal_of_word_def enum_of_word_def)

lemma double_eq_numerals [simp]:
  "double_eq 0 0" "double_eq 1 1" "\<not> double_eq 0 1" "\<not> double_eq 1 0"
  by (simp_all add: double_eq_def double_nan_def double_rank_def double_magnitude_def double_negative_def)

lemmas converter_defs = ConvertPointerData_def convert_down_def convert_move_def convert_up_def
  convert_scroll_def state_or_add_def EnsurePointerState_def UpdateDeltaAndState_def
  UpdatePointerIdentifier_def LocationNeedsUpdate_def synthesize_location_def synthesize_def
  PointerDataPacketConverter_def Let_def

lemma demo_press:
  obtains out c where "convert_all [demo_event kDown 0, demo_event kUp 1] PointerDataPacketConverter = Inr (out, c)"
    "length out = 4"
  by (simp add: converter_defs)

lemma demo_trackable:
  "trackable_all [demo_event kDown 0, demo_event kUp 1] PointerDataPacketConverter"
  by (auto simp: trackable_def known_change_def split: sum.splits)



section \<open>Identifiers\<close>

definition presses :: "pointer_data list \<Rightarrow> pointer_data list" where
  "presses = filter (\<lambda>d. pd_signal d = kNone \<and> change d = kDown)"

lemma clean_run_presses:
  "clean_run s ds s' \<Longrightarrow>
     map pointer_identifier (presses ds) = map (\<lambda>k. snd s + of_nat (Suc k)) [0..<length (presses ds)] \<and>
     snd s' = snd s + of_nat (length (presses ds))"
proof (induction rule: clean_run.induct)
  case (cons s d s' ds s'')
  show ?case
  proof (cases "pd_signal d = kNone \<and> change d = kDown")
    case True
    with cons(1) have "pointer_identifier d = snd s + 1" "snd s' = snd s + 1" by (auto elim: clean_step.cases)
    with True cons(3) show ?thesis
      by (simp add: presses_def map_upt_Suc add.assoc del: upt_Suc)
  next
    case False
    with cons(1) have "snd s' = snd s" by (auto elim: clean_step.cases)
    with False cons(3) show ?thesis by (auto simp: presses_def)
  qed
qed (simp add: presses_def)

lemma distinct_identifiers:
  assumes "n < 2 ^ 64"
  shows "distinct (map (\<lambda>k. a + of_nat (Suc k) :: 64 word) [0..<n])"
proof -
  have "inj_on (\<lambda>k. a + of_nat (Suc k) :: 64 word) {0..<n}"
  proof (rule inj_onI)
    fix i j
    assume ij: "i \<in> {0..<n}" "j \<in> {0..<n}" "a + of_nat (Suc i) = (a + of_nat (Suc j) :: 64 word)"
    then have "unat (of_nat i :: 64 word) = unat (of_nat j :: 64 word)" by simp
    moreover have "i < 2 ^ LENGTH(64)" "j < 2 ^ LENGTH(64)" using ij assms by simp_all
    ultimately show "i = j" by (simp only: unat_of_nat_below)
  qed
  then show ?thesis by (simp add: distinct_map)
qed



definition illegal_transition :: "pointer_data \<Rightarrow> converter \<Rightarrow> bool" where
  "illegal_transition d c =
     (let state = cv_states c (device d); down = (case state of None \<Rightarrow> False | Some s \<Rightarrow> isDown s) in
      if pd_signal d = kNone then
        (case change d of
           kCancel \<Rightarrow> state \<noteq> None \<and> \<not> down
         | kAdd \<Rightarrow> state \<noteq> None
         | kRemove \<Rightarrow> state = None
         | kHover \<Rightarrow> down
         | kDown \<Rightarrow> down
         | kMove \<Rightarrow> \<not> down
         | kUp \<Rightarrow> \<not> down
         | OtherChange _ \<Rightarrow> False)
      else pd_signal d = kScroll \<and> state = None)"

lemma ConvertPointerData_fails:
  "ConvertPointerData d c = Inl e \<longleftrightarrow> e = DCheckFailed \<and> illegal_transition d c"
  by (cases "pd_signal d"; cases "change d"; cases "cv_states c (device d)")
    (auto simp: ConvertPointerData_def convert_cancel_def convert_add_def convert_remove_def
      convert_hover_def convert_down_def convert_move_def convert_up_def convert_scroll_def
      state_or_add_def EnsurePointerState_def illegal_transition_def guard_def Let_def
      case_prod_beta' split: if_splits)

text \<open>
  C24. The conversion of an event fails exactly on the transitions the code asserts against: cancelling
  a pointer that is not down, adding a known one, removing an unknown one, hovering or pressing one that
  is down, and moving, releasing or scrolling one that is not there to be moved.
\<close>

theorem conversion_fails_iff_illegal:
  "ConvertPointerData d c = Inl e \<longleftrightarrow> e = DCheckFailed \<and> illegal_transition d c"
  by (rule ConvertPointerData_fails)

text \<open>
  C25. A scroll of a pressed pointer that also moves it emits a move with the identifier of the raw
  event in place of the identifier of the press.
\<close>

theorem scroll_move_lacks_identifier:
  assumes "pd_signal d = kScroll" "cv_states c (device d) = Some state" "isDown state" "LocationNeedsUpdate d state"
  shows "\<exists>move c'. ConvertPointerData d c = Inr ([move, d], c') \<and> change move = kMove \<and>
    pd_signal move = kNone \<and> pointer_identifier move = pointer_identifier d"
  using assms by (auto simp: converter_defs)

theorem scroll_move_lacks_identifier_witness:
  "\<exists>move c'. ConvertPointerData ((demo_event kUp 1)\<lparr>pd_signal := kScroll\<rparr>)
       \<lparr>cv_states = [4 \<mapsto> \<lparr>ps_identifier = 9, isDown = True, ps_x = 0, ps_y = 0\<rparr>], cv_pointer = 9\<rparr> =
       Inr ([move, (demo_event kUp 1)\<lparr>pd_signal := kScroll\<rparr>], c') \<and> change move = kMove \<and>
     pointer_identifier move = 0"
  using scroll_move_lacks_identifier [of "(demo_event kUp 1)\<lparr>pd_signal := kScroll\<rparr>"
      "\<lparr>cv_states = [4 \<mapsto> \<lparr>ps_identifier = 9, isDown = True, ps_x = 0, ps_y = 0\<rparr>], cv_pointer = 9\<rparr>"]
  by (force simp: LocationNeedsUpdate_def)

section \<open>Packets\<close>

lemma set_all_fills:
  assumes "length packet = (i + length ds) * sizeof_pointer_data"
  shows "set_all i ds packet =
    Inr (take (i * sizeof_pointer_data) packet @ concat (map pointer_data_bytes ds))"
  using assms
proof (induction ds arbitrary: i packet)
  case (Cons d ds)
  let ?packet = "take (i * sizeof_pointer_data) packet @ pointer_data_bytes d @
      drop (Suc i * sizeof_pointer_data) packet"
  have "SetPointerData i d packet = Inr ?packet"
    using Cons.prems by (simp add: SetPointerData_def algebra_simps)
  moreover have "length ?packet = (Suc i + length ds) * sizeof_pointer_data"
    using Cons.prems by (simp add: algebra_simps)
  moreover have "take (Suc i * sizeof_pointer_data) ?packet =
      take (i * sizeof_pointer_data) packet @ pointer_data_bytes d"
    using Cons.prems by (simp add: algebra_simps)
  ultimately show ?case using Cons.IH [of ?packet "Suc i"] by simp
qed simp

lemma packet_events_concat:
  assumes "\<And>d. d \<in> set ds \<Longrightarrow> pointer_data_wf d"
  shows "packet_events (concat (map pointer_data_bytes ds)) = ds"
proof -
  have pos: "0 < sizeof_pointer_data"
    by (simp add: sizeof_pointer_data_def kBytesPerField_def kPointerDataFieldCount_def)
  have "length (concat (map pointer_data_bytes ds)) = length ds * sizeof_pointer_data"
    by (rule length_concat_chunks) simp
  with pos have "packet_events (concat (map pointer_data_bytes ds)) = map (\<lambda>i. ds ! i) [0..<length ds]"
    using assms by (auto simp: packet_events_def concat_chunk pointer_data_of_bytes_bytes)
  then show ?thesis by (simp add: map_nth)
qed

lemma Convert_packet:
  assumes "\<And>d. d \<in> set ds \<Longrightarrow> pointer_data_wf d"
  shows "Convert (concat (map pointer_data_bytes ds)) c =
    bind_res (convert_all ds c) (\<lambda>(out, c'). Inr (concat (map pointer_data_bytes out), c'))"
proof -
  have "set_all 0 out (PointerDataPacket (length out)) = Inr (concat (map pointer_data_bytes out))" for out
    using set_all_fills [of "PointerDataPacket (length out)" 0 out] by (simp add: PointerDataPacket_def)
  then show ?thesis by (simp add: Convert_def packet_events_concat [OF assms] case_prod_beta')
qed

text \<open>
  C22. On packets the converter works event by event: the packet of some events converts to the packet
  of the converted events, with no event lost, torn or reordered by the byte layout.
\<close>

theorem packet_conversion:
  assumes "\<And>d. d \<in> set ds \<Longrightarrow> pointer_data_wf d"
  shows "Convert (concat (map pointer_data_bytes ds)) c =
    bind_res (convert_all ds c) (\<lambda>(out, c'). Inr (concat (map pointer_data_bytes out), c'))"
  using assms by (rule Convert_packet)

theorem packet_conversion_witness:
  "Convert (pointer_data_bytes (demo_event kHover 0)) PointerDataPacketConverter =
     bind_res (convert_all [demo_event kHover 0] PointerDataPacketConverter)
       (\<lambda>(out, c'). Inr (concat (map pointer_data_bytes out), c'))"
  using packet_conversion [of "[demo_event kHover 0]" PointerDataPacketConverter]
  by (simp add: pointer_data_wf_def demo_event_def pointer_data_of_fields_def kind_of_word_def
      signal_of_word_def enum_of_word_def)

end
