(* ===== verification/Utf8.thy ===== *)
theory Utf8
  imports Byte_Stream
begin

text \<open>
  UTF-8 as \<^verbatim>\<open>std::codecvt_utf8<char32_t>\<close> converts it: code points up to \<^verbatim>\<open>0x10ffff\<close> without the surrogates,
  each in its shortest form. A conversion that meets anything else fails as a whole.
\<close>

type_synonym char32 = "32 word"

definition code_point :: "nat \<Rightarrow> bool" where
  "code_point n \<longleftrightarrow> n \<le> 0x10FFFF \<and> \<not> (0xD800 \<le> n \<and> n \<le> 0xDFFF)"

definition utf8_char :: "nat \<Rightarrow> nat list" where
  "utf8_char n =
     (if n < 0x80 then [n]
      else if n < 0x800 then [0xC0 + n div 64, 0x80 + n mod 64]
      else if n < 0x10000 then [0xE0 + n div 4096, 0x80 + n div 64 mod 64, 0x80 + n mod 64]
      else [0xF0 + n div 262144, 0x80 + n div 4096 mod 64, 0x80 + n div 64 mod 64, 0x80 + n mod 64])"

definition continuation :: "nat \<Rightarrow> bool" where
  "continuation b \<longleftrightarrow> 0x80 \<le> b \<and> b < 0xC0"

text \<open>The first code point of a byte sequence and what follows it.\<close>

definition utf8_next :: "nat list \<Rightarrow> (nat \<times> nat list) option" where
  "utf8_next bs =
     (case bs of
        [] \<Rightarrow> None
      | a # r \<Rightarrow>
          if a < 0x80 then Some (a, r)
          else if a < 0xC2 then None
          else if a < 0xE0 then
            (case r of
               b # r' \<Rightarrow> if continuation b then Some ((a - 0xC0) * 64 + (b - 0x80), r') else None
             | _ \<Rightarrow> None)
          else if a < 0xF0 then
            (case r of
               b # c # r' \<Rightarrow>
                 let n = (a - 0xE0) * 4096 + (b - 0x80) * 64 + (c - 0x80) in
                 if continuation b \<and> continuation c \<and> 0x800 \<le> n \<and> code_point n then Some (n, r') else None
             | _ \<Rightarrow> None)
          else if a < 0xF5 then
            (case r of
               b # c # d # r' \<Rightarrow>
                 let n = (a - 0xF0) * 262144 + (b - 0x80) * 4096 + (c - 0x80) * 64 + (d - 0x80) in
                 if continuation b \<and> continuation c \<and> continuation d \<and> 0x10000 \<le> n \<and> code_point n
                 then Some (n, r') else None
             | _ \<Rightarrow> None)
          else None)"

lemma utf8_next_shorter: "utf8_next bs = Some (n, r) \<Longrightarrow> length r < length bs"
  by (auto simp: utf8_next_def Let_def split: list.splits if_splits)

function utf8_points :: "nat list \<Rightarrow> nat list option" where
  "utf8_points bs =
     (if bs = [] then Some []
      else case utf8_next bs of
             None \<Rightarrow> None
           | Some (n, r) \<Rightarrow> map_option (\<lambda>ns. n # ns) (utf8_points r))"
  by pat_completeness auto
termination
  by (relation "measure length") (auto dest: utf8_next_shorter)

declare utf8_points.simps [simp del]

text \<open>The two conversions of \<^verbatim>\<open>std::wstring_convert\<close>; a failure is a \<^verbatim>\<open>std::range_error\<close>.\<close>

definition from_bytes :: "byte list \<Rightarrow> char32 list res" where
  "from_bytes bs =
     (case utf8_points (map unat bs) of None \<Rightarrow> Inl RangeError | Some ns \<Rightarrow> Inr (map of_nat ns))"

definition to_bytes :: "char32 list \<Rightarrow> byte list res" where
  "to_bytes cs =
     (if list_all (\<lambda>c. code_point (unat c)) cs
      then Inr (map of_nat (concat (map (\<lambda>c. utf8_char (unat c)) cs)))
      else Inl RangeError)"

section \<open>The conversions are inverse to each other\<close>

lemma six_bit_groups:
  "(n::nat) = n div 4096 * 4096 + n div 64 mod 64 * 64 + n mod 64"
  "n = n div 262144 * 262144 + n div 4096 mod 64 * 4096 + n div 64 mod 64 * 64 + n mod 64"
proof -
  have "n = n div 64 * 64 + n mod 64" "n div 64 = n div 4096 * 64 + n div 64 mod 64"
    "n div 4096 = n div 262144 * 64 + n div 4096 mod 64"
    using div_mult_mod_eq [of n 64] div_mult_mod_eq [of "n div 64" 64] div_mult_mod_eq [of "n div 4096" 64]
    by (simp_all add: div_mult2_eq [symmetric])
  then show "n = n div 4096 * 4096 + n div 64 mod 64 * 64 + n mod 64"
    "n = n div 262144 * 262144 + n div 4096 mod 64 * 4096 + n div 64 mod 64 * 64 + n mod 64"
    by linarith+
qed

lemma utf8_next_utf8_char:
  assumes "code_point n"
  shows "utf8_next (utf8_char n @ r) = Some (n, r)"
proof -
  consider "n < 0x80" | "0x80 \<le> n" "n < 0x800" | "0x800 \<le> n" "n < 0x10000" | "0x10000 \<le> n" "n \<le> 0x10FFFF"
    using assms unfolding code_point_def by linarith
  then show ?thesis
  proof cases
    case 1
    then show ?thesis by (simp add: utf8_char_def utf8_next_def)
  next
    case 2
    then have "2 \<le> n div 64" "n div 64 < 32" by (simp_all add: div_le_mono less_mult_imp_div_less Suc_le_eq)
    with 2 show ?thesis by (simp add: utf8_char_def utf8_next_def continuation_def)
  next
    case 3
    then have "n div 4096 < 16" by simp
    with 3 assms six_bit_groups(1) [of n, symmetric] show ?thesis by (simp add: utf8_char_def utf8_next_def continuation_def Let_def)
  next
    case 4
    then have "n div 262144 < 5" by simp
    with 4 assms six_bit_groups(2) [of n, symmetric] show ?thesis by (simp add: utf8_char_def utf8_next_def continuation_def Let_def)
  qed
qed

lemma compose_groups:
  fixes w x y z :: nat
  assumes "x < 64" "y < 64" "z < 64"
  shows "(y * 64 + z) div 64 = y" "(y * 64 + z) mod 64 = z"
    "(x * 4096 + y * 64 + z) div 4096 = x" "(x * 4096 + y * 64 + z) div 64 mod 64 = y"
    "(x * 4096 + y * 64 + z) mod 64 = z"
    "(w * 262144 + x * 4096 + y * 64 + z) div 262144 = w"
    "(w * 262144 + x * 4096 + y * 64 + z) div 4096 mod 64 = x"
    "(w * 262144 + x * 4096 + y * 64 + z) div 64 mod 64 = y"
    "(w * 262144 + x * 4096 + y * 64 + z) mod 64 = z"
proof -
  have 1: "(k * 64 + z) div 64 = k" "(k * 64 + z) mod 64 = z" for k using assms by simp_all
  have 2: "(k * 64 + y) div 64 = k" "(k * 64 + y) mod 64 = y" for k using assms by simp_all
  have 3: "(k * 64 + x) div 64 = k" "(k * 64 + x) mod 64 = x" for k using assms by simp_all
  have e3: "x * 4096 + y * 64 + z = (x * 64 + y) * 64 + z" by simp
  have e4: "w * 262144 + x * 4096 + y * 64 + z = ((w * 64 + x) * 64 + y) * 64 + z" by simp
  have d: "n div 4096 = n div 64 div 64" "n div 262144 = n div 64 div 64 div 64" for n :: nat
    by (simp_all add: div_mult2_eq [symmetric])
  show "(y * 64 + z) div 64 = y" "(y * 64 + z) mod 64 = z" by (rule 1)+
  show "(x * 4096 + y * 64 + z) div 4096 = x" "(x * 4096 + y * 64 + z) div 64 mod 64 = y"
    "(x * 4096 + y * 64 + z) mod 64 = z" by (simp_all only: e3 d 1 2)
  show "(w * 262144 + x * 4096 + y * 64 + z) div 262144 = w"
    "(w * 262144 + x * 4096 + y * 64 + z) div 4096 mod 64 = x"
    "(w * 262144 + x * 4096 + y * 64 + z) div 64 mod 64 = y"
    "(w * 262144 + x * 4096 + y * 64 + z) mod 64 = z" by (simp_all only: e4 d 1 2 3)
qed

lemma utf8_next_inverse:
  assumes "utf8_next bs = Some (n, r)"
  shows "code_point n \<and> utf8_char n @ r = bs"
proof -
  from assms obtain a t where bs: "bs = a # t" by (auto simp: utf8_next_def split: list.splits)
  consider "a < 0x80" | "0xC2 \<le> a" "a < 0xE0" | "0xE0 \<le> a" "a < 0xF0" | "0xF0 \<le> a" "a < 0xF5"
    using assms bs by (auto simp: utf8_next_def split: if_splits)
  then show ?thesis
  proof cases
    case 1
    with assms bs show ?thesis by (auto simp: utf8_next_def utf8_char_def code_point_def)
  next
    case 2
    with assms bs obtain b where b: "t = b # r" "continuation b" "n = (a - 0xC0) * 64 + (b - 0x80)"
      by (auto simp: utf8_next_def split: list.splits if_splits)
    then have l: "a - 0xC0 < 64" "b - 0x80 < 64" using 2 by (auto simp: continuation_def)
    note g = compose_groups(1,2) [OF l(1) l]
    have "0x80 \<le> n" "n < 0x800" using 2 b l by simp_all
    moreover have "n div 64 = a - 0xC0" "n mod 64 = b - 0x80" unfolding b(3) by (rule g)+
    ultimately show ?thesis using b(1,2) 2 bs
      by (simp add: utf8_char_def code_point_def continuation_def)
  next
    case 3
    with assms bs obtain b c where b: "t = b # c # r" "continuation b" "continuation c" "0x800 \<le> n" "code_point n"
      "n = (a - 0xE0) * 4096 + (b - 0x80) * 64 + (c - 0x80)"
      by (auto simp: utf8_next_def Let_def split: list.splits if_splits)
    then have l: "b - 0x80 < 64" "c - 0x80 < 64" "a - 0xE0 < 64" using 3 by (auto simp: continuation_def)
    note g = compose_groups(3-5) [OF l(3,1,2)]
    have "a - 0xE0 \<le> 15" using 3 by linarith
    then have "n < 0x10000" using b(6) l by linarith
    moreover have "n div 4096 = a - 0xE0" "n div 64 mod 64 = b - 0x80" "n mod 64 = c - 0x80"
      unfolding b(6) by (rule g)+
    ultimately show ?thesis using b(1-5) 3 bs by (simp add: utf8_char_def continuation_def)
  next
    case 4
    with assms bs obtain b c d where b: "t = b # c # d # r" "continuation b" "continuation c" "continuation d"
      "0x10000 \<le> n" "code_point n"
      "n = (a - 0xF0) * 262144 + (b - 0x80) * 4096 + (c - 0x80) * 64 + (d - 0x80)"
      by (auto simp: utf8_next_def Let_def split: list.splits if_splits)
    then have l: "b - 0x80 < 64" "c - 0x80 < 64" "d - 0x80 < 64" by (auto simp: continuation_def)
    note g = compose_groups(6-9) [OF l, of "a - 0xF0"]
    have "n div 262144 = a - 0xF0" "n div 4096 mod 64 = b - 0x80" "n div 64 mod 64 = c - 0x80"
      "n mod 64 = d - 0x80" unfolding b(7) by (rule g)+
    then show ?thesis using b(1-6) 4 bs by (simp add: utf8_char_def continuation_def)
  qed
qed

lemma utf8_points_concat:
  "(\<And>n. n \<in> set ns \<Longrightarrow> code_point n) \<Longrightarrow> utf8_points (concat (map utf8_char ns)) = Some ns"
proof (induction ns)
  case (Cons n ns)
  have "utf8_char n \<noteq> []" by (simp add: utf8_char_def)
  with Cons show ?case by (subst utf8_points.simps) (simp add: utf8_next_utf8_char)
qed (simp add: utf8_points.simps)

lemma utf8_points_inverse:
  "utf8_points bs = Some ns \<Longrightarrow> list_all code_point ns \<and> concat (map utf8_char ns) = bs"
proof (induction bs arbitrary: ns rule: utf8_points.induct)
  case (1 bs)
  show ?case
  proof (cases "bs = []")
    case True
    with 1 show ?thesis by (simp add: utf8_points.simps)
  next
    case False
    with 1(2) obtain n r ms where n: "utf8_next bs = Some (n, r)" "utf8_points r = Some ms" "ns = n # ms"
      by (subst (asm) utf8_points.simps) (auto split: option.splits)
    with 1(1) [OF False n(1) refl] utf8_next_inverse [OF n(1)] show ?thesis by auto
  qed
qed

lemma length_utf8_points: "utf8_points bs = Some ns \<Longrightarrow> length ns \<le> length bs"
proof (induction bs arbitrary: ns rule: utf8_points.induct)
  case (1 bs)
  show ?case
  proof (cases "bs = []")
    case True
    with 1 show ?thesis by (simp add: utf8_points.simps)
  next
    case False
    with 1(2) obtain n r ms where n: "utf8_next bs = Some (n, r)" "utf8_points r = Some ms" "ns = n # ms"
      by (subst (asm) utf8_points.simps) (auto split: option.splits)
    with 1(1) [OF False n(1) refl n(2)] utf8_next_shorter [OF n(1)] show ?thesis by simp
  qed
qed

lemma to_bytes_from_bytes:
  assumes "from_bytes bs = Inr cs"
  shows "to_bytes cs = Inr bs"
proof -
  from assms obtain ns where ns: "utf8_points (map unat bs) = Some ns" "cs = map of_nat ns"
    by (auto simp: from_bytes_def split: option.splits)
  note inv = utf8_points_inverse [OF ns(1)]
  have small: "unat (of_nat n :: char32) = n" if "n \<in> set ns" for n
    using that inv by (intro unat_of_nat_below) (auto simp: list_all_iff code_point_def)
  then have "map (\<lambda>c. utf8_char (unat c)) cs = map utf8_char ns" by (simp add: ns(2))
  moreover have "list_all (\<lambda>c. code_point (unat c)) cs" using inv small by (simp add: ns(2) list_all_iff)
  ultimately show ?thesis using inv by (simp add: to_bytes_def o_def)
qed

lemma utf8_char_bytes: "code_point n \<Longrightarrow> b \<in> set (utf8_char n) \<Longrightarrow> b < 256"
  by (auto simp: utf8_char_def code_point_def split: if_splits)

lemma from_bytes_to_bytes:
  assumes "to_bytes cs = Inr bs"
  shows "from_bytes bs = Inr cs"
proof -
  from assms have ok: "\<And>c. c \<in> set cs \<Longrightarrow> code_point (unat c)"
    and bs: "bs = map of_nat (concat (map utf8_char (map unat cs)))"
    by (auto simp: to_bytes_def list_all_iff o_def split: if_splits)
  have "unat (of_nat b :: byte) = b" if "b \<in> set (concat (map utf8_char (map unat cs)))" for b
    using that ok by (intro unat_of_nat_below) (auto dest: utf8_char_bytes)
  then have "map unat bs = concat (map utf8_char (map unat cs))"
    unfolding bs map_map by (intro map_idI) simp
  moreover have "utf8_points (concat (map utf8_char (map unat cs))) = Some (map unat cs)"
    by (rule utf8_points_concat) (use ok in auto)
  ultimately have "utf8_points (map unat bs) = Some (map unat cs)" by simp
  then show ?thesis by (simp add: from_bytes_def o_def)
qed

lemma length_from_bytes: "from_bytes bs = Inr cs \<Longrightarrow> length cs \<le> length bs"
  using length_utf8_points [of "map unat bs"] by (auto simp: from_bytes_def split: option.splits)

end
