(* ===== verification/Text_Input.thy ===== *)
theory Text_Input
  imports Utf8
begin

text \<open>
  \<^verbatim>\<open>shell/platform/common/cpp/text_input_model.cc\<close>: the text of the focused input client with its
  selection. The two iterators are offsets into the text. A JSON value is code of another library,
  so the client configuration is read through a parameter \<open>json_reader\<close>; the JSON document \<^verbatim>\<open>GetState\<close> builds is its sequence of members.
\<close>

record text_input_model =
  tim_text :: "char32 list"
  client_id :: "32 word"
  input_type :: "byte list"
  input_action :: "byte list"
  selection_base :: nat
  selection_extent :: nat

definition kTextInputAction :: string where
  "kTextInputAction = ''inputAction''"

definition kTextInputType :: string where
  "kTextInputType = ''inputType''"

definition kTextInputTypeName :: string where
  "kTextInputTypeName = ''name''"

text \<open>
  What the code reads of a JSON value: \<open>find_member\<close> of an object, \<open>element\<close> of an array (None beyond
  its end), \<open>get_string\<close> and \<open>get_int\<close> (None at a value of another kind). Asking for a member of
  something that is no object, or for a value of the wrong kind, fails an assertion of the library.
\<close>

record 'j json_reader =
  is_null :: "'j \<Rightarrow> bool"
  is_object :: "'j \<Rightarrow> bool"
  find_member :: "'j \<Rightarrow> string \<Rightarrow> 'j option"
  element :: "'j \<Rightarrow> nat \<Rightarrow> 'j option"
  get_string :: "'j \<Rightarrow> byte list option"
  get_int :: "'j \<Rightarrow> 32 word option"

text \<open>A string object made from a character pointer ends at the first NUL.\<close>

definition c_string :: "byte list \<Rightarrow> byte list" where
  "c_string s = takeWhile (\<lambda>b. b \<noteq> 0) s"

definition TextInputModel :: "'j json_reader \<Rightarrow> 32 word \<Rightarrow> 'j \<Rightarrow> text_input_model" where
  "TextInputModel js cid config =
     (let m = \<lparr>tim_text = [], client_id = cid, input_type = [], input_action = [],
               selection_base = 0, selection_extent = 0\<rparr> in
      if is_object js config then
        let m1 = (case Option.bind (find_member js config kTextInputAction) (get_string js) of
                    Some s \<Rightarrow> m\<lparr>input_action := c_string s\<rparr> | None \<Rightarrow> m) in
        (case find_member js config kTextInputType of
           None \<Rightarrow> m1
         | Some info \<Rightarrow>
             if is_object js info then
               (case Option.bind (find_member js info kTextInputTypeName) (get_string js) of
                  Some s \<Rightarrow> m1\<lparr>input_type := c_string s\<rparr> | None \<Rightarrow> m1)
             else m1)
      else m)"

text \<open>
  A failed conversion leaves the model as it is. Forming an iterator beyond the end of the text is
  undefined.
\<close>

definition SetEditingState ::
    "nat \<Rightarrow> nat \<Rightarrow> byte list \<Rightarrow> text_input_model \<Rightarrow> (bool \<times> text_input_model) res" where
  "SetEditingState base extent text m =
     (if base > extent then Inr (False, m)
      else if extent > length text then Inr (False, m)
      else
        bind_res (from_bytes text) (\<lambda>cs.
        bind_res (guard BadIterator (extent \<le> length cs)) (\<lambda>_.
          Inr (True, m\<lparr>tim_text := cs, selection_base := base, selection_extent := extent\<rparr>))))"

text \<open>\<^verbatim>\<open>erase(first, last)\<close> returns the position of the first character after the erased ones.\<close>

definition erase_range :: "nat \<Rightarrow> nat \<Rightarrow> 'a list \<Rightarrow> ('a list \<times> nat) res" where
  "erase_range first limit xs =
     bind_res (guard BadIterator (first \<le> limit \<and> limit \<le> length xs)) (\<lambda>_.
       Inr (take first xs @ drop limit xs, first))"

definition insert_at :: "nat \<Rightarrow> 'a \<Rightarrow> 'a list \<Rightarrow> ('a list \<times> nat) res" where
  "insert_at pos x xs =
     bind_res (guard BadIterator (pos \<le> length xs)) (\<lambda>_. Inr (take pos xs @ x # drop pos xs, pos))"

definition DeleteSelected :: "text_input_model \<Rightarrow> text_input_model res" where
  "DeleteSelected m =
     bind_res (erase_range (selection_base m) (selection_extent m) (tim_text m)) (\<lambda>(text, base).
       Inr (m\<lparr>tim_text := text, selection_base := base, selection_extent := base\<rparr>))"

definition AddCharacter :: "char32 \<Rightarrow> text_input_model \<Rightarrow> text_input_model res" where
  "AddCharacter c m =
     bind_res (if selection_base m \<noteq> selection_extent m then DeleteSelected m else Inr m) (\<lambda>m1.
     bind_res (insert_at (selection_extent m1) c (tim_text m1)) (\<lambda>(text, extent).
       Inr (m1\<lparr>tim_text := text, selection_extent := extent + 1, selection_base := extent + 1\<rparr>)))"

definition Backspace :: "text_input_model \<Rightarrow> (bool \<times> text_input_model) res" where
  "Backspace m =
     (if selection_base m \<noteq> selection_extent m then
        bind_res (DeleteSelected m) (\<lambda>m1. Inr (True, m1))
      else if selection_base m \<noteq> 0 then
        bind_res (erase_range (selection_base m - 1) (selection_base m) (tim_text m)) (\<lambda>(text, base).
          Inr (True, m\<lparr>tim_text := text, selection_base := base, selection_extent := base\<rparr>))
      else Inr (False, m))"

definition Delete :: "text_input_model \<Rightarrow> (bool \<times> text_input_model) res" where
  "Delete m =
     (if selection_base m \<noteq> selection_extent m then
        bind_res (DeleteSelected m) (\<lambda>m1. Inr (True, m1))
      else if selection_base m \<noteq> length (tim_text m) then
        bind_res (erase_range (selection_base m) (selection_base m + 1) (tim_text m)) (\<lambda>(text, base).
          Inr (True, m\<lparr>tim_text := text, selection_base := base, selection_extent := base\<rparr>))
      else Inr (False, m))"

definition MoveCursorToBeginning :: "text_input_model \<Rightarrow> text_input_model" where
  "MoveCursorToBeginning m = m\<lparr>selection_base := 0, selection_extent := 0\<rparr>"

definition MoveCursorToEnd :: "text_input_model \<Rightarrow> text_input_model" where
  "MoveCursorToEnd m =
     m\<lparr>selection_base := length (tim_text m), selection_extent := length (tim_text m)\<rparr>"

definition MoveCursorForward :: "text_input_model \<Rightarrow> bool \<times> text_input_model" where
  "MoveCursorForward m =
     (if selection_base m \<noteq> selection_extent m then
        (True, m\<lparr>selection_base := selection_extent m\<rparr>)
      else if selection_extent m \<noteq> length (tim_text m) then
        (True, m\<lparr>selection_extent := selection_extent m + 1, selection_base := selection_base m + 1\<rparr>)
      else (False, m))"

definition MoveCursorBack :: "text_input_model \<Rightarrow> bool \<times> text_input_model" where
  "MoveCursorBack m =
     (if selection_base m \<noteq> selection_extent m then
        (True, m\<lparr>selection_extent := selection_base m\<rparr>)
      else if selection_base m \<noteq> 0 then
        (True, m\<lparr>selection_base := selection_base m - 1, selection_extent := selection_extent m - 1\<rparr>)
      else (False, m))"

datatype state_member = MInt "32 word" | MString "byte list" | MText string | MBool bool

text \<open>The editing state: the client, then the members in the order they are added.\<close>

definition GetState :: "text_input_model \<Rightarrow> (32 word \<times> (string \<times> state_member) list) res" where
  "GetState m =
     bind_res (to_bytes (tim_text m)) (\<lambda>text.
       Inr (client_id m,
         [(''composingBase'', MInt (- 1)),
          (''composingExtent'', MInt (- 1)),
          (''selectionAffinity'', MText ''TextAffinity.downstream''),
          (''selectionBase'', MInt (of_nat (selection_base m))),
          (''selectionExtent'', MInt (of_nat (selection_extent m))),
          (''selectionIsDirectional'', MBool False),
          (''text'', MString text)]))"

section \<open>Editing as a zipper\<close>

text \<open>
  The specification of an input client: the text before the selection, the selected text, the text
  after it.
\<close>

type_synonym zipper = "char32 list \<times> char32 list \<times> char32 list"

definition selection_ok :: "text_input_model \<Rightarrow> bool" where
  "selection_ok m \<longleftrightarrow> selection_base m \<le> selection_extent m \<and> selection_extent m \<le> length (tim_text m)"

definition zipper_of :: "text_input_model \<Rightarrow> zipper" where
  "zipper_of m =
     (take (selection_base m) (tim_text m),
      take (selection_extent m - selection_base m) (drop (selection_base m) (tim_text m)),
      drop (selection_extent m) (tim_text m))"

definition type_char :: "char32 \<Rightarrow> zipper \<Rightarrow> zipper" where
  "type_char c z = (case z of (l, s, r) \<Rightarrow> (l @ [c], [], r))"

definition erase_back :: "zipper \<Rightarrow> bool \<times> zipper" where
  "erase_back z = (case z of (l, s, r) \<Rightarrow>
     if s \<noteq> [] then (True, (l, [], r)) else (l \<noteq> [], (butlast l, [], r)))"

definition erase_ahead :: "zipper \<Rightarrow> bool \<times> zipper" where
  "erase_ahead z = (case z of (l, s, r) \<Rightarrow>
     if s \<noteq> [] then (True, (l, [], r)) else (r \<noteq> [], (l, [], tl r)))"

definition step_right :: "zipper \<Rightarrow> bool \<times> zipper" where
  "step_right z = (case z of (l, s, r) \<Rightarrow>
     if s \<noteq> [] then (True, (l @ s, [], r)) else (r \<noteq> [], (l @ take 1 r, [], tl r)))"

definition step_left :: "zipper \<Rightarrow> bool \<times> zipper" where
  "step_left z = (case z of (l, s, r) \<Rightarrow>
     if s \<noteq> [] then (True, (l, [], s @ r))
     else (l \<noteq> [], (butlast l, [], drop (length l - 1) l @ r)))"

definition whole_text :: "zipper \<Rightarrow> char32 list" where
  "whole_text z = (case z of (l, s, r) \<Rightarrow> l @ s @ r)"

text \<open>The model of a zipper: its text is the three parts, its iterators are at their borders.\<close>

definition shows_zipper :: "text_input_model \<Rightarrow> zipper \<Rightarrow> bool" where
  "shows_zipper m z = (case z of (l, s, r) \<Rightarrow>
     tim_text m = l @ s @ r \<and> selection_base m = length l \<and>
     selection_extent m = length l + length s)"

lemma shows_zipper_of:
  assumes "selection_ok m"
  shows "shows_zipper m (zipper_of m)"
proof -
  have "drop (selection_extent m) (tim_text m) =
      drop (selection_extent m - selection_base m) (drop (selection_base m) (tim_text m))"
    using assms by (simp add: selection_ok_def)
  then have "take (selection_extent m - selection_base m) (drop (selection_base m) (tim_text m)) @
      drop (selection_extent m) (tim_text m) = drop (selection_base m) (tim_text m)"
    by (metis append_take_drop_id)
  then show ?thesis using assms by (auto simp: shows_zipper_def zipper_of_def selection_ok_def)
qed

lemma shows_zipper_iff: "shows_zipper m z \<longleftrightarrow> selection_ok m \<and> zipper_of m = z"
proof
  assume "shows_zipper m z"
  then show "selection_ok m \<and> zipper_of m = z"
    by (cases z) (simp add: shows_zipper_def zipper_of_def selection_ok_def)
qed (use shows_zipper_of in blast)

named_theorems editing \<open>the operations of the model and of its specification\<close>

lemmas [editing] = DeleteSelected_def AddCharacter_def Backspace_def Delete_def
  MoveCursorToBeginning_def MoveCursorToEnd_def MoveCursorForward_def MoveCursorBack_def
  erase_range_def insert_at_def guard_def type_char_def erase_back_def erase_ahead_def
  step_right_def step_left_def shows_zipper_def

lemma AddCharacter_zipper:
  "shows_zipper m z \<Longrightarrow> \<exists>m'. AddCharacter c m = Inr m' \<and> shows_zipper m' (type_char c z)"
  by (cases z; cases "fst (snd z)") (auto simp: editing)

lemma Backspace_zipper:
  "shows_zipper m z \<Longrightarrow> \<exists>m'. Backspace m = Inr (fst (erase_back z), m') \<and> shows_zipper m' (snd (erase_back z))"
  by (cases z; cases "fst (snd z)"; cases "fst z" rule: rev_cases) (auto simp: editing)

lemma Delete_zipper:
  "shows_zipper m z \<Longrightarrow> \<exists>m'. Delete m = Inr (fst (erase_ahead z), m') \<and> shows_zipper m' (snd (erase_ahead z))"
  by (cases z; cases "fst (snd z)"; cases "snd (snd z)") (auto simp: editing)

lemma MoveCursorForward_zipper:
  "shows_zipper m z \<Longrightarrow> fst (MoveCursorForward m) = fst (step_right z) \<and>
     shows_zipper (snd (MoveCursorForward m)) (snd (step_right z))"
  by (cases z; cases "fst (snd z)"; cases "snd (snd z)") (auto simp: editing)

lemma MoveCursorBack_zipper:
  "shows_zipper m z \<Longrightarrow> fst (MoveCursorBack m) = fst (step_left z) \<and>
     shows_zipper (snd (MoveCursorBack m)) (snd (step_left z))"
  by (cases z; cases "fst (snd z)"; cases "fst z" rule: rev_cases) (auto simp: editing)

lemma MoveCursorTo_zipper:
  "shows_zipper m z \<Longrightarrow> shows_zipper (MoveCursorToBeginning m) ([], [], whole_text z)"
  "shows_zipper m z \<Longrightarrow> shows_zipper (MoveCursorToEnd m) (whole_text z, [], [])"
  by (cases z; simp add: editing whole_text_def)+

text \<open>The text of the client at a new model and after a change of the editing state.\<close>

lemma TextInputModel_zipper: "shows_zipper (TextInputModel js cid config) ([], [], [])"
  by (simp add: TextInputModel_def shows_zipper_def Let_def split: option.splits)

lemma SetEditingState_cases:
  assumes "selection_ok m" "SetEditingState b e text m = Inr (changed, m')"
  shows "selection_ok m'" "client_id m' = client_id m"
    "changed \<Longrightarrow> from_bytes text = Inr (tim_text m') \<and> selection_base m' = b \<and> selection_extent m' = e"
    "\<not> changed \<Longrightarrow> m' = m"
  using assms
  by (auto simp: SetEditingState_def selection_ok_def guard_def bind_res_eq_Inr split: if_splits)

lemma SetEditingState_error:
  "SetEditingState b e text m = Inl x \<longleftrightarrow>
     b \<le> e \<and> e \<le> length text \<and>
     (case from_bytes text of Inl err \<Rightarrow> x = err | Inr cs \<Rightarrow> x = BadIterator \<and> length cs < e)"
  by (auto simp: SetEditingState_def guard_def bind_res_def split: sum.splits)

lemma GetState_Inr:
  "GetState m = Inr st \<longleftrightarrow> (\<exists>text. to_bytes (tim_text m) = Inr text \<and>
     st = (client_id m,
       [(''composingBase'', MInt (- 1)), (''composingExtent'', MInt (- 1)),
        (''selectionAffinity'', MText ''TextAffinity.downstream''),
        (''selectionBase'', MInt (of_nat (selection_base m))),
        (''selectionExtent'', MInt (of_nat (selection_extent m))),
        (''selectionIsDirectional'', MBool False), (''text'', MString text)]))"
  by (auto simp: GetState_def bind_res_eq_Inr)

lemma euro_bytes:
  "from_bytes [0xE2, 0x82, 0xAC] = Inr [0x20AC]"
  "from_bytes [0x68, 0xE2, 0x82, 0xAC] = Inr [0x68, 0x20AC]"
  by (simp_all add: from_bytes_def utf8_points.simps utf8_next_def continuation_def code_point_def)

text \<open>
  C26. What the framework sets it reads back: after a successful \<^verbatim>\<open>SetEditingState\<close> the state sent to the
  framework has the same bytes as text and the same selection.
\<close>

theorem editing_state_round_trip:
  assumes "SetEditingState b e text m = Inr (True, m')"
  shows "\<exists>st. GetState m' = Inr (client_id m, st) \<and>
    map_of st ''text'' = Some (MString text) \<and>
    map_of st ''selectionBase'' = Some (MInt (of_nat b)) \<and>
    map_of st ''selectionExtent'' = Some (MInt (of_nat e))"
proof -
  have m': "from_bytes text = Inr (tim_text m')" "selection_base m' = b" "selection_extent m' = e"
    "client_id m' = client_id m"
    using assms by (auto simp: SetEditingState_def guard_def bind_res_eq_Inr split: if_splits)
  show ?thesis using to_bytes_from_bytes [OF m'(1)] m' by (simp add: GetState_def)
qed

lemma editing_state_round_trip_witness:
  "\<exists>st. GetState \<lparr>tim_text = [0x68, 0x20AC], client_id = 7, input_type = [], input_action = [],
      selection_base = 1, selection_extent = 2\<rparr> = Inr (7, st) \<and>
    map_of st ''text'' = Some (MString [0x68, 0xE2, 0x82, 0xAC])"
proof -
  have "SetEditingState 1 2 [0x68, 0xE2, 0x82, 0xAC] \<lparr>tim_text = [], client_id = 7, input_type = [],
      input_action = [], selection_base = 0, selection_extent = 0\<rparr> =
    Inr (True, \<lparr>tim_text = [0x68, 0x20AC], client_id = 7, input_type = [], input_action = [],
      selection_base = 1, selection_extent = 2\<rparr>)"
    by (simp add: SetEditingState_def euro_bytes)
  from editing_state_round_trip [OF this] show ?thesis by auto
qed

text \<open>
  C27. The selection is checked against the number of bytes of the text, and used as an offset into
  its characters: a valid UTF-8 text makes \<^verbatim>\<open>SetEditingState\<close> form an iterator beyond the end of the text
  exactly if the extent is between the two lengths.
\<close>

theorem selection_checked_in_bytes:
  "from_bytes text = Inr cs \<Longrightarrow>
     SetEditingState b e text m = Inl BadIterator \<longleftrightarrow> b \<le> e \<and> length cs < e \<and> e \<le> length text"
  by (auto simp: SetEditingState_error)

lemma selection_checked_in_bytes_witness:
  "SetEditingState 0 3 [0xE2, 0x82, 0xAC] \<lparr>tim_text = [], client_id = 7, input_type = [],
     input_action = [], selection_base = 0, selection_extent = 0\<rparr> = Inl BadIterator"
proof -
  have "from_bytes [0xE2, 0x82, 0xAC] = Inr [0x20AC]" by (rule euro_bytes)
  from selection_checked_in_bytes [OF this] show ?thesis by simp
qed

end
