(* ===== verification/Message_Channel.thy ===== *)
theory Message_Channel
  imports Standard_Codec_Correct
begin

text \<open>
  Messages between the engine and the plugins of a desktop embedder, bottom up: the dispatcher of
  incoming messages (\<^verbatim>\<open>incoming_message_dispatcher.cc\<close>), the messenger of a plugin registrar
  (\<^verbatim>\<open>plugin_registrar.cc\<close>), the reply of a method call (\<^verbatim>\<open>engine_method_result\<close>), and the two kinds of
  channels (\<^verbatim>\<open>method_channel.h\<close>, \<^verbatim>\<open>basic_message_channel.h\<close>) over a codec. The engine is reached
  through the events the code sends it. Handlers are arbitrary code: \<open>run\<close> says what a handler does
  with a message, \<open>crun\<close> what a callback of a C client does.
\<close>

section \<open>The dispatcher and the messenger\<close>

type_synonym channel = "byte list"

record desktop_message =
  dm_channel :: channel
  dm_message :: "byte list"
  dm_response_handle :: "nat option"

text \<open>
  A registered callback: \<^verbatim>\<open>ForwardToHandler\<close> with the address of the handler a messenger keeps for a
  channel, or a callback of another client with its user data.
\<close>

datatype 'c callback_info = ForwardTo nat channel | ClientCallback 'c

record ('c, 'h) messengers =
  mg_handlers :: "nat \<Rightarrow> channel \<rightharpoonup> 'h"
  mg_callbacks :: "channel \<rightharpoonup> 'c callback_info"
  mg_blocking :: "channel set"

datatype event =
    SendResponse "nat option" "byte list"
  | BlockInput
  | UnblockInput
  | CreateResponseHandle
  | SendPlatformMessage channel "byte list" bool
  | ReleaseResponseHandle

definition SetMessageCallback ::
    "channel \<Rightarrow> 'c callback_info option \<Rightarrow> ('c, 'h) messengers \<Rightarrow> ('c, 'h) messengers" where
  "SetMessageCallback ch cb w =
     (case cb of
        None \<Rightarrow> w\<lparr>mg_callbacks := (mg_callbacks w)(ch := None)\<rparr>
      | Some c \<Rightarrow> w\<lparr>mg_callbacks := (mg_callbacks w)(ch \<mapsto> c)\<rparr>)"

definition EnableInputBlockingForChannel :: "channel \<Rightarrow> ('c, 'h) messengers \<Rightarrow> ('c, 'h) messengers" where
  "EnableInputBlockingForChannel ch w = w\<lparr>mg_blocking := insert ch (mg_blocking w)\<rparr>"

text \<open>
  A reply is a function object that holds the response handle until it is called. A handler can call
  the one it is given, which is number 0, and copies of it: a copy holds the handle its original has
  at that moment.
\<close>

datatype reply_action = CallReply nat "byte list" | CopyReply nat nat

fun run_replies :: "(nat \<Rightarrow> nat option) \<Rightarrow> reply_action list \<Rightarrow> event list" where
  "run_replies held [] = []"
| "run_replies held (CallReply i d # as) =
     (case held i of
        None \<Rightarrow> run_replies held as
      | Some h \<Rightarrow> SendResponse (Some h) d # run_replies (held(i := None)) as)"
| "run_replies held (CopyReply i j # as) = run_replies (held(j := held i)) as"

type_synonym ('c, 'h) handler_code =
  "'h \<Rightarrow> byte list \<Rightarrow> ('c, 'h) messengers \<Rightarrow> (reply_action list \<times> ('c, 'h) messengers) res"

definition ForwardToHandler ::
    "('c, 'h) handler_code \<Rightarrow> nat \<Rightarrow> channel \<Rightarrow> desktop_message \<Rightarrow> ('c, 'h) messengers \<Rightarrow>
     (event list \<times> ('c, 'h) messengers) res" where
  "ForwardToHandler run n ch m w =
     bind_res (deref_key (mg_handlers w n) ch) (\<lambda>h.
     bind_res (run h (dm_message m) w) (\<lambda>(as, w').
       Inr (run_replies ((\<lambda>_. None)(0 := dm_response_handle m)) as, w')))"

definition run_callback ::
    "('c, 'h) handler_code \<Rightarrow>
     ('c \<Rightarrow> desktop_message \<Rightarrow> ('c, 'h) messengers \<Rightarrow> (event list \<times> ('c, 'h) messengers) res) \<Rightarrow>
     'c callback_info \<Rightarrow> desktop_message \<Rightarrow> ('c, 'h) messengers \<Rightarrow> (event list \<times> ('c, 'h) messengers) res" where
  "run_callback run crun cb m w =
     (case cb of ForwardTo n ch \<Rightarrow> ForwardToHandler run n ch m w | ClientCallback c \<Rightarrow> crun c m w)"

definition HandleMessage ::
    "('c, 'h) handler_code \<Rightarrow>
     ('c \<Rightarrow> desktop_message \<Rightarrow> ('c, 'h) messengers \<Rightarrow> (event list \<times> ('c, 'h) messengers) res) \<Rightarrow>
     desktop_message \<Rightarrow> ('c, 'h) messengers \<Rightarrow> (event list \<times> ('c, 'h) messengers) res" where
  "HandleMessage run crun m w =
     (case mg_callbacks w (dm_channel m) of
        None \<Rightarrow> Inr ([SendResponse (dm_response_handle m) []], w)
      | Some cb \<Rightarrow>
          let block_input = dm_channel m \<in> mg_blocking w in
          bind_res (run_callback run crun cb m w) (\<lambda>(evs, w').
            Inr ((if block_input then [BlockInput] else []) @ evs @
                 (if block_input then [UnblockInput] else []), w')))"

definition SetMessageHandler ::
    "nat \<Rightarrow> channel \<Rightarrow> 'h option \<Rightarrow> ('c, 'h) messengers \<Rightarrow> ('c, 'h) messengers" where
  "SetMessageHandler n ch handler w =
     (case handler of
        None \<Rightarrow>
          SetMessageCallback ch None
            (w\<lparr>mg_handlers := (mg_handlers w)(n := (mg_handlers w n)(ch := None))\<rparr>)
      | Some h \<Rightarrow>
          SetMessageCallback ch (Some (ForwardTo n ch))
            (w\<lparr>mg_handlers := (mg_handlers w)(n := (mg_handlers w n)(ch \<mapsto> h))\<rparr>))"

text \<open>
  Sending. The engine decides whether a response handle can be created and whether the message is
  accepted. The result is whether the message was sent, with the calls made to the engine.
\<close>

definition FlutterDesktopMessengerSendWithReply ::
    "bool \<Rightarrow> bool \<Rightarrow> channel \<Rightarrow> byte list \<Rightarrow> bool \<Rightarrow> event list \<times> bool" where
  "FlutterDesktopMessengerSendWithReply create_ok send_ok ch message has_reply =
     (if has_reply \<and> \<not> create_ok then ([CreateResponseHandle], False)
      else ((if has_reply then [CreateResponseHandle] else []) @
            [SendPlatformMessage ch message has_reply] @
            (if has_reply then [ReleaseResponseHandle] else []), send_ok))"

definition FlutterDesktopMessengerSend ::
    "bool \<Rightarrow> channel \<Rightarrow> byte list \<Rightarrow> event list \<times> bool" where
  "FlutterDesktopMessengerSend send_ok ch message =
     FlutterDesktopMessengerSendWithReply True send_ok ch message False"

text \<open>
  A messenger sends with a reply by allocating captures for it; the third component says whether they
  are still allocated when the call returns, and then the response frees them.
\<close>

definition Send ::
    "bool \<Rightarrow> bool \<Rightarrow> channel \<Rightarrow> byte list \<Rightarrow> bool \<Rightarrow> event list \<times> bool" where
  "Send create_ok send_ok ch message has_reply =
     (if \<not> has_reply then (fst (FlutterDesktopMessengerSend send_ok ch message), False)
      else FlutterDesktopMessengerSendWithReply create_ok send_ok ch message True)"

section \<open>Results of method calls\<close>

record ('k, 'v) method_codec =
  EncodeMethodCall :: "'k \<Rightarrow> byte list res"
  DecodeMethodCall :: "byte list \<Rightarrow> 'k option res"
  EncodeSuccessEnvelope :: "'v option \<Rightarrow> byte list res"
  EncodeErrorEnvelope :: "byte list \<Rightarrow> byte list \<Rightarrow> 'v option \<Rightarrow> byte list res"

datatype 'v method_reply = Success "'v option" | Error "byte list" "byte list" "'v option" | NotImplemented

text \<open>The reply manager holds the reply until it has been used.\<close>

type_synonym reply_manager = "nat option"

definition ReplyManager :: "nat option \<Rightarrow> reply_manager res" where
  "ReplyManager reply = bind_res (guard AssertFailed (reply \<noteq> None)) (\<lambda>_. Inr reply)"

definition SendResponseData :: "byte list option \<Rightarrow> reply_manager \<Rightarrow> reply_action list \<times> reply_manager" where
  "SendResponseData data rm =
     (case rm of
        None \<Rightarrow> ([], None)
      | Some i \<Rightarrow> ([CallReply i (case data of None \<Rightarrow> [] | Some d \<Rightarrow> d)], None))"

definition SuccessInternal ::
    "('k, 'v) method_codec \<Rightarrow> 'v option \<Rightarrow> reply_manager \<Rightarrow> (reply_action list \<times> reply_manager) res" where
  "SuccessInternal codec r rm =
     bind_res (EncodeSuccessEnvelope codec r) (\<lambda>d. Inr (SendResponseData (Some d) rm))"

definition ErrorInternal ::
    "('k, 'v) method_codec \<Rightarrow> byte list \<Rightarrow> byte list \<Rightarrow> 'v option \<Rightarrow> reply_manager \<Rightarrow>
     (reply_action list \<times> reply_manager) res" where
  "ErrorInternal codec code message details rm =
     bind_res (EncodeErrorEnvelope codec code message details) (\<lambda>d. Inr (SendResponseData (Some d) rm))"

definition NotImplementedInternal :: "reply_manager \<Rightarrow> (reply_action list \<times> reply_manager) res" where
  "NotImplementedInternal rm = Inr (SendResponseData None rm)"

definition method_result ::
    "('k, 'v) method_codec \<Rightarrow> 'v method_reply \<Rightarrow> reply_manager \<Rightarrow> (reply_action list \<times> reply_manager) res" where
  "method_result codec r rm =
     (case r of
        Success v \<Rightarrow> SuccessInternal codec v rm
      | Error code message details \<Rightarrow> ErrorInternal codec code message details rm
      | NotImplemented \<Rightarrow> NotImplementedInternal rm)"

text \<open>The calls a handler makes on its result, in their order.\<close>

fun method_results ::
    "('k, 'v) method_codec \<Rightarrow> 'v method_reply list \<Rightarrow> reply_manager \<Rightarrow> reply_action list res" where
  "method_results codec [] rm = Inr []"
| "method_results codec (r # rs) rm =
     bind_res (method_result codec r rm) (\<lambda>(as, rm').
     bind_res (method_results codec rs rm') (\<lambda>bs. Inr (as @ bs)))"

section \<open>Channels\<close>

text \<open>\<^verbatim>\<open>MethodChannel::SetMethodCallHandler\<close>: the binary handler of a method call handler.\<close>

definition method_binary_handler ::
    "('k, 'v) method_codec \<Rightarrow> ('k \<Rightarrow> 'v method_reply list) \<Rightarrow> byte list \<Rightarrow> reply_action list res" where
  "method_binary_handler codec handler message =
     bind_res (ReplyManager (Some 0)) (\<lambda>rm.
     bind_res (DecodeMethodCall codec message) (\<lambda>method_call.
       (case method_call of
          None \<Rightarrow> method_results codec [NotImplemented] rm
        | Some call \<Rightarrow> method_results codec (handler call) rm)))"

definition InvokeMethod ::
    "bool \<Rightarrow> bool \<Rightarrow> ('k, 'v) method_codec \<Rightarrow> channel \<Rightarrow> 'k \<Rightarrow> bool \<Rightarrow> (event list \<times> bool) res" where
  "InvokeMethod create_ok send_ok codec name call has_reply =
     bind_res (EncodeMethodCall codec call) (\<lambda>message.
       Inr (Send create_ok send_ok name message has_reply))"

record 'v message_codec =
  EncodeMessage :: "'v \<Rightarrow> byte list res"
  DecodeMessage :: "byte list \<Rightarrow> 'v option res"

text \<open>A handler of messages calls its reply, or copies of it, with messages.\<close>

datatype 'v message_action = CallMessageReply nat 'v | CopyMessageReply nat nat

fun message_replies :: "'v message_codec \<Rightarrow> 'v message_action list \<Rightarrow> reply_action list res" where
  "message_replies codec [] = Inr []"
| "message_replies codec (CallMessageReply i v # as) =
     bind_res (EncodeMessage codec v) (\<lambda>d.
     bind_res (message_replies codec as) (\<lambda>bs. Inr (CallReply i d # bs)))"
| "message_replies codec (CopyMessageReply i j # as) =
     bind_res (message_replies codec as) (\<lambda>bs. Inr (CopyReply i j # bs))"

definition message_binary_handler ::
    "'v message_codec \<Rightarrow> ('v \<Rightarrow> 'v message_action list) \<Rightarrow> byte list \<Rightarrow> reply_action list res" where
  "message_binary_handler codec handler binary_message =
     bind_res (DecodeMessage codec binary_message) (\<lambda>message.
       (case message of
          None \<Rightarrow> Inr [CallReply 0 []]
        | Some v \<Rightarrow> message_replies codec (handler v)))"

definition SendMessage ::
    "bool \<Rightarrow> bool \<Rightarrow> 'v message_codec \<Rightarrow> channel \<Rightarrow> 'v \<Rightarrow> bool \<Rightarrow> (event list \<times> bool) res" where
  "SendMessage create_ok send_ok codec name message has_reply =
     bind_res (EncodeMessage codec message) (\<lambda>raw_message.
       Inr (Send create_ok send_ok name raw_message has_reply))"

section \<open>Answering a call\<close>

lemma SendResponseData_used [simp]: "SendResponseData d None = ([], None)"
  by (simp add: SendResponseData_def)

text \<open>The bytes of a reply; no bytes stand for a call nobody implements.\<close>

definition envelope :: "('k, 'v) method_codec \<Rightarrow> 'v method_reply \<Rightarrow> byte list res" where
  "envelope codec r =
     (case r of
        Success v \<Rightarrow> EncodeSuccessEnvelope codec v
      | Error code message details \<Rightarrow> EncodeErrorEnvelope codec code message details
      | NotImplemented \<Rightarrow> Inr [])"

lemma method_result_envelope:
  "method_result codec r (Some i) = bind_res (envelope codec r) (\<lambda>d. Inr ([CallReply i d], None))"
  "method_result codec r None = bind_res (envelope codec r) (\<lambda>d. Inr ([], None))"
  by (cases r; simp add: method_result_def envelope_def SuccessInternal_def ErrorInternal_def
      NotImplementedInternal_def SendResponseData_def)+

text \<open>
  What the channels rely on in a codec: calls survive it, up to the form \<open>arrives\<close> they arrive in, and
  replies can always be encoded.
\<close>

locale call_codec =
  fixes codec :: "('k, 'v) method_codec"
    and call_ok :: "'k \<Rightarrow> bool"
    and arrives :: "'k \<Rightarrow> 'k"
  assumes call_survives:
      "call_ok c \<Longrightarrow> \<exists>m. EncodeMethodCall codec c = Inr m \<and> DecodeMethodCall codec m = Inr (Some (arrives c))"
    and reply_encodes: "\<exists>d. envelope codec r = Inr d"
begin

lemma method_results_used: "method_results codec rs None = Inr []"
proof (induction rs)
  case (Cons r rs)
  then show ?case using reply_encodes [of r] by (auto simp: method_result_envelope)
qed simp

lemma method_results_first:
  "method_results codec (r # rs) (Some i) = bind_res (envelope codec r) (\<lambda>d. Inr [CallReply i d])"
  using reply_encodes [of r] by (auto simp: method_result_envelope method_results_used)

lemma call_answered:
  assumes "call_ok c"
  shows "\<exists>m. EncodeMethodCall codec c = Inr m \<and>
    method_binary_handler codec handler m =
      (case handler (arrives c) of [] \<Rightarrow> Inr [] | r # rs \<Rightarrow> bind_res (envelope codec r) (\<lambda>d. Inr [CallReply 0 d]))"
proof -
  obtain m where "EncodeMethodCall codec c = Inr m" "DecodeMethodCall codec m = Inr (Some (arrives c))"
    using call_survives [OF assms] by blast
  then show ?thesis
    by (cases "handler (arrives c)")
      (simp_all add: method_binary_handler_def ReplyManager_def method_results_first del: method_results.simps(2))
qed

end

definition standard_method_codec :: "(nat \<Rightarrow> nat) \<Rightarrow> (method_call, encodable_value) method_codec" where
  "standard_method_codec addr =
     \<lparr>EncodeMethodCall = EncodeMethodCallInternal, DecodeMethodCall = DecodeMethodCallInternal addr,
      EncodeSuccessEnvelope = EncodeSuccessEnvelopeInternal,
      EncodeErrorEnvelope = EncodeErrorEnvelopeInternal\<rparr>"

definition standard_call_ok :: "method_call \<Rightarrow> bool" where
  "standard_call_ok c \<longleftrightarrow> length (method_name c) < 2 ^ 32 \<and> pred_option (\<lambda>v. codec_ok v) (mc_arguments c)"

definition standard_arrives :: "method_call \<Rightarrow> method_call" where
  "standard_arrives c =
     \<lparr>method_name = method_name c, mc_arguments = Some (case mc_arguments c of None \<Rightarrow> VNull | Some v \<Rightarrow> v)\<rparr>"

lemma write_optional_encodes: "\<exists>d. write_optional v s = Inr d"
  using WriteValue_appends by (cases v) (auto simp: write_optional_def)

interpretation standard: call_codec "standard_method_codec addr" standard_call_ok standard_arrives for addr
proof unfold_locales
  fix c assume "standard_call_ok c"
  then show "\<exists>m. EncodeMethodCall (standard_method_codec addr) c = Inr m \<and>
      DecodeMethodCall (standard_method_codec addr) m = Inr (Some (standard_arrives c))"
    using method_call_decodes [of c addr]
    by (simp add: standard_method_codec_def standard_call_ok_def standard_arrives_def)
next
  fix r :: "encodable_value method_reply"
  show "\<exists>d. envelope (standard_method_codec addr) r = Inr d"
  proof (cases r)
    case (Success v)
    then show ?thesis using write_optional_encodes
      by (simp add: envelope_def standard_method_codec_def EncodeSuccessEnvelopeInternal_def)
  next
    case (Error code message details)
    obtain s where "WriteValue (VString code) (WriteByte 1 []) = Inr s" using WriteValue_appends by blast
    moreover obtain t where "(if message = [] then WriteValue VNull s else WriteValue (VString message) s) = Inr t"
      using WriteValue_appends by (metis (full_types))
    moreover obtain d where "write_optional details t = Inr d" using write_optional_encodes by blast
    ultimately show ?thesis using Error
      by (simp add: envelope_def standard_method_codec_def EncodeErrorEnvelopeInternal_def
          del: WriteValue.simps)
  qed (simp add: envelope_def)
qed

section \<open>Dispatching\<close>

text \<open>The registrations messengers and C clients can make.\<close>

inductive registry :: "('c, 'h) messengers \<Rightarrow> bool" where
  registry_empty: "registry \<lparr>mg_handlers = \<lambda>_ _. None, mg_callbacks = \<lambda>_. None, mg_blocking = {}\<rparr>"
| registry_handler: "registry w \<Longrightarrow> registry (SetMessageHandler n ch h w)"
| registry_client: "registry w \<Longrightarrow> registry (SetMessageCallback ch (map_option ClientCallback c) w)"
| registry_blocking: "registry w \<Longrightarrow> registry (EnableInputBlockingForChannel ch w)"

definition handlers_alive :: "('c, 'h) messengers \<Rightarrow> bool" where
  "handlers_alive w \<longleftrightarrow>
     (\<forall>ch n k. mg_callbacks w ch = Some (ForwardTo n k) \<longrightarrow> k = ch \<and> mg_handlers w n k \<noteq> None)"

lemmas registration_defs = SetMessageHandler_def SetMessageCallback_def EnableInputBlockingForChannel_def

lemma registry_handlers_alive: "registry w \<Longrightarrow> handlers_alive w"
  by (induction rule: registry.induct)
    (auto simp: handlers_alive_def registration_defs split: option.splits if_splits)

lemma SetMessageHandler_registers:
  "mg_callbacks (SetMessageHandler n ch (Some h) w) ch = Some (ForwardTo n ch)"
  "mg_handlers (SetMessageHandler n ch (Some h) w) n ch = Some h"
  "mg_blocking (SetMessageHandler n ch h' w) = mg_blocking w"
  "mg_callbacks (SetMessageHandler n ch None w) ch = None"
  by (simp_all add: registration_defs split: option.splits)

lemma HandleMessage_forward:
  assumes "mg_callbacks w (dm_channel m) = Some (ForwardTo n ch)" "mg_handlers w n ch = Some h"
  shows "HandleMessage run crun m w =
    bind_res (run h (dm_message m) w) (\<lambda>(as, w').
      let evs = run_replies ((\<lambda>_. None)(0 := dm_response_handle m)) as in
      Inr (if dm_channel m \<in> mg_blocking w then BlockInput # evs @ [UnblockInput] else evs, w'))"
  using assms
  by (cases "run h (dm_message m) w")
    (auto simp: HandleMessage_def run_callback_def ForwardToHandler_def Let_def)





text \<open>
  The reply of a plain message channel can be copied, and each copy answers: the check that a
  response is sent only once is made per copy.
\<close>

lemma copied_reply_answers_again:
  "run_replies ((\<lambda>_. None)(0 := Some i)) [CopyReply 0 1, CallReply 0 d, CallReply 1 d'] =
     [SendResponse (Some i) d, SendResponse (Some i) d']"
  by simp

lemma uncopied_reply_answers_once:
  assumes "\<forall>a \<in> set as. \<exists>d. a = CallReply 0 d"
  shows "run_replies ((\<lambda>_. None)(0 := Some i)) as =
    (case as of CallReply _ d # _ \<Rightarrow> [SendResponse (Some i) d] | _ \<Rightarrow> [])"
proof -
  have none: "run_replies (\<lambda>_. None) as = []" if "\<forall>a \<in> set as. \<exists>d. a = CallReply 0 d" for as
    using that by (induction as) auto
  have "((\<lambda>_. None)(0 := Some i))(0 := None) = (\<lambda>_::nat. None)" by auto
  with assms show ?thesis by (cases as) (auto simp: none)
qed

text \<open>Every response handle that is created is released, and captures survive only a sent message.\<close>

lemma Send_releases:
  assumes "Send create_ok send_ok ch m has_reply = (evs, kept)"
  shows "create_ok \<Longrightarrow> count_list evs CreateResponseHandle = count_list evs ReleaseResponseHandle"
    and "kept \<Longrightarrow> SendPlatformMessage ch m True \<in> set evs \<and> send_ok"
  using assms
  by (auto simp: Send_def FlutterDesktopMessengerSend_def FlutterDesktopMessengerSendWithReply_def
      split: if_splits)

end
