(* ===== verification/Desktop_Plugins.thy ===== *)
theory Desktop_Plugins
  imports Text_Input Message_Channel
begin

text \<open>
  The internal plugins of the desktop embedders, text input and clipboard, for GLFW
  (\<^verbatim>\<open>shell/platform/glfw\<close>) and for Windows (\<^verbatim>\<open>shell/platform/windows\<close>). Keys, actions and clipboard calls of
  the window systems are the constructors and parameters below.
\<close>

definition ascii :: "string \<Rightarrow> byte list" where
  "ascii s = map of_char s"

section \<open>Text input\<close>

datatype client_call =
    UpdateEditingState "32 word \<times> (string \<times> state_member) list"
  | PerformAction "32 word" "byte list"

type_synonym json_members = "(string \<times> state_member) list"
type_synonym plugin_reply = "json_members method_reply"

datatype hook_key =
  KeyLeft | KeyRight | KeyEnd | KeyHome | KeyBackspace | KeyDelete | KeyEnter | OtherKey

datatype glfw_action = GlfwPress | GlfwRepeat | GlfwRelease | GlfwOther
datatype windows_action = WmKeyDown | WmKeyUp | WmOther

definition kMultilineInputType :: "byte list" where
  "kMultilineInputType = ascii ''TextInputType.multiline''"

definition kBadArgumentError :: "byte list" where
  "kBadArgumentError = ascii ''Bad Arguments''"

definition kInternalConsistencyError :: "byte list" where
  "kInternalConsistencyError = ascii ''Internal Consistency Error''"

definition SendStateUpdate :: "text_input_model \<Rightarrow> (client_call list \<times> text_input_model) res" where
  "SendStateUpdate m = bind_res (GetState m) (\<lambda>st. Inr ([UpdateEditingState st], m))"

definition EnterPressed :: "text_input_model \<Rightarrow> (client_call list \<times> text_input_model) res" where
  "EnterPressed m =
     bind_res (if input_type m = kMultilineInputType
               then bind_res (AddCharacter 10 m) SendStateUpdate
               else Inr ([], m)) (\<lambda>(calls, m').
       Inr (calls @ [PerformAction (client_id m') (input_action m')], m'))"

definition update_if_changed ::
    "bool \<times> text_input_model \<Rightarrow> (client_call list \<times> text_input_model) res" where
  "update_if_changed r = (case r of (changed, m) \<Rightarrow> if changed then SendStateUpdate m else Inr ([], m))"

definition press_key :: "hook_key \<Rightarrow> text_input_model \<Rightarrow> (client_call list \<times> text_input_model) res" where
  "press_key key m =
     (case key of
        KeyLeft \<Rightarrow> update_if_changed (MoveCursorBack m)
      | KeyRight \<Rightarrow> update_if_changed (MoveCursorForward m)
      | KeyEnd \<Rightarrow> SendStateUpdate (MoveCursorToEnd m)
      | KeyHome \<Rightarrow> SendStateUpdate (MoveCursorToBeginning m)
      | KeyBackspace \<Rightarrow> bind_res (Backspace m) update_if_changed
      | KeyDelete \<Rightarrow> bind_res (Delete m) update_if_changed
      | KeyEnter \<Rightarrow> EnterPressed m
      | OtherKey \<Rightarrow> Inr ([], m))"

definition on_active ::
    "(text_input_model \<Rightarrow> (client_call list \<times> text_input_model) res) \<Rightarrow> text_input_model option \<Rightarrow>
     (client_call list \<times> text_input_model option) res" where
  "on_active f active =
     (case active of
        None \<Rightarrow> Inr ([], None)
      | Some m \<Rightarrow> bind_res (f m) (\<lambda>(calls, m'). Inr (calls, Some m')))"

definition CharHook ::
    "char32 \<Rightarrow> text_input_model option \<Rightarrow> (client_call list \<times> text_input_model option) res" where
  "CharHook c active = on_active (\<lambda>m. bind_res (AddCharacter c m) SendStateUpdate) active"

definition KeyboardHook ::
    "hook_key \<Rightarrow> glfw_action \<Rightarrow> text_input_model option \<Rightarrow>
     (client_call list \<times> text_input_model option) res" where
  "KeyboardHook key action active =
     on_active (\<lambda>m. if action = GlfwPress \<or> action = GlfwRepeat then press_key key m else Inr ([], m)) active"

definition KeyboardHook_windows ::
    "hook_key \<Rightarrow> windows_action \<Rightarrow> text_input_model option \<Rightarrow>
     (client_call list \<times> text_input_model option) res" where
  "KeyboardHook_windows key action active =
     on_active (\<lambda>m. if action = WmKeyDown then press_key key m else Inr ([], m)) active"

text \<open>The parts of \<^verbatim>\<open>HandleMethodCall\<close>: the replies it makes and the active model after it.\<close>

definition json_at :: "'j option \<Rightarrow> 'j res" where
  "json_at v = (case v of None \<Rightarrow> Inl AssertFailed | Some x \<Rightarrow> Inr x)"

definition get_text :: "'j json_reader \<Rightarrow> 'j \<Rightarrow> byte list res" where
  "get_text js v =
     (case get_string js v of None \<Rightarrow> Inl AssertFailed | Some s \<Rightarrow> Inr (c_string s))"

definition get_offset :: "'j json_reader \<Rightarrow> 'j \<Rightarrow> nat res" where
  "get_offset js v =
     (case get_int js v of None \<Rightarrow> Inl AssertFailed | Some i \<Rightarrow> Inr (unat (scast i :: 64 word)))"

definition member_value :: "'j json_reader \<Rightarrow> 'j \<Rightarrow> string \<Rightarrow> 'j option" where
  "member_value js args key =
     (case find_member js args key of None \<Rightarrow> None | Some v \<Rightarrow> if is_null js v then None else Some v)"

definition set_client ::
    "'j json_reader \<Rightarrow> 'j \<Rightarrow> text_input_model option \<Rightarrow>
     (plugin_reply list \<times> text_input_model option) res" where
  "set_client js args active =
     bind_res (json_at (element js args 0)) (\<lambda>client_id_json.
     bind_res (json_at (element js args 1)) (\<lambda>client_config.
       if is_null js client_id_json then
         Inr ([Error kBadArgumentError (ascii ''Could not set client, ID is null.'') None], active)
       else
         bind_res (json_at (get_int js client_id_json)) (\<lambda>cid.
           Inr ((if is_null js client_config
                 then [Error kBadArgumentError (ascii ''Could not set client, missing arguments.'') None]
                 else []) @ [Success None],
                Some (TextInputModel js cid client_config)))))"

definition set_client_windows ::
    "'j json_reader \<Rightarrow> 'j \<Rightarrow> text_input_model option \<Rightarrow>
     (plugin_reply list \<times> text_input_model option) res" where
  "set_client_windows js args active =
     bind_res (json_at (element js args 0)) (\<lambda>client_id_json.
     bind_res (json_at (element js args 1)) (\<lambda>client_config.
       if is_null js client_id_json then
         Inr ([Error kBadArgumentError (ascii ''Could not set client, ID is null.'') None], active)
       else if is_null js client_config then
         Inr ([Error kBadArgumentError (ascii ''Could not set client, missing arguments.'') None], active)
       else
         bind_res (json_at (get_int js client_id_json)) (\<lambda>cid.
           Inr ([Success None], Some (TextInputModel js cid client_config)))))"

definition set_editing_state ::
    "'j json_reader \<Rightarrow> 'j \<Rightarrow> text_input_model option \<Rightarrow>
     (plugin_reply list \<times> text_input_model option) res" where
  "set_editing_state js args active =
     (case active of
        None \<Rightarrow>
          Inr ([Error kInternalConsistencyError
                  (ascii ''Set editing state has been invoked, but no client is set.'') None], None)
      | Some m \<Rightarrow>
          bind_res (guard AssertFailed (is_object js args)) (\<lambda>_.
            (case member_value js args ''text'' of
               None \<Rightarrow>
                 Inr ([Error kBadArgumentError
                         (ascii ''Set editing state has been invoked, but without text.'') None], Some m)
             | Some text \<Rightarrow>
                 (case (member_value js args ''selectionBase'', member_value js args ''selectionExtent'') of
                    (Some sel_base, Some sel_extent) \<Rightarrow>
                      bind_res (get_offset js sel_base) (\<lambda>b.
                      bind_res (get_offset js sel_extent) (\<lambda>e.
                      bind_res (get_text js text) (\<lambda>t.
                      bind_res (SetEditingState b e t m) (\<lambda>(_, m').
                        Inr ([Success None], Some m')))))
                  | _ \<Rightarrow>
                      Inr ([Error kInternalConsistencyError
                              (ascii ''Selection base/extent values invalid.'') None], Some m)))))"

definition handle_method_call ::
    "('j json_reader \<Rightarrow> 'j \<Rightarrow> text_input_model option \<Rightarrow> (plugin_reply list \<times> text_input_model option) res) \<Rightarrow>
     'j json_reader \<Rightarrow> byte list \<Rightarrow> 'j option \<Rightarrow> text_input_model option \<Rightarrow>
     (plugin_reply list \<times> text_input_model option) res" where
  "handle_method_call set_client_method js method arguments active =
     (if method = ascii ''TextInput.show'' \<or> method = ascii ''TextInput.hide'' then Inr ([Success None], active)
      else if method = ascii ''TextInput.clearClient'' then Inr ([Success None], None)
      else
        (case arguments of
           None \<Rightarrow> Inr ([Error kBadArgumentError (ascii ''Method invoked without args'') None], active)
         | Some args \<Rightarrow>
             if is_null js args then
               Inr ([Error kBadArgumentError (ascii ''Method invoked without args'') None], active)
             else if method = ascii ''TextInput.setClient'' then set_client_method js args active
             else if method = ascii ''TextInput.setEditingState'' then set_editing_state js args active
             else Inr ([NotImplemented], active)))"

definition HandleMethodCall ::
    "'j json_reader \<Rightarrow> byte list \<Rightarrow> 'j option \<Rightarrow> text_input_model option \<Rightarrow>
     (plugin_reply list \<times> text_input_model option) res" where
  "HandleMethodCall = handle_method_call set_client"

definition HandleMethodCall_windows ::
    "'j json_reader \<Rightarrow> byte list \<Rightarrow> 'j option \<Rightarrow> text_input_model option \<Rightarrow>
     (plugin_reply list \<times> text_input_model option) res" where
  "HandleMethodCall_windows = handle_method_call set_client_windows"

section \<open>The clipboard\<close>

datatype platform_effect = SetClipboard "byte list" | ExitProcess

definition kUnknownClipboardFormatError :: "byte list" where
  "kUnknownClipboardFormatError = ascii ''Unknown clipboard format error''"

definition set_clipboard_data ::
    "'j json_reader \<Rightarrow> (byte list \<Rightarrow> platform_effect list) \<Rightarrow> 'j option \<Rightarrow>
     (platform_effect list \<times> plugin_reply list) res" where
  "set_clipboard_data js store arguments =
     (case arguments of
        None \<Rightarrow> Inl NullDeref
      | Some document \<Rightarrow>
          bind_res (guard AssertFailed (is_object js document)) (\<lambda>_.
            (case find_member js document ''text'' of
               None \<Rightarrow>
                 Inr ([], [Error kUnknownClipboardFormatError
                             (ascii ''Missing text to store on clipboard.'') None])
             | Some v \<Rightarrow> bind_res (get_text js v) (\<lambda>text. Inr (store text, [Success None])))))"

text \<open>\<open>clipboard\<close> is what \<^verbatim>\<open>glfwGetClipboardString\<close> returns.\<close>

definition PlatformHandler_glfw ::
    "'j json_reader \<Rightarrow> byte list option \<Rightarrow> byte list \<Rightarrow> 'j option \<Rightarrow>
     (platform_effect list \<times> plugin_reply list) res" where
  "PlatformHandler_glfw js clipboard method arguments =
     (if method = ascii ''Clipboard.getData'' then
        (case arguments of
           None \<Rightarrow> Inl NullDeref
         | Some format \<Rightarrow>
             bind_res (get_text js format) (\<lambda>f.
               if f \<noteq> ascii ''text/plain'' then
                 Inr ([], [Error kUnknownClipboardFormatError
                             (ascii ''GLFW clipboard API only supports text.'') None])
               else
                 (case clipboard of
                    None \<Rightarrow>
                      Inr ([], [Error kUnknownClipboardFormatError
                                  (ascii ''Failed to retrieve clipboard data from GLFW api.'') None])
                  | Some d \<Rightarrow> Inr ([], [Success (Some [(''text'', MString d)])]))))
      else if method = ascii ''Clipboard.setData'' then
        set_clipboard_data js (\<lambda>text. [SetClipboard text]) arguments
      else if method = ascii ''SystemNavigator.pop'' then Inr ([ExitProcess], [])
      else Inr ([], [NotImplemented]))"

text \<open>
  The Windows clipboard: whether it can be opened, and the memory block of its text, if it has one
  and the block can be locked. A string is read up to the first NUL of the block.
\<close>

record windows_clipboard =
  can_open :: bool
  text_data :: "byte list option option"

definition GetClipboardString :: "windows_clipboard \<Rightarrow> byte list res" where
  "GetClipboardString cb =
     (if \<not> can_open cb then Inl NullDeref
      else
        (case text_data cb of
           None \<Rightarrow> Inl NullDeref
         | Some None \<Rightarrow> Inl NullDeref
         | Some (Some block) \<Rightarrow>
             bind_res (guard OutOfRange (0 \<in> set block)) (\<lambda>_. Inr (c_string block))))"

definition SetClipboardString :: "byte list \<Rightarrow> windows_clipboard \<Rightarrow> windows_clipboard" where
  "SetClipboardString data cb =
     (if \<not> can_open cb then cb else cb\<lparr>text_data := Some (Some data)\<rparr>)"

definition PlatformHandler_windows ::
    "'j json_reader \<Rightarrow> windows_clipboard \<Rightarrow> byte list \<Rightarrow> 'j option \<Rightarrow>
     (windows_clipboard \<times> plugin_reply list) res" where
  "PlatformHandler_windows js cb method arguments =
     (if method = ascii ''Clipboard.getData'' then
        (case arguments of
           None \<Rightarrow> Inl NullDeref
         | Some format \<Rightarrow>
             bind_res (get_text js format) (\<lambda>f.
               if f \<noteq> ascii ''text/plain'' then
                 Inr (cb, [Error kUnknownClipboardFormatError
                             (ascii ''Windows clipboard API only supports text.'') None])
               else
                 bind_res (GetClipboardString cb) (\<lambda>d.
                   if d = [] then
                     Inr (cb, [Error kUnknownClipboardFormatError
                                 (ascii ''Failed to retrieve clipboard data from win32 api.'') None])
                   else Inr (cb, [Success (Some [(''text'', MString d)])]))))
      else if method = ascii ''Clipboard.setData'' then
        bind_res (set_clipboard_data js (\<lambda>text. [SetClipboard text]) arguments) (\<lambda>(effects, replies).
          Inr (case effects of [SetClipboard text] \<Rightarrow> SetClipboardString text cb | _ \<Rightarrow> cb, replies))
      else Inr (cb, [NotImplemented]))"

section \<open>Typing\<close>

text \<open>Input as the window system delivers it, in its order.\<close>

datatype input = Typed char32 | Key hook_key glfw_action

definition glfw_input ::
    "input \<Rightarrow> text_input_model option \<Rightarrow> (client_call list \<times> text_input_model option) res" where
  "glfw_input i active =
     (case i of Typed c \<Rightarrow> CharHook c active | Key key action \<Rightarrow> KeyboardHook key action active)"

fun glfw_inputs ::
    "input list \<Rightarrow> text_input_model option \<Rightarrow> (client_call list \<times> text_input_model option) res" where
  "glfw_inputs [] active = Inr ([], active)"
| "glfw_inputs (i # is) active =
     bind_res (glfw_input i active) (\<lambda>(calls, active').
     bind_res (glfw_inputs is active') (\<lambda>(calls', active''). Inr (calls @ calls', active'')))"

text \<open>What the input means for the text and its selection.\<close>

definition zipper_key :: "bool \<Rightarrow> hook_key \<Rightarrow> zipper \<Rightarrow> zipper" where
  "zipper_key multiline key z =
     (case key of
        KeyLeft \<Rightarrow> snd (step_left z)
      | KeyRight \<Rightarrow> snd (step_right z)
      | KeyEnd \<Rightarrow> (whole_text z, [], [])
      | KeyHome \<Rightarrow> ([], [], whole_text z)
      | KeyBackspace \<Rightarrow> snd (erase_back z)
      | KeyDelete \<Rightarrow> snd (erase_ahead z)
      | KeyEnter \<Rightarrow> if multiline then type_char 10 z else z
      | OtherKey \<Rightarrow> z)"

definition zipper_input :: "bool \<Rightarrow> input \<Rightarrow> zipper \<Rightarrow> zipper" where
  "zipper_input multiline i z =
     (case i of
        Typed c \<Rightarrow> type_char c z
      | Key key action \<Rightarrow>
          if action = GlfwPress \<or> action = GlfwRepeat then zipper_key multiline key z else z)"

definition valid_text :: "char32 list \<Rightarrow> bool" where
  "valid_text cs \<longleftrightarrow> (\<forall>c \<in> set cs. code_point (unat c))"

fun updates :: "client_call list \<Rightarrow> (32 word \<times> json_members) list" where
  "updates [] = []"
| "updates (UpdateEditingState st # calls) = st # updates calls"
| "updates (PerformAction _ _ # calls) = updates calls"

lemma updates_append [simp]: "updates (xs @ ys) = updates xs @ updates ys"
  by (induction xs rule: updates.induct) auto

text \<open>
  The framework follows: either nothing changed and no state was sent, or the last state sent is the
  state of the model.
\<close>

definition follows :: "text_input_model \<Rightarrow> client_call list \<Rightarrow> text_input_model \<Rightarrow> bool" where
  "follows m calls m' \<longleftrightarrow>
     client_id m' = client_id m \<and> input_type m' = input_type m \<and>
     (if updates calls = [] then m' = m else GetState m' = Inr (last (updates calls)))"

lemma follows_refl [simp]: "follows m [] m"
  by (simp add: follows_def)

lemma follows_trans: "follows m calls m' \<Longrightarrow> follows m' calls' m'' \<Longrightarrow> follows m (calls @ calls') m''"
  by (auto simp: follows_def split: if_splits)

lemma valid_text_append [simp]: "valid_text (xs @ ys) \<longleftrightarrow> valid_text xs \<and> valid_text ys"
  by (auto simp: valid_text_def)

lemma valid_text_Cons [simp]: "valid_text (x # ys) \<longleftrightarrow> code_point (unat x) \<and> valid_text ys"
  by (auto simp: valid_text_def)

lemma valid_text_Nil [simp]: "valid_text []"
  by (simp add: valid_text_def)

lemma valid_text_butlast: "valid_text xs \<Longrightarrow> valid_text (butlast xs)"
  by (auto simp: valid_text_def dest: in_set_butlastD)

lemma valid_text_drop: "valid_text xs \<Longrightarrow> valid_text (drop n xs)"
  by (auto simp: valid_text_def dest: in_set_dropD)

lemma valid_text_take: "valid_text xs \<Longrightarrow> valid_text (take n xs)"
  by (auto simp: valid_text_def dest: in_set_takeD)

lemma valid_text_tl: "valid_text xs \<Longrightarrow> valid_text (tl xs)"
  by (cases xs) auto

lemmas valid_text_intros = valid_text_butlast valid_text_drop valid_text_take valid_text_tl

lemma zipper_input_valid:
  assumes "valid_text (whole_text z)" "\<And>c. i = Typed c \<Longrightarrow> code_point (unat c)"
  shows "valid_text (whole_text (zipper_input multiline i z))"
proof -
  obtain l s r where z: "z = (l, s, r)" by (metis prod_cases3)
  have parts: "valid_text l" "valid_text s" "valid_text r" using assms(1) by (simp_all add: z whole_text_def)
  have nl: "code_point (unat (10 :: char32))" by (simp add: code_point_def)
  show ?thesis
  proof (cases i)
    case (Typed c)
    then show ?thesis using parts assms(2) [OF Typed] by (simp add: zipper_input_def z type_char_def whole_text_def)
  next
    case (Key key action)
    have "valid_text (whole_text (zipper_key multiline key z))"
      by (cases key) (use parts nl in \<open>simp_all add: zipper_key_def z editing whole_text_def valid_text_intros\<close>)
    then show ?thesis using Key assms(1) by (simp add: zipper_input_def)
  qed
qed

lemma GetState_valid:
  "shows_zipper m z \<Longrightarrow> valid_text (whole_text z) \<Longrightarrow> \<exists>st. GetState m = Inr st"
  by (cases z) (simp add: GetState_def to_bytes_def shows_zipper_def whole_text_def valid_text_def list_all_iff ball_Un)

text \<open>One operation followed by its update.\<close>

lemma SendStateUpdate_follows:
  assumes "shows_zipper m' z'" "valid_text (whole_text z')" "client_id m' = client_id m" "input_type m' = input_type m"
  shows "\<exists>calls. SendStateUpdate m' = Inr (calls, m') \<and> follows m calls m'"
  using GetState_valid [OF assms(1,2)] assms(3,4) by (auto simp: SendStateUpdate_def follows_def)

definition same_client :: "text_input_model \<Rightarrow> text_input_model \<Rightarrow> bool" where
  "same_client m m' \<longleftrightarrow> client_id m' = client_id m \<and> input_type m' = input_type m"

lemma AddCharacter_client: "AddCharacter c m = Inr m' \<Longrightarrow> same_client m m'"
  by (auto simp: editing same_client_def split: if_splits)

lemma Backspace_client: "Backspace m = Inr (changed, m') \<Longrightarrow> same_client m m' \<and> (\<not> changed \<longrightarrow> m' = m)"
  by (auto simp: editing same_client_def split: if_splits)

lemma Delete_client: "Delete m = Inr (changed, m') \<Longrightarrow> same_client m m' \<and> (\<not> changed \<longrightarrow> m' = m)"
  by (auto simp: editing same_client_def split: if_splits)

lemma MoveCursor_client:
  "same_client m (snd (MoveCursorBack m)) \<and> (\<not> fst (MoveCursorBack m) \<longrightarrow> snd (MoveCursorBack m) = m)"
  "same_client m (snd (MoveCursorForward m)) \<and> (\<not> fst (MoveCursorForward m) \<longrightarrow> snd (MoveCursorForward m) = m)"
  "same_client m (MoveCursorToEnd m)" "same_client m (MoveCursorToBeginning m)"
  by (auto simp: editing same_client_def)

lemma update_if_changed_follows:
  assumes "shows_zipper (snd r) z'" "valid_text (whole_text z')" "same_client m (snd r)"
    "\<not> fst r \<Longrightarrow> snd r = m"
  shows "\<exists>calls m'. update_if_changed r = Inr (calls, m') \<and> shows_zipper m' z' \<and> follows m calls m'"
  using SendStateUpdate_follows [OF assms(1,2), of m] assms
  by (cases r; cases "fst r") (auto simp: update_if_changed_def same_client_def)

lemma EnterPressed_follows:
  assumes "shows_zipper m z" "valid_text (whole_text z)"
  shows "\<exists>calls m'. EnterPressed m = Inr (calls, m') \<and>
    shows_zipper m' (if input_type m = kMultilineInputType then type_char 10 z else z) \<and> follows m calls m'"
proof (cases "input_type m = kMultilineInputType")
  case True
  obtain m' where m': "AddCharacter 10 m = Inr m'" "shows_zipper m' (type_char 10 z)"
    using AddCharacter_zipper [OF assms(1)] by blast
  have valid: "valid_text (whole_text (type_char 10 z))"
    using assms(2) by (cases z) (simp add: type_char_def whole_text_def code_point_def)
  obtain calls where "SendStateUpdate m' = Inr (calls, m')" "follows m calls m'"
    using SendStateUpdate_follows [OF m'(2) valid] AddCharacter_client [OF m'(1)]
    by (auto simp: same_client_def)
  then show ?thesis using True m' by (simp add: EnterPressed_def follows_def)
next
  case False
  then show ?thesis using assms(1) by (simp add: EnterPressed_def follows_def)
qed

lemma press_key_follows:
  assumes z: "shows_zipper m z" and valid: "valid_text (whole_text z)"
  shows "\<exists>calls m'. press_key key m = Inr (calls, m') \<and>
    shows_zipper m' (zipper_key (input_type m = kMultilineInputType) key z) \<and> follows m calls m'"
proof -
  have valid': "valid_text (whole_text (zipper_key multiline key z))" for multiline key
    using zipper_input_valid [OF valid, of "Key key GlfwPress" multiline] by (simp add: zipper_input_def)
  show ?thesis
  proof (cases key)
    case KeyLeft
    then show ?thesis
      using MoveCursorBack_zipper [OF z] MoveCursor_client(1) [of m] valid' [of _ KeyLeft]
        update_if_changed_follows [of "MoveCursorBack m" "snd (step_left z)" m]
      by (auto simp: press_key_def zipper_key_def)
  next
    case KeyRight
    then show ?thesis
      using MoveCursorForward_zipper [OF z] MoveCursor_client(2) [of m] valid' [of _ KeyRight]
        update_if_changed_follows [of "MoveCursorForward m" "snd (step_right z)" m]
      by (auto simp: press_key_def zipper_key_def)
  next
    case KeyEnd
    then show ?thesis
      using MoveCursorTo_zipper(2) [OF z] MoveCursor_client(3) [of m] valid' [of _ KeyEnd]
        SendStateUpdate_follows [of "MoveCursorToEnd m" "(whole_text z, [], [])" m]
      by (auto simp: press_key_def zipper_key_def same_client_def)
  next
    case KeyHome
    then show ?thesis
      using MoveCursorTo_zipper(1) [OF z] MoveCursor_client(4) [of m] valid' [of _ KeyHome]
        SendStateUpdate_follows [of "MoveCursorToBeginning m" "([], [], whole_text z)" m]
      by (auto simp: press_key_def zipper_key_def same_client_def)
  next
    case KeyBackspace
    obtain m' where m': "Backspace m = Inr (fst (erase_back z), m')" "shows_zipper m' (snd (erase_back z))"
      using Backspace_zipper [OF z] by blast
    then show ?thesis
      using KeyBackspace Backspace_client [OF m'(1)] valid' [of _ KeyBackspace]
        update_if_changed_follows [of "(fst (erase_back z), m')" "snd (erase_back z)" m]
      by (auto simp: press_key_def zipper_key_def)
  next
    case KeyDelete
    obtain m' where m': "Delete m = Inr (fst (erase_ahead z), m')" "shows_zipper m' (snd (erase_ahead z))"
      using Delete_zipper [OF z] by blast
    then show ?thesis
      using KeyDelete Delete_client [OF m'(1)] valid' [of _ KeyDelete]
        update_if_changed_follows [of "(fst (erase_ahead z), m')" "snd (erase_ahead z)" m]
      by (auto simp: press_key_def zipper_key_def)
  next
    case KeyEnter
    then show ?thesis using EnterPressed_follows [OF z valid] by (simp add: press_key_def zipper_key_def)
  next
    case OtherKey
    then show ?thesis using z by (simp add: press_key_def zipper_key_def)
  qed
qed

lemma glfw_input_follows:
  assumes z: "shows_zipper m z" and valid: "valid_text (whole_text z)"
    and i: "\<And>c. i = Typed c \<Longrightarrow> code_point (unat c)"
  shows "\<exists>calls m'. glfw_input i (Some m) = Inr (calls, Some m') \<and>
    shows_zipper m' (zipper_input (input_type m = kMultilineInputType) i z) \<and> follows m calls m'"
proof (cases i)
  case (Typed c)
  obtain m' where m': "AddCharacter c m = Inr m'" "shows_zipper m' (type_char c z)"
    using AddCharacter_zipper [OF z] by blast
  have "valid_text (whole_text (type_char c z))"
    using zipper_input_valid [OF valid, of i] i Typed by (simp add: zipper_input_def)
  then obtain calls where "SendStateUpdate m' = Inr (calls, m')" "follows m calls m'"
    using SendStateUpdate_follows [OF m'(2)] AddCharacter_client [OF m'(1)] by (auto simp: same_client_def)
  then show ?thesis using Typed m' by (simp add: glfw_input_def CharHook_def on_active_def zipper_input_def)
next
  case (Key key action)
  obtain calls m' where "press_key key m = Inr (calls, m')"
    "shows_zipper m' (zipper_key (input_type m = kMultilineInputType) key z)" "follows m calls m'"
    using press_key_follows [OF z valid] by blast
  then show ?thesis using Key z
    by (simp add: glfw_input_def KeyboardHook_def on_active_def zipper_input_def)
qed

text \<open>
  C30. Typing into the active client does what the editing operations mean: for any sequence of typed
  characters and keys, the model ends with the text and selection the sequence gives on the three
  parts of the text, and the framework is never left behind: if no state was sent nothing changed,
  and otherwise the last state sent is the state of the model.
\<close>

theorem typing_refines_zipper:
  assumes "shows_zipper m z" "valid_text (whole_text z)"
    and "\<And>c. Typed c \<in> set is \<Longrightarrow> code_point (unat c)"
  shows "\<exists>calls m'. glfw_inputs is (Some m) = Inr (calls, Some m') \<and>
    shows_zipper m' (fold (zipper_input (input_type m = kMultilineInputType)) is z) \<and> follows m calls m'"
  using assms
proof (induction "is" arbitrary: m z)
  case (Cons i "is")
  obtain calls m' where step: "glfw_input i (Some m) = Inr (calls, Some m')"
    "shows_zipper m' (zipper_input (input_type m = kMultilineInputType) i z)" "follows m calls m'"
    using glfw_input_follows [OF Cons.prems(1,2)] Cons.prems(3) by (metis list.set_intros(1))
  have "valid_text (whole_text (zipper_input (input_type m = kMultilineInputType) i z))"
    using zipper_input_valid [OF Cons.prems(2)] Cons.prems(3) by (metis list.set_intros(1))
  moreover have "input_type m' = input_type m" using step(3) by (simp add: follows_def)
  ultimately obtain calls' m'' where "glfw_inputs is (Some m') = Inr (calls', Some m'')"
    "shows_zipper m'' (fold (zipper_input (input_type m = kMultilineInputType)) is
       (zipper_input (input_type m = kMultilineInputType) i z))" "follows m' calls' m''"
    using Cons.IH [OF step(2)] Cons.prems(3) by (metis list.set_intros(2))
  then show ?case using step follows_trans by fastforce
qed simp

lemma typing_refines_zipper_witness:
  "\<exists>calls m'. glfw_inputs [Typed 0x68, Typed 0x69, Key KeyLeft GlfwPress, Key KeyBackspace GlfwRepeat]
      (Some \<lparr>tim_text = [], client_id = 7, input_type = [], input_action = [],
        selection_base = 0, selection_extent = 0\<rparr>) = Inr (calls, Some m') \<and>
    shows_zipper m' ([], [], [0x69])"
proof -
  let ?m = "\<lparr>tim_text = [], client_id = 7, input_type = [], input_action = [],
      selection_base = 0, selection_extent = 0\<rparr>"
  let ?is = "[Typed 0x68, Typed 0x69, Key KeyLeft GlfwPress, Key KeyBackspace GlfwRepeat]"
  have "shows_zipper ?m ([], [], [])" by (simp add: shows_zipper_def)
  moreover have "valid_text (whole_text ([], [], []))" by (simp add: whole_text_def)
  moreover have "code_point (unat c)" if "Typed c \<in> set ?is" for c
    using that by (auto simp: code_point_def)
  ultimately have "\<exists>calls m'. glfw_inputs ?is (Some ?m) = Inr (calls, Some m') \<and>
      shows_zipper m' (fold (zipper_input (input_type ?m = kMultilineInputType)) ?is ([], [], [])) \<and>
      follows ?m calls m'"
    by (rule typing_refines_zipper)
  moreover have "fold (zipper_input False) ?is ([], [], []) = ([], [], [0x69])"
    by (simp add: zipper_input_def zipper_key_def type_char_def step_left_def erase_back_def)
  moreover have "kMultilineInputType \<noteq> []" by (simp add: kMultilineInputType_def ascii_def)
  ultimately show ?thesis by auto
qed

section \<open>The two text input plugins\<close>

text \<open>A client set without a configuration.\<close>

definition null_config :: "'j json_reader \<Rightarrow> 'j \<Rightarrow> bool" where
  "null_config js args =
     (case (element js args 0, element js args 1) of
        (Some i, Some config) \<Rightarrow> \<not> is_null js i \<and> is_null js config
      | _ \<Rightarrow> False)"

definition config_missing :: "'j json_reader \<Rightarrow> byte list \<Rightarrow> 'j option \<Rightarrow> bool" where
  "config_missing js method arguments \<longleftrightarrow>
     method = ascii ''TextInput.setClient'' \<and>
     (case arguments of None \<Rightarrow> False | Some args \<Rightarrow> \<not> is_null js args \<and> null_config js args)"

lemma set_client_agree:
  "\<not> null_config js args \<Longrightarrow> set_client_windows js args active = set_client js args active"
  by (cases "element js args 0"; cases "element js args 1")
    (auto simp: set_client_def set_client_windows_def json_at_def null_config_def)

lemma set_client_disagree:
  assumes "null_config js args"
  shows "\<exists>e. set_client_windows js args active = Inr ([e], active) \<and>
    (case set_client js args active of
       Inl x \<Rightarrow> x = AssertFailed
     | Inr (replies, active') \<Rightarrow> replies = [e, Success None] \<and> active' \<noteq> None)"
  using assms
  by (auto simp: null_config_def set_client_def set_client_windows_def json_at_def bind_res_def
      split: option.splits)

lemma setClient_method [simp]:
  "ascii ''TextInput.setClient'' \<noteq> ascii ''TextInput.show''"
  "ascii ''TextInput.setClient'' \<noteq> ascii ''TextInput.hide''"
  "ascii ''TextInput.setClient'' \<noteq> ascii ''TextInput.clearClient''"
  by (simp_all add: ascii_def)


text \<open>What Windows stores has no terminator, so reading it back reads beyond the block.\<close>

lemma windows_clipboard_unterminated:
  "can_open cb \<Longrightarrow> 0 \<notin> set text \<Longrightarrow> GetClipboardString (SetClipboardString text cb) = Inl OutOfRange"
  by (simp add: GetClipboardString_def SetClipboardString_def)

end
