(* ===== verification/Key_Events.thy ===== *)
theory Key_Events
  imports Desktop_Plugins
begin

text \<open>
  \<^verbatim>\<open>key_event_handler.cc\<close> of the GLFW and the Windows embedder: the event sent for a raw key, and the
  loop that decodes the first code point of a key's name.
\<close>

record utf8_code_point_info =
  first_byte_mask :: "32 word"
  cp_length :: nat

definition GetUTF8CodePointInfo :: "32 word \<Rightarrow> utf8_code_point_info" where
  "GetUTF8CodePointInfo first_byte =
     (if and first_byte 0xF0 = 0xF0 then \<lparr>first_byte_mask = 0x07, cp_length = 4\<rparr>
      else if and first_byte 0xE0 = 0xE0 then \<lparr>first_byte_mask = 0x0F, cp_length = 3\<rparr>
      else if and first_byte 0xC0 = 0xC0 then \<lparr>first_byte_mask = 0x1F, cp_length = 2\<rparr>
      else \<lparr>first_byte_mask = 0xFF, cp_length = 1\<rparr>)"

text \<open>
  The loop over the bytes of the first code point. The name is a C string: its terminator may be
  read, nothing beyond it. A byte is a signed character, extended to an integer.
\<close>

definition char_at :: "byte list \<Rightarrow> nat \<Rightarrow> 32 word res" where
  "char_at s i =
     (if i < length s then Inr (scast (s ! i)) else if i = length s then Inr 0 else Inl OutOfRange)"

fun code_point_loop :: "byte list \<Rightarrow> utf8_code_point_info \<Rightarrow> nat \<Rightarrow> nat \<Rightarrow> 32 word \<Rightarrow> 32 word res" where
  "code_point_loop s info i 0 acc = Inr acc"
| "code_point_loop s info i (Suc remaining) acc =
     bind_res (char_at s i) (\<lambda>current_byte.
       let mask = (if i = 0 then first_byte_mask info else 0x3F) in
       code_point_loop s info (i + 1) remaining
         (acc + push_bit (6 * remaining) (and current_byte mask)))"

definition GetUTF32CodePointFromGLFWKey :: "byte list option \<Rightarrow> 32 word option res" where
  "GetUTF32CodePointFromGLFWKey name =
     (case name of
        None \<Rightarrow> Inr None
      | Some s \<Rightarrow>
          bind_res (char_at s 0) (\<lambda>b.
          let info = GetUTF8CodePointInfo b in
          bind_res (code_point_loop s info 0 (cp_length info) 0) (\<lambda>c. Inr (Some c))))"

definition KeyEvent_glfw ::
    "byte list option \<Rightarrow> 32 word \<Rightarrow> 32 word \<Rightarrow> glfw_action \<Rightarrow> 32 word \<Rightarrow> json_members option res" where
  "KeyEvent_glfw name key scancode action mods =
     bind_res (GetUTF32CodePointFromGLFWKey name) (\<lambda>unicode.
       let event =
         [(''keyCode'', MInt key), (''keymap'', MText ''linux''), (''scanCode'', MInt scancode),
          (''modifiers'', MInt mods), (''toolkit'', MText ''glfw'')] @
         (case unicode of None \<Rightarrow> [] | Some c \<Rightarrow> [(''unicodeScalarValues'', MInt c)]) in
       Inr (case action of
              GlfwPress \<Rightarrow> Some (event @ [(''type'', MText ''keydown'')])
            | GlfwRepeat \<Rightarrow> Some (event @ [(''type'', MText ''keydown'')])
            | GlfwRelease \<Rightarrow> Some (event @ [(''type'', MText ''keyup'')])
            | GlfwOther \<Rightarrow> None))"

definition KeyEvent_windows :: "32 word \<Rightarrow> windows_action \<Rightarrow> json_members option" where
  "KeyEvent_windows key action =
     (let event = [(''keyCode'', MInt key), (''keymap'', MText ''android'')] in
      (case action of
         WmKeyDown \<Rightarrow> Some (event @ [(''type'', MText ''keydown'')])
       | WmKeyUp \<Rightarrow> Some (event @ [(''type'', MText ''keyup'')])
       | WmOther \<Rightarrow> None))"

section \<open>The first code point of a name\<close>

lemma masked_byte:
  assumes "n \<le> 8"
  shows "and (scast (b :: 8 word) :: 32 word) (mask n) = of_nat (unat b mod 2 ^ n)"
proof -
  have "and (scast b :: 32 word) (mask n) = take_bit n (ucast b)"
    using assms by (intro bit_word_eqI) (auto simp: bit_simps)
  also have "\<dots> = take_bit n (of_nat (unat b))" by simp
  also have "\<dots> = of_nat (unat b mod 2 ^ n)" by (subst take_bit_of_nat) (simp add: take_bit_eq_mod)
  finally show ?thesis .
qed

lemma and_high_bits: "and (n::nat) (push_bit k (mask j)) = 2 ^ k * (n div 2 ^ k mod 2 ^ j)"
proof -
  have "and n (push_bit k (mask j)) = push_bit k (take_bit j (drop_bit k n))"
    by (rule bit_eqI) (auto simp: bit_simps)
  then show ?thesis by (simp add: push_bit_eq_mult take_bit_eq_mod drop_bit_eq_div mult.commute)
qed

lemma masked_high:
  assumes "m < 256"
  shows "and (scast (b :: 8 word) :: 32 word) (of_nat m) = of_nat (and (unat b) m)"
proof -
  have "take_bit 8 m = m" using assms by (simp add: take_bit_nat_eq_self_iff)
  then have high: "i < 8" if "bit m i" for i using that by (metis bit_take_bit_iff)
  show ?thesis
    by (rule bit_word_eqI) (auto simp: bit_simps dest: high)
qed

lemma lead_byte:
  "and (scast (b :: 8 word) :: 32 word) 0xF0 = 0xF0 \<longleftrightarrow> 0xF0 \<le> unat b"
  "and (scast (b :: 8 word) :: 32 word) 0xE0 = 0xE0 \<longleftrightarrow> 0xE0 \<le> unat b"
  "and (scast (b :: 8 word) :: 32 word) 0xC0 = 0xC0 \<longleftrightarrow> 0xC0 \<le> unat b"
proof -
  have b: "unat b < 256" by (rule order.strict_trans2 [OF unsigned_less]) simp
  have test: "and (scast b :: 32 word) (of_nat m) = of_nat m \<longleftrightarrow> and (unat b) m = m" if "m < 256" for m
  proof -
    have "take_bit 8 (and (unat b) m) = and (unat b) m" using that b by (simp add: take_bit_nat_eq_self)
    then have "and (unat b) m < 2 ^ 8" by (metis take_bit_nat_less_exp)
    then have "unat (of_nat (and (unat b) m) :: 32 word) = and (unat b) m" "unat (of_nat m :: 32 word) = m"
      using that by (simp_all add: unat_of_nat_below)
    then have "(of_nat (and (unat b) m) :: 32 word) = of_nat m \<longleftrightarrow> and (unat b) m = m" by metis
    then show ?thesis by (simp add: masked_high [OF that])
  qed
  have m: "push_bit 4 (mask 4) = (240::nat)" "push_bit 5 (mask 3) = (224::nat)" "push_bit 6 (mask 2) = (192::nat)"
    by (simp_all add: push_bit_eq_mult mask_eq_exp_minus_1)
  have "unat b div 16 < 16" "unat b div 32 < 8" "unat b div 64 < 4" using b by linarith+
  then have "and (unat b) 240 = 16 * (unat b div 16)" "and (unat b) 224 = 32 * (unat b div 32)"
    "and (unat b) 192 = 64 * (unat b div 64)"
    using and_high_bits [of "unat b" 4 4] and_high_bits [of "unat b" 5 3] and_high_bits [of "unat b" 6 2]
    by (simp_all only: m) simp_all
  moreover have "16 * (unat b div 16) = 240 \<longleftrightarrow> 240 \<le> unat b" "32 * (unat b div 32) = 224 \<longleftrightarrow> 224 \<le> unat b"
    "64 * (unat b div 64) = 192 \<longleftrightarrow> 192 \<le> unat b"
    using b div_nat_eqI [of 16 15 "unat b"] div_nat_eqI [of 32 7 "unat b"] div_nat_eqI [of 64 3 "unat b"]
      div_times_less_eq_dividend [of "unat b" 16] div_times_less_eq_dividend [of "unat b" 32]
      div_times_less_eq_dividend [of "unat b" 64]
    by (auto simp: mult.commute)
  ultimately have "and (unat b) 240 = 240 \<longleftrightarrow> 240 \<le> unat b" "and (unat b) 224 = 224 \<longleftrightarrow> 224 \<le> unat b"
    "and (unat b) 192 = 192 \<longleftrightarrow> 192 \<le> unat b"
    by metis+
  with test [of 240] test [of 224] test [of 192]
  show "and (scast b :: 32 word) 0xF0 = 0xF0 \<longleftrightarrow> 0xF0 \<le> unat b"
    "and (scast b :: 32 word) 0xE0 = 0xE0 \<longleftrightarrow> 0xE0 \<le> unat b"
    "and (scast b :: 32 word) 0xC0 = 0xC0 \<longleftrightarrow> 0xC0 \<le> unat b"
    by simp_all
qed

text \<open>The bytes of the first code point, each with the bits the loop takes of it.\<close>

lemma GetUTF8CodePointInfo_lead:
  "GetUTF8CodePointInfo (scast (b :: 8 word)) =
     (if 0xF0 \<le> unat b then \<lparr>first_byte_mask = 0x07, cp_length = 4\<rparr>
      else if 0xE0 \<le> unat b then \<lparr>first_byte_mask = 0x0F, cp_length = 3\<rparr>
      else if 0xC0 \<le> unat b then \<lparr>first_byte_mask = 0x1F, cp_length = 2\<rparr>
      else \<lparr>first_byte_mask = 0xFF, cp_length = 1\<rparr>)"
  by (simp add: GetUTF8CodePointInfo_def lead_byte)

lemma masked_byte_numerals:
  "and (scast (b :: 8 word) :: 32 word) 0x3F = of_nat (unat b mod 64)"
  "and (scast (b :: 8 word) :: 32 word) 0x07 = of_nat (unat b mod 8)"
  "and (scast (b :: 8 word) :: 32 word) 0x0F = of_nat (unat b mod 16)"
  "and (scast (b :: 8 word) :: 32 word) 0x1F = of_nat (unat b mod 32)"
  "and (scast (b :: 8 word) :: 32 word) 0xFF = of_nat (unat b mod 256)"
  using masked_byte [of 6 b] masked_byte [of 3 b] masked_byte [of 4 b] masked_byte [of 5 b]
    masked_byte [of 8 b]
  by (simp_all add: mask_eq_exp_minus_1)

fun six_bit_value :: "nat list \<Rightarrow> nat" where
  "six_bit_value [] = 0"
| "six_bit_value (k # ks) = k mod 64 * 64 ^ length ks + six_bit_value ks"

lemma code_point_loop_value:
  assumes "list_all (\<lambda>k. k < 256) ks" "0 < i"
  shows "drop i s = map of_nat ks @ r \<Longrightarrow>
    code_point_loop s info i (length ks) acc = Inr (acc + of_nat (six_bit_value ks))"
  using assms
proof (induction ks arbitrary: i acc)
  case (Cons k ks)
  have i: "i < length s" "s ! i = of_nat k" "drop (i + 1) s = map of_nat ks @ r"
    using Cons.prems(1) by (metis drop_all list.simps(9) append_Cons linorder_not_le list.distinct(1))
      (metis Cons.prems(1) append_Cons drop_all hd_drop_conv_nth linorder_not_le list.distinct(1) list.sel(1) list.simps(9),
       metis Cons.prems(1) Suc_eq_plus1 append_Cons drop_Suc list.sel(3) list.simps(9) tl_drop)
  have k: "unat (of_nat k :: 8 word) = k" using Cons.prems(2) by (simp add: unat_of_nat_below)
  have "code_point_loop s info i (length (k # ks)) acc =
      code_point_loop s info (i + 1) (length ks) (acc + push_bit (6 * length ks) (of_nat (k mod 64)))"
    using i Cons.prems(3) by (simp add: char_at_def masked_byte_numerals k Let_def del: push_bit_and)
  also have "\<dots> = Inr (acc + push_bit (6 * length ks) (of_nat (k mod 64)) + of_nat (six_bit_value ks))"
    using Cons i(3) by simp
  also have "push_bit (6 * length ks) (of_nat (k mod 64) :: 32 word) = of_nat (k mod 64 * 64 ^ length ks)"
    by (simp add: push_bit_eq_mult power_mult)
  finally show ?case by (simp add: add.assoc)
qed simp

lemma GetUTF32CodePoint_value:
  assumes "list_all (\<lambda>k. k < 256) (k # ks)" "j \<le> 8"
    and info: "GetUTF8CodePointInfo (scast (of_nat k :: 8 word)) = \<lparr>first_byte_mask = mask j, cp_length = Suc (length ks)\<rparr>"
  shows "GetUTF32CodePointFromGLFWKey (Some (map of_nat (k # ks) @ r)) =
    Inr (Some (of_nat (k mod 2 ^ j * 64 ^ length ks + six_bit_value ks)))"
proof -
  let ?s = "map of_nat (k # ks) @ r :: byte list"
  let ?info = "\<lparr>first_byte_mask = mask j, cp_length = Suc (length ks)\<rparr>"
  have k: "unat (of_nat k :: 8 word) = k" using assms(1) by (simp add: unat_of_nat_below)
  have first: "char_at ?s 0 = Inr (scast (of_nat k :: 8 word))" by (simp add: char_at_def)
  have "code_point_loop ?s ?info 0 (Suc (length ks)) 0 =
      code_point_loop ?s ?info 1 (length ks) (push_bit (6 * length ks) (of_nat (k mod 2 ^ j)))"
    unfolding code_point_loop.simps first
    by (simp add: masked_byte [OF assms(2)] k del: push_bit_and)
  also have "\<dots> = Inr (push_bit (6 * length ks) (of_nat (k mod 2 ^ j)) + of_nat (six_bit_value ks))"
    using assms(1) by (intro code_point_loop_value [where r = r]) auto
  also have "push_bit (6 * length ks) (of_nat (k mod 2 ^ j) :: 32 word) = of_nat (k mod 2 ^ j * 64 ^ length ks)"
    by (simp only: push_bit_eq_mult of_nat_mult of_nat_power power_mult) simp
  finally show ?thesis
    by (simp add: GetUTF32CodePointFromGLFWKey_def first info Let_def del: list.map code_point_loop.simps)
qed

lemma GetUTF8CodePointInfo_nat:
  assumes "k < 256"
  shows "GetUTF8CodePointInfo (scast (of_nat k :: 8 word)) =
     (if 0xF0 \<le> k then \<lparr>first_byte_mask = mask 3, cp_length = 4\<rparr>
      else if 0xE0 \<le> k then \<lparr>first_byte_mask = mask 4, cp_length = 3\<rparr>
      else if 0xC0 \<le> k then \<lparr>first_byte_mask = mask 5, cp_length = 2\<rparr>
      else \<lparr>first_byte_mask = mask 8, cp_length = 1\<rparr>)"
proof -
  have "unat (of_nat k :: 8 word) = k" using assms by (simp add: unat_of_nat_below)
  then show ?thesis by (simp add: GetUTF8CodePointInfo_lead mask_eq_exp_minus_1)
qed

lemma key_bytes:
  assumes "utf8_char n = k # ks" "list_all (\<lambda>k. k < 256) (k # ks)"
    and "GetUTF8CodePointInfo (scast (of_nat k :: 8 word)) = \<lparr>first_byte_mask = mask j, cp_length = Suc (length ks)\<rparr>"
    and "j \<le> 8" "k mod 2 ^ j * 64 ^ length ks + six_bit_value ks = n"
  shows "GetUTF32CodePointFromGLFWKey (Some (map of_nat (utf8_char n) @ r)) = Inr (Some (of_nat n))"
  unfolding assms(1) GetUTF32CodePoint_value [OF assms(2,4,3)] assms(5) ..

lemma mod_offset: "q < m \<Longrightarrow> (c * m + q) mod m = (q::nat)"
  by simp

lemma key_code_point:
  assumes "code_point n"
  shows "GetUTF32CodePointFromGLFWKey (Some (map of_nat (utf8_char n) @ r)) = Inr (Some (of_nat n))"
proof -
  have n: "n < 0x110000" using assms by (simp add: code_point_def)
  have low: "(128 + m mod 64) mod 64 = m mod 64" "128 + m mod 64 < 256" for m :: nat
    using mod_offset [of "m mod 64" 64 2] mod_less_divisor [of 64 m] by simp_all
  consider "n < 0x80" | "0x80 \<le> n" "n < 0x800" | "0x800 \<le> n" "n < 0x10000" | "0x10000 \<le> n" by linarith
  then show ?thesis
  proof cases
    case 1
    then show ?thesis
      by (intro key_bytes [where k = n and ks = "[]" and j = 8])
        (simp_all add: utf8_char_def GetUTF8CodePointInfo_nat del: of_nat_add)
  next
    case 2
    have q: "n div 64 < 32" using 2 by linarith
    then have "(192 + n div 64) mod 32 = n div 64" using mod_offset [of "n div 64" 32 6] by simp
    with 2 q low show ?thesis
      by (intro key_bytes [where k = "192 + n div 64" and ks = "[128 + n mod 64]" and j = 5])
        (simp_all add: utf8_char_def GetUTF8CodePointInfo_nat del: of_nat_add)
  next
    case 3
    have q: "n div 4096 < 16" using 3 by linarith
    then have "(224 + n div 4096) mod 16 = n div 4096" using mod_offset [of "n div 4096" 16 14] by simp
    with 3 q low six_bit_groups(1) [of n] show ?thesis
      by (intro key_bytes [where k = "224 + n div 4096" and ks = "[128 + n div 64 mod 64, 128 + n mod 64]" and j = 4])
        (simp_all add: utf8_char_def GetUTF8CodePointInfo_nat del: of_nat_add)
  next
    case 4
    have q: "n div 262144 < 8" using n by linarith
    then have "(240 + n div 262144) mod 8 = n div 262144" using mod_offset [of "n div 262144" 8 30] by simp
    with 4 q low six_bit_groups(2) [of n] show ?thesis
      by (intro key_bytes [where k = "240 + n div 262144" and j = 3 and
          ks = "[128 + n div 4096 mod 64, 128 + n div 64 mod 64, 128 + n mod 64]"])
        (simp_all add: utf8_char_def GetUTF8CodePointInfo_nat del: of_nat_add)
  qed
qed

text \<open>
  C32. The name of a printable key gives its first code point: for every name that is valid UTF-8 the
  byte loop of the key handler finds the code point the conversion of the whole name starts with.
\<close>

theorem key_name_code_point:
  assumes "from_bytes name = Inr (c # cs)"
  shows "GetUTF32CodePointFromGLFWKey (Some name) = Inr (Some c)"
proof -
  have bytes: "to_bytes (c # cs) = Inr name" by (rule to_bytes_from_bytes [OF assms])
  then have "code_point (unat c)"
    and "name = map of_nat (utf8_char (unat c)) @ map of_nat (concat (map (\<lambda>c. utf8_char (unat c)) cs))"
    by (auto simp: to_bytes_def split: if_splits)
  with key_code_point [of "unat c"] show ?thesis by simp
qed

lemma key_name_code_point_witness:
  "GetUTF32CodePointFromGLFWKey (Some [0xE2, 0x82, 0xAC]) = Inr (Some 0x20AC)"
  by (rule key_name_code_point [OF euro_bytes(1)])

end
