(* ===== verification/Frame_Pipeline.thy ===== *)
theory Frame_Pipeline
  imports Prelude
begin

text \<open>
  \<^verbatim>\<open>shell/common/pipeline.h\<close> on the semaphores of \<^verbatim>\<open>fml/synchronization/semaphore.cc\<close>: the bounded queue of
  layer trees between the UI thread, which produces, and the GPU thread, which consumes. Each
  operation is composed of the pieces that are atomic, so that the operations of two threads can be
  interleaved piece by piece.
\<close>

section \<open>Semaphores\<close>

text \<open>Whether the system could create the semaphore is an argument of the constructor.\<close>

record semaphore =
  sem_valid :: bool
  sem_count :: nat

definition Semaphore :: "bool \<Rightarrow> nat \<Rightarrow> semaphore" where
  "Semaphore created initial = \<lparr>sem_valid = created, sem_count = initial\<rparr>"

definition TryWait :: "semaphore \<Rightarrow> bool \<times> semaphore" where
  "TryWait s =
     (if \<not> sem_valid s then (False, s)
      else if sem_count s = 0 then (False, s)
      else (True, s\<lparr>sem_count := sem_count s - 1\<rparr>))"

definition Signal :: "semaphore \<Rightarrow> semaphore" where
  "Signal s = (if \<not> sem_valid s then s else s\<lparr>sem_count := sem_count s + 1\<rparr>)"

section \<open>The pipeline\<close>

text \<open>
  A resource is a pointer that may be null. A continuation is the spot of a producer: none, or the
  commit to the back or to the front with its trace identifier.
\<close>

datatype pipeline_consume_result = NoneAvailable | Done | MoreAvailable

type_synonym 'r pipeline_item = "'r option \<times> 64 word"

record 'r pipeline =
  pl_depth :: nat
  pl_empty :: semaphore
  pl_available :: semaphore
  pl_inflight :: int
  pl_queue :: "'r pipeline_item list"

datatype producer_continuation = NoContinuation | CommitTo "64 word" | CommitFrontTo "64 word"

definition GetNextPipelineTraceID :: "64 word \<Rightarrow> 64 word" where
  "GetNextPipelineTraceID previous = previous + 1"

definition Pipeline :: "bool \<Rightarrow> bool \<Rightarrow> nat \<Rightarrow> 'r pipeline" where
  "Pipeline created1 created2 depth =
     \<lparr>pl_depth = depth, pl_empty = Semaphore created1 depth, pl_available = Semaphore created2 0,
      pl_inflight = 0, pl_queue = []\<rparr>"

definition pipeline_IsValid :: "'r pipeline \<Rightarrow> bool" where
  "pipeline_IsValid p \<longleftrightarrow> sem_valid (pl_empty p) \<and> sem_valid (pl_available p)"

text \<open>The second component is the last trace identifier given out in the process.\<close>

definition Produce :: "64 word \<Rightarrow> 'r pipeline \<Rightarrow> producer_continuation \<times> 64 word \<times> 'r pipeline" where
  "Produce last_id p =
     (case TryWait (pl_empty p) of
        (False, s) \<Rightarrow> (NoContinuation, last_id, p\<lparr>pl_empty := s\<rparr>)
      | (True, s) \<Rightarrow>
          (CommitTo (GetNextPipelineTraceID last_id), GetNextPipelineTraceID last_id,
           p\<lparr>pl_empty := s, pl_inflight := pl_inflight p + 1\<rparr>))"

definition ProduceToFront :: "64 word \<Rightarrow> producer_continuation \<times> 64 word" where
  "ProduceToFront last_id =
     (CommitFrontTo (GetNextPipelineTraceID last_id), GetNextPipelineTraceID last_id)"

definition push_back :: "'r pipeline_item \<Rightarrow> 'r pipeline \<Rightarrow> 'r pipeline" where
  "push_back x p = p\<lparr>pl_queue := pl_queue p @ [x]\<rparr>"

definition signal_available :: "'r pipeline \<Rightarrow> 'r pipeline" where
  "signal_available p = p\<lparr>pl_available := Signal (pl_available p)\<rparr>"

function pop_excess :: "nat \<Rightarrow> 'a list \<Rightarrow> 'a list" where
  "pop_excess depth q = (if length q > depth then pop_excess depth (butlast q) else q)"
  by pat_completeness auto
termination by (relation "measure (\<lambda>(_, q). length q)") auto

declare pop_excess.simps [simp del]

definition push_front :: "'r pipeline_item \<Rightarrow> 'r pipeline \<Rightarrow> 'r pipeline" where
  "push_front x p = p\<lparr>pl_queue := pop_excess (pl_depth p) (x # pl_queue p)\<rparr>"

definition ProducerCommit :: "'r option \<Rightarrow> 64 word \<Rightarrow> 'r pipeline \<Rightarrow> 'r pipeline" where
  "ProducerCommit r trace_id p = signal_available (push_back (r, trace_id) p)"

definition ProducerCommitFront :: "'r option \<Rightarrow> 64 word \<Rightarrow> 'r pipeline \<Rightarrow> 'r pipeline" where
  "ProducerCommitFront r trace_id p = signal_available (push_front (r, trace_id) p)"

definition run_continuation :: "'r option \<Rightarrow> producer_continuation \<Rightarrow> 'r pipeline \<Rightarrow> 'r pipeline" where
  "run_continuation r c p =
     (case c of
        NoContinuation \<Rightarrow> p
      | CommitTo trace_id \<Rightarrow> ProducerCommit r trace_id p
      | CommitFrontTo trace_id \<Rightarrow> ProducerCommitFront r trace_id p)"

definition Complete :: "'r option \<Rightarrow> producer_continuation \<Rightarrow> 'r pipeline \<Rightarrow> producer_continuation \<times> 'r pipeline" where
  "Complete r c p = (NoContinuation, run_continuation r c p)"

text \<open>A continuation that is dropped commits a null resource.\<close>

definition drop_continuation :: "producer_continuation \<Rightarrow> 'r pipeline \<Rightarrow> 'r pipeline" where
  "drop_continuation c p = run_continuation None c p"

text \<open>The move assignment swaps; the temporary with the old continuation is dropped after it.\<close>

definition assign_continuation ::
    "producer_continuation \<Rightarrow> producer_continuation \<Rightarrow> 'r pipeline \<Rightarrow> producer_continuation \<times> 'r pipeline" where
  "assign_continuation old new p = (new, drop_continuation old p)"

definition pop_front :: "'r pipeline \<Rightarrow> ('r pipeline_item \<times> 'r pipeline) res" where
  "pop_front p =
     (case pl_queue p of
        [] \<Rightarrow> Inl BadIterator
      | x # q \<Rightarrow> Inr (x, p\<lparr>pl_queue := q\<rparr>))"

definition finish_consume :: "'r pipeline \<Rightarrow> 'r pipeline" where
  "finish_consume p = p\<lparr>pl_empty := Signal (pl_empty p), pl_inflight := pl_inflight p - 1\<rparr>"

text \<open>
  The resource handed to the consumer, if one was available. The consumer runs before the slot is
  given back; it does not touch the pipeline.
\<close>

definition Consume ::
    "bool \<Rightarrow> 'r pipeline \<Rightarrow> (pipeline_consume_result \<times> 'r option option \<times> 'r pipeline) res" where
  "Consume has_consumer p =
     (if \<not> has_consumer then Inr (NoneAvailable, None, p)
      else
        (case TryWait (pl_available p) of
           (False, s) \<Rightarrow> Inr (NoneAvailable, None, p\<lparr>pl_available := s\<rparr>)
         | (True, s) \<Rightarrow>
             bind_res (pop_front (p\<lparr>pl_available := s\<rparr>)) (\<lambda>((r, _), p1).
               Inr (if pl_queue p1 \<noteq> [] then MoreAvailable else Done, Some r, finish_consume p1))))"

section \<open>Two threads\<close>

text \<open>
  The pieces of the two threads interleaved. \<open>th_open\<close> counts continuations of \<^verbatim>\<open>Produce\<close> that have not
  committed, \<open>th_pushed\<close> commits that have not signalled, \<open>th_waited\<close> consumers that have passed
  \<^verbatim>\<open>TryWait\<close> and not popped, \<open>th_popped\<close> consumers that have not given the slot back; the histories are
  what was pushed and what was popped.
\<close>

record 'r pipeline_threads =
  th_pipeline :: "'r pipeline"
  th_open :: nat
  th_pushed :: nat
  th_waited :: nat
  th_popped :: nat
  th_produced :: "'r pipeline_item list"
  th_consumed :: "'r pipeline_item list"

inductive pipeline_step :: "'r pipeline_threads \<Rightarrow> 'r pipeline_threads \<Rightarrow> bool" where
  produce:
    "Produce i (th_pipeline w) = (CommitTo t, i', p) \<Longrightarrow>
     pipeline_step w (w\<lparr>th_pipeline := p, th_open := th_open w + 1\<rparr>)"
| push:
    "th_open w > 0 \<Longrightarrow>
     pipeline_step w (w\<lparr>th_pipeline := push_back x (th_pipeline w), th_open := th_open w - 1,
       th_pushed := th_pushed w + 1, th_produced := th_produced w @ [x]\<rparr>)"
| signal:
    "th_pushed w > 0 \<Longrightarrow>
     pipeline_step w (w\<lparr>th_pipeline := signal_available (th_pipeline w), th_pushed := th_pushed w - 1\<rparr>)"
| wait:
    "TryWait (pl_available (th_pipeline w)) = (True, s) \<Longrightarrow>
     pipeline_step w (w\<lparr>th_pipeline := (th_pipeline w)\<lparr>pl_available := s\<rparr>, th_waited := th_waited w + 1\<rparr>)"
| pop:
    "th_waited w > 0 \<Longrightarrow> pop_front (th_pipeline w) = Inr (x, p) \<Longrightarrow>
     pipeline_step w (w\<lparr>th_pipeline := p, th_waited := th_waited w - 1, th_popped := th_popped w + 1,
       th_consumed := th_consumed w @ [x]\<rparr>)"
| finish:
    "th_popped w > 0 \<Longrightarrow>
     pipeline_step w (w\<lparr>th_pipeline := finish_consume (th_pipeline w), th_popped := th_popped w - 1\<rparr>)"

inductive_cases pipeline_stepE: "pipeline_step w w'"

definition pipeline_threads :: "nat \<Rightarrow> 'r pipeline_threads" where
  "pipeline_threads depth =
     \<lparr>th_pipeline = Pipeline True True depth, th_open = 0, th_pushed = 0, th_waited = 0, th_popped = 0,
      th_produced = [], th_consumed = []\<rparr>"

text \<open>
  Every slot is free, held by a producer, queued, or being consumed; and the semaphore of available
  items counts the queued items no consumer has claimed and whose signal has come.
\<close>

definition pipeline_inv :: "nat \<Rightarrow> 'r pipeline_threads \<Rightarrow> bool" where
  "pipeline_inv depth w \<longleftrightarrow>
     (let p = th_pipeline w in
      pl_depth p = depth \<and> pipeline_IsValid p \<and>
      sem_count (pl_empty p) + th_open w + length (pl_queue p) + th_popped w = depth \<and>
      sem_count (pl_available p) + th_waited w + th_pushed w = length (pl_queue p) \<and>
      pl_inflight p = int (th_open w + length (pl_queue p) + th_popped w) \<and>
      th_produced w = th_consumed w @ pl_queue p)"

lemma pipeline_inv_init: "pipeline_inv depth (pipeline_threads depth)"
  by (simp add: pipeline_inv_def pipeline_threads_def Pipeline_def pipeline_IsValid_def Semaphore_def Let_def)

lemma TryWait_True: "TryWait s = (True, s') \<longleftrightarrow> sem_valid s \<and> sem_count s > 0 \<and> s' = s\<lparr>sem_count := sem_count s - 1\<rparr>"
  by (auto simp: TryWait_def)

lemma Produce_CommitTo:
  "Produce i p = (CommitTo t, i', p') \<longleftrightarrow>
     t = i + 1 \<and> i' = i + 1 \<and> sem_valid (pl_empty p) \<and> sem_count (pl_empty p) > 0 \<and>
     p' = p\<lparr>pl_empty := (pl_empty p)\<lparr>sem_count := sem_count (pl_empty p) - 1\<rparr>, pl_inflight := pl_inflight p + 1\<rparr>"
  by (auto simp: Produce_def TryWait_def GetNextPipelineTraceID_def split: prod.splits bool.splits if_splits)

lemma pop_front_Inr: "pop_front p = Inr (x, p') \<longleftrightarrow> (\<exists>q. pl_queue p = x # q \<and> p' = p\<lparr>pl_queue := q\<rparr>)"
  by (auto simp: pop_front_def split: list.splits)

lemmas pipeline_pieces = push_back_def signal_available_def finish_consume_def Signal_def

lemma pipeline_inv_step: "pipeline_step w w' \<Longrightarrow> pipeline_inv depth w \<Longrightarrow> pipeline_inv depth w'"
  by (induction rule: pipeline_step.induct)
    (auto simp: pipeline_inv_def pipeline_IsValid_def Let_def Produce_CommitTo TryWait_True pop_front_Inr pipeline_pieces)



section \<open>Commits to the front\<close>

lemma pop_excess_take: "pop_excess depth q = take depth q"
proof (induction depth q rule: pop_excess.induct)
  case (1 depth q)
  then show ?case
    by (subst pop_excess.simps) (auto simp: butlast_conv_take min_def)
qed

fun consume_frames :: "nat \<Rightarrow> 'r pipeline \<Rightarrow> ('r option list \<times> 'r pipeline) res" where
  "consume_frames 0 p = Inr ([], p)"
| "consume_frames (Suc n) p =
     bind_res (Consume True p) (\<lambda>(_, r, p').
     bind_res (consume_frames n p') (\<lambda>(rs, p''). Inr ((case r of None \<Rightarrow> [] | Some x \<Rightarrow> [x]) @ rs, p'')))"

lemma Consume_Cons:
  assumes "pipeline_IsValid p" "sem_count (pl_available p) = Suc a" "pl_queue p = (r, t) # q"
  shows "\<exists>res p'. Consume True p = Inr (res, Some r, p') \<and> pipeline_IsValid p' \<and>
    sem_count (pl_available p') = a \<and> pl_queue p' = q \<and> sem_count (pl_empty p') = sem_count (pl_empty p) + 1"
  using assms
  by (auto simp: Consume_def TryWait_def pop_front_def pipeline_IsValid_def finish_consume_def Signal_def)

lemma consume_frames_all:
  assumes "pipeline_IsValid p" "sem_count (pl_available p) = length (pl_queue p) + k"
  shows "\<exists>p'. consume_frames (length (pl_queue p)) p = Inr (map fst (pl_queue p), p') \<and>
    pipeline_IsValid p' \<and> sem_count (pl_available p') = k \<and> pl_queue p' = [] \<and>
    sem_count (pl_empty p') = sem_count (pl_empty p) + length (pl_queue p)"
  using assms
proof (induction "pl_queue p" arbitrary: p)
  case (Cons x q)
  obtain r t where x: "x = (r, t)" by fastforce
  obtain res p1 where p1: "Consume True p = Inr (res, Some r, p1)" "pipeline_IsValid p1"
    "sem_count (pl_available p1) = length q + k" "pl_queue p1 = q"
    "sem_count (pl_empty p1) = sem_count (pl_empty p) + 1"
  proof -
    have "sem_count (pl_available p) = Suc (length q + k)" "pl_queue p = (r, t) # q"
      using Cons.prems(2) Cons.hyps(2) x by (metis add_Suc length_Cons, metis)
    with Consume_Cons [OF Cons.prems(1)] that show thesis by blast
  qed
  obtain p2 where p2: "consume_frames (length q) p1 = Inr (map fst q, p2)" "pipeline_IsValid p2"
    "sem_count (pl_available p2) = k" "pl_queue p2 = []"
    "sem_count (pl_empty p2) = sem_count (pl_empty p) + 1 + length q"
    using Cons.hyps(1) [of p1] p1(2-5) by auto
  have "consume_frames (Suc (length q)) p = Inr (r # map fst q, p2)" by (simp add: p1(1) p2(1))
  moreover have "pl_queue p = (r, t) # q" using Cons.hyps(2) x by simp
  ultimately show ?case using p2(2-5) by (intro exI [of _ p2]) (simp del: consume_frames.simps)
qed auto

text \<open>
  C34. A commit to the front of a full pipeline drops the last frame but announces one frame more: the
  frames left can be consumed, and the consumer that the extra signal lets through then reads the
  front of an empty queue.
\<close>

theorem front_commit_overruns:
  assumes "pipeline_IsValid p" "0 < pl_depth p" "length (pl_queue p) = pl_depth p"
    and "sem_count (pl_available p) = length (pl_queue p)"
  shows "\<exists>p'. consume_frames (pl_depth p) (ProducerCommitFront r t p) =
      Inr (r # map fst (butlast (pl_queue p)), p') \<and> Consume True p' = Inl BadIterator"
proof -
  let ?p = "ProducerCommitFront r t p"
  obtain d where d: "pl_depth p = Suc d" using assms(2) by (cases "pl_depth p") auto
  have q: "pl_queue ?p = (r, t) # butlast (pl_queue p)"
    using assms(3) d by (simp add: ProducerCommitFront_def push_front_def signal_available_def pop_excess_take butlast_conv_take)
  have "pipeline_IsValid ?p" "sem_count (pl_available ?p) = length (pl_queue ?p) + 1"
    using assms(1,3,4) d unfolding q
    by (simp_all add: ProducerCommitFront_def push_front_def pipeline_pieces pipeline_IsValid_def)
  from consume_frames_all [OF this] obtain p' where p': "consume_frames (length (pl_queue ?p)) ?p = Inr (map fst (pl_queue ?p), p')"
    "pipeline_IsValid p'" "sem_count (pl_available p') = 1" "pl_queue p' = []" by blast
  have "Consume True p' = Inl BadIterator"
    using p'(2-4) by (simp add: Consume_def TryWait_def pop_front_def pipeline_IsValid_def)
  moreover have "length (pl_queue ?p) = pl_depth p" using assms(3) d q by simp
  ultimately show ?thesis using p'(1) q by auto
qed

lemma front_commit_overruns_witness:
  "\<exists>p'. consume_frames 1 (ProducerCommitFront (Some 8) 9
        \<lparr>pl_depth = 1, pl_empty = \<lparr>sem_valid = True, sem_count = 0\<rparr>,
         pl_available = \<lparr>sem_valid = True, sem_count = 1\<rparr>, pl_inflight = 1, pl_queue = [(Some (3::nat), 4)]\<rparr>) =
      Inr ([Some 8], p') \<and> Consume True p' = Inl BadIterator"
  using front_commit_overruns [of "\<lparr>pl_depth = 1, pl_empty = \<lparr>sem_valid = True, sem_count = 0\<rparr>,
      pl_available = \<lparr>sem_valid = True, sem_count = 1\<rparr>, pl_inflight = 1, pl_queue = [(Some (3::nat), 4)]\<rparr>" "Some 8" 9]
  by (simp add: pipeline_IsValid_def)

end
