(* ===== verification/Rasterizer.thy ===== *)
theory Rasterizer
  imports Frame_Pipeline Thread_Merger
begin

text \<open>
  \<^verbatim>\<open>shell/common/rasterizer.cc\<close> with \<^verbatim>\<open>flow/compositor_context.cc\<close>: drawing the frames of the pipeline. The
  graphics library and the surface are parameters: whether a frame and a compositor frame can be
  acquired, what the view embedder decides after the preroll, and what the shader cache says. What
  the code does with them is recorded as events.
\<close>

section \<open>Rasterizing one layer tree\<close>

datatype raster_status = RasterSuccess | RasterResubmit | RasterEnqueuePipeline | RasterFailed
datatype post_preroll_result = PrerollSuccess | PrerollResubmitFrame

datatype raster_event =
    Preroll
  | SaveLayer
  | ClearCanvas
  | PaintTree
  | RestoreCanvas
  | EmbedderBeginFrame
  | SubmitSurfaceFrame
  | EmbedderSubmitFrame
  | NextFrameCallback
  | DeferredCleanup
  | DumpSkp
  | FrameRasterized

text \<open>
  The environment of one frame: the surface's frame, the compositor's frame, the root's need of
  readback, and the rest as named.
\<close>

record frame_env =
  fe_surface_frame :: bool
  fe_compositor_frame :: bool
  fe_needs_readback :: bool
  fe_supports_readback :: bool
  fe_has_canvas :: bool
  fe_post_preroll :: post_preroll_result
  fe_has_gr_context :: bool
  fe_dumping_skp :: bool
  fe_stored_new_shaders :: bool
  fe_screenshot_data :: bool

record 't rasterizer =
  rs_surface :: bool
  rs_view_embedder :: bool
  rs_last_layer_tree :: "'t option"
  rs_resubmitted_layer_tree :: "'t option"
  rs_next_frame_callback :: bool
  rs_user_override_cache_bytes :: bool
  rs_max_cache_bytes :: "nat option"
  rs_merger :: "gpu_thread_merger option"

definition Raster :: "frame_env \<Rightarrow> bool \<Rightarrow> bool \<Rightarrow> raster_event list \<times> raster_status" where
  "Raster e has_view_embedder has_merger =
     (let needs_save_layer = fe_needs_readback e \<and> \<not> fe_supports_readback e in
      if has_view_embedder \<and> has_merger \<and> fe_post_preroll e = PrerollResubmitFrame
      then ([Preroll], RasterResubmit)
      else
        (Preroll #
         (if fe_has_canvas e then (if needs_save_layer then [SaveLayer] else []) @ [ClearCanvas] else []) @
         [PaintTree] @
         (if fe_has_canvas e \<and> needs_save_layer then [RestoreCanvas] else []), RasterSuccess))"

text \<open>The callback for the next frame may install a new one; \<open>renews\<close> says whether it does.\<close>

definition FireNextFrameCallbackIfPresent :: "bool \<Rightarrow> 't rasterizer \<Rightarrow> raster_event list \<times> 't rasterizer" where
  "FireNextFrameCallbackIfPresent renews r =
     (if \<not> rs_next_frame_callback r then ([], r)
      else ([NextFrameCallback], r\<lparr>rs_next_frame_callback := renews\<rparr>))"

definition SetNextFrameCallback :: "bool \<Rightarrow> 't rasterizer \<Rightarrow> 't rasterizer" where
  "SetNextFrameCallback callback r = r\<lparr>rs_next_frame_callback := callback\<rparr>"

definition DrawToSurface ::
    "frame_env \<Rightarrow> bool \<Rightarrow> 't rasterizer \<Rightarrow> (raster_event list \<times> raster_status \<times> 't rasterizer) res" where
  "DrawToSurface e renews r =
     bind_res (guard DCheckFailed (rs_surface r)) (\<lambda>_.
       if \<not> fe_surface_frame e then Inr ([], RasterFailed, r)
       else
         let begun = (if rs_view_embedder r then [EmbedderBeginFrame] else []) in
         if \<not> fe_compositor_frame e then Inr (begun, RasterFailed, r)
         else
           let (drawn, status) = Raster e (rs_view_embedder r) (rs_merger r \<noteq> None) in
           if status = RasterFailed then Inr (begun @ drawn, status, r)
           else
             let (fired, r') = FireNextFrameCallbackIfPresent renews r in
             Inr (begun @ drawn @ [SubmitSurfaceFrame] @
                  (if rs_view_embedder r then [EmbedderSubmitFrame] else []) @ fired @
                  (if fe_has_gr_context e then [DeferredCleanup] else []), status, r'))"

definition DrawLastLayerTree_raster ::
    "frame_env \<Rightarrow> bool \<Rightarrow> 't rasterizer \<Rightarrow> (raster_event list \<times> 't rasterizer) res" where
  "DrawLastLayerTree_raster e renews r =
     (if rs_last_layer_tree r = None \<or> \<not> rs_surface r then Inr ([], r)
      else bind_res (DrawToSurface e renews r) (\<lambda>(evs, _, r'). Inr (evs, r')))"

text \<open>
  A screenshot of the last layer tree for the shader cache: without a tree or without data there is
  nothing to dereference.
\<close>

definition dump_skp :: "frame_env \<Rightarrow> 't rasterizer \<Rightarrow> raster_event list res" where
  "dump_skp e r =
     (if fe_dumping_skp e \<and> fe_stored_new_shaders e then
        bind_res (guard NullDeref (rs_last_layer_tree r \<noteq> None \<and> fe_screenshot_data e)) (\<lambda>_. Inr [DumpSkp])
      else Inr [])"

definition decrement_lease ::
    "'t rasterizer \<Rightarrow> ('c, 'w) task_queues \<Rightarrow>
     (bool \<times> 't rasterizer \<times> ('c, 'w) task_queues) res" where
  "decrement_lease r qs =
     (case rs_merger r of
        None \<Rightarrow> Inr (False, r, qs)
      | Some m \<Rightarrow>
          bind_res (DecrementLease (m, qs)) (\<lambda>(status, m', qs').
            Inr (status = kUnmergedNow, r\<lparr>rs_merger := Some m'\<rparr>, qs')))"

definition DoDraw ::
    "frame_env \<Rightarrow> bool \<Rightarrow> 't option \<Rightarrow> 't rasterizer \<Rightarrow> ('c, 'w) task_queues \<Rightarrow>
     (raster_event list \<times> raster_status \<times> 't rasterizer \<times> ('c, 'w) task_queues) res" where
  "DoDraw e renews layer_tree r qs =
     (if layer_tree = None \<or> \<not> rs_surface r then Inr ([], RasterFailed, r, qs)
      else
        bind_res (DrawToSurface e renews r) (\<lambda>(evs, status, r1).
          if status = RasterResubmit
          then Inr (evs, status, r1\<lparr>rs_resubmitted_layer_tree := layer_tree\<rparr>, qs)
          else
            let r2 = (if status = RasterSuccess then r1\<lparr>rs_last_layer_tree := layer_tree\<rparr> else r1) in
            bind_res (dump_skp e r2) (\<lambda>dumped.
            bind_res (decrement_lease r2 qs) (\<lambda>(unmerged, r3, qs').
              Inr (evs @ dumped @ [FrameRasterized],
                   if unmerged then RasterEnqueuePipeline else status, r3, qs')))))"

section \<open>Drawing from the pipeline\<close>

record ('t, 'c, 'w) gpu_world =
  gw_rasterizer :: "'t rasterizer"
  gw_pipeline :: "'t pipeline"
  gw_queues :: "('c, 'w) task_queues"
  gw_trace_id :: "64 word"
  gw_events :: "raster_event list"
  gw_posted_draws :: nat

text \<open>The consumer passed to the pipeline draws the layer tree it gets.\<close>

definition consume_and_draw ::
    "frame_env \<Rightarrow> bool \<Rightarrow> ('t, 'c, 'w) gpu_world \<Rightarrow>
     (pipeline_consume_result \<times> raster_status \<times> ('t, 'c, 'w) gpu_world) res" where
  "consume_and_draw e renews w =
     bind_res (Consume True (gw_pipeline w)) (\<lambda>(result, resource, p).
       (case resource of
          None \<Rightarrow> Inr (result, RasterFailed, w\<lparr>gw_pipeline := p\<rparr>)
        | Some layer_tree \<Rightarrow>
            bind_res (DoDraw e renews layer_tree (gw_rasterizer w) (gw_queues w)) (\<lambda>(evs, status, r, qs).
              Inr (result, status,
                   w\<lparr>gw_pipeline := p, gw_rasterizer := r, gw_queues := qs, gw_events := gw_events w @ evs\<rparr>))))"

definition resubmit :: "('t, 'c, 'w) gpu_world \<Rightarrow> ('t, 'c, 'w) gpu_world" where
  "resubmit w =
     (let (front, trace_id) = ProduceToFront (gw_trace_id w);
          (_, p) = Complete (rs_resubmitted_layer_tree (gw_rasterizer w)) front (gw_pipeline w) in
      w\<lparr>gw_trace_id := trace_id, gw_pipeline := p,
        gw_rasterizer := (gw_rasterizer w)\<lparr>rs_resubmitted_layer_tree := None\<rparr>\<rparr>)"

text \<open>\<open>current\<close> is the task queue of the calling thread, which must run GPU tasks.\<close>

definition Draw ::
    "frame_env \<Rightarrow> bool \<Rightarrow> task_queue_id \<Rightarrow> bool \<Rightarrow> ('t, 'c, 'w) gpu_world \<Rightarrow> ('t, 'c, 'w) gpu_world res" where
  "Draw e renews current runs_gpu_tasks w =
     (if pred_option (\<lambda>m. IsOnRasterizingThread current m) (rs_merger (gw_rasterizer w)) then
        bind_res (guard DCheckFailed runs_gpu_tasks) (\<lambda>_.
        bind_res (consume_and_draw e renews w) (\<lambda>(result, status, w1).
          let (more, w2) =
            (if status = RasterResubmit then (MoreAvailable, resubmit w1)
             else if status = RasterEnqueuePipeline then (MoreAvailable, w1)
             else (result, w1)) in
          Inr (if more = MoreAvailable then w2\<lparr>gw_posted_draws := gw_posted_draws w2 + 1\<rparr> else w2)))
      else Inr w)"

section \<open>Set-up\<close>

text \<open>\<open>merger\<close> is the thread merger made for a surface with a view embedder.\<close>

definition SetResourceCacheMaxBytes :: "nat \<Rightarrow> bool \<Rightarrow> 't rasterizer \<Rightarrow> 't rasterizer" where
  "SetResourceCacheMaxBytes max_bytes from_user r =
     (let r1 = r\<lparr>rs_user_override_cache_bytes := rs_user_override_cache_bytes r \<or> from_user\<rparr> in
      if \<not> from_user \<and> rs_user_override_cache_bytes r1 then r1
      else r1\<lparr>rs_max_cache_bytes := Some max_bytes\<rparr>)"

definition Setup ::
    "bool \<Rightarrow> gpu_thread_merger res \<Rightarrow> 't rasterizer \<Rightarrow> 't rasterizer res" where
  "Setup view_embedder merger r =
     (let r1 = r\<lparr>rs_surface := True, rs_view_embedder := view_embedder\<rparr>;
          r2 = (case rs_max_cache_bytes r1 of
                  None \<Rightarrow> r1
                | Some n \<Rightarrow> SetResourceCacheMaxBytes n (rs_user_override_cache_bytes r1) r1) in
      if view_embedder then bind_res merger (\<lambda>m. Inr (r2\<lparr>rs_merger := Some m\<rparr>)) else Inr r2)"

definition Teardown :: "'t rasterizer \<Rightarrow> 't rasterizer" where
  "Teardown r = r\<lparr>rs_surface := False, rs_last_layer_tree := None\<rparr>"

section \<open>Frames and the last layer tree\<close>

lemma DrawToSurface_frame:
  "DrawToSurface e renews r = Inr (evs, status, r') \<Longrightarrow>
     rs_last_layer_tree r' = rs_last_layer_tree r \<and> rs_surface r' = rs_surface r \<and>
     rs_max_cache_bytes r' = rs_max_cache_bytes r \<and> rs_merger r' = rs_merger r \<and>
     (status = RasterFailed \<longrightarrow> r' = r \<and> SubmitSurfaceFrame \<notin> set evs) \<and> status \<noteq> RasterEnqueuePipeline"
  by (auto simp: DrawToSurface_def FireNextFrameCallbackIfPresent_def Raster_def Let_def split: if_splits)

lemma decrement_lease_frame:
  "decrement_lease r qs = Inr (b, r', qs') \<Longrightarrow>
     rs_last_layer_tree r' = rs_last_layer_tree r \<and> rs_surface r' = rs_surface r"
  by (auto simp: decrement_lease_def split: option.splits)

text \<open>The last layer tree is replaced exactly by the trees that rasterize.\<close>

lemma DoDraw_last_layer_tree:
  assumes "DoDraw e renews (Some t) r qs = Inr (evs, status, r', qs')" "rs_surface r"
  shows "rs_last_layer_tree r' =
    (if (\<exists>evs' r1. DrawToSurface e renews r = Inr (evs', RasterSuccess, r1)) then Some t else rs_last_layer_tree r)"
  using assms DrawToSurface_frame [of e renews r]
  by (auto simp: DoDraw_def Let_def split: if_splits dest!: decrement_lease_frame)

text \<open>
  A frame that is resubmitted gives its slot back twice: it is back in the queue, and its slot is
  free.
\<close>

lemma resubmitted_frame_leaks_slot:
  assumes "consume_and_draw e renews w = Inr (result, RasterResubmit, w1)"
    "pipeline_IsValid (gw_pipeline w)" "length (pl_queue (gw_pipeline w)) \<le> pl_depth (gw_pipeline w)"
  shows "length (pl_queue (gw_pipeline (resubmit w1))) = length (pl_queue (gw_pipeline w))"
    "sem_count (pl_empty (gw_pipeline (resubmit w1))) = sem_count (pl_empty (gw_pipeline w)) + 1"
  using assms
  by (auto simp: consume_and_draw_def resubmit_def Complete_def run_continuation_def ProduceToFront_def
      ProducerCommitFront_def push_front_def signal_available_def pop_excess_take Consume_def pop_front_def
      finish_consume_def Signal_def TryWait_def pipeline_IsValid_def Let_def
      split: if_splits option.splits list.splits prod.splits bool.splits)

end
