(* ===== verification/Animator.thy ===== *)
theory Animator
  imports Frame_Pipeline
begin

text \<open>
  \<^verbatim>\<open>shell/common/vsync_waiter.cc\<close> and \<^verbatim>\<open>shell/common/animator.cc\<close>: frames are requested, wait for the
  vertical sync, are built by the framework and committed to the pipeline. Closures posted to the UI
  thread are tasks of the world, which may run in any order; what the framework does when it is told
  to build a frame is a list of calls of the animator.
\<close>

section \<open>The vsync waiter\<close>

record ('c, 's) vsync_waiter =
  vw_callback :: "'c option"
  vw_secondary_callback :: "'s option"

text \<open>The first component says whether the platform's \<^verbatim>\<open>AwaitVSync\<close> is called.\<close>

definition AsyncWaitForVsync ::
    "'c option \<Rightarrow> ('c, 's) vsync_waiter \<Rightarrow> bool \<times> ('c, 's) vsync_waiter" where
  "AsyncWaitForVsync callback v =
     (if callback = None then (False, v)
      else if vw_callback v \<noteq> None then (False, v)
      else (vw_secondary_callback v = None, v\<lparr>vw_callback := callback\<rparr>))"

definition ScheduleSecondaryCallback ::
    "bool \<Rightarrow> 's option \<Rightarrow> ('c, 's) vsync_waiter \<Rightarrow> (bool \<times> ('c, 's) vsync_waiter) res" where
  "ScheduleSecondaryCallback on_ui_thread callback v =
     bind_res (guard DCheckFailed on_ui_thread) (\<lambda>_.
       Inr (if callback = None then (False, v)
            else if vw_secondary_callback v \<noteq> None then (False, v)
            else (vw_callback v = None, v\<lparr>vw_secondary_callback := callback\<rparr>)))"

text \<open>The callbacks that are posted to the UI thread, the secondary one after the other.\<close>

definition FireCallback :: "('c, 's) vsync_waiter \<Rightarrow> ('c option \<times> 's option) \<times> ('c, 's) vsync_waiter" where
  "FireCallback v =
     ((vw_callback v, vw_secondary_callback v), v\<lparr>vw_callback := None, vw_secondary_callback := None\<rparr>)"

section \<open>The animator\<close>

type_synonym isize = "32 word \<times> 32 word"

datatype 's ui_task =
    AwaitVSyncTask "64 word"
  | NotifyIdleTask "32 word"
  | VsyncTask int int
  | SecondaryTask 's

datatype delegate_event =
    OnAnimatorBeginFrame int
  | OnAnimatorNotifyIdle int
  | OnAnimatorDraw
  | OnAnimatorDrawLastLayerTree

text \<open>A layer tree is its size and whatever else it has.\<close>

record ('t, 's) animator =
  an_paused :: bool
  an_regenerate_layer_tree :: bool
  an_frame_scheduled :: bool
  an_notify_idle_task_id :: "32 word"
  an_dimension_change_pending :: bool
  an_last_layer_tree_size :: isize
  an_trace_flow_ids :: "64 word list"
  an_frame_number :: "64 word"
  an_last_begin_frame_time :: int
  an_dart_frame_deadline :: int
  an_pending_frame_semaphore :: semaphore
  an_producer_continuation :: producer_continuation
  an_pipeline :: "(isize \<times> 't) pipeline"
  an_trace_id :: "64 word"
  an_waiter :: "(unit, 's) vsync_waiter"
  an_vsync_requests :: nat
  an_ui_tasks :: "'s ui_task list"
  an_events :: "delegate_event list"

definition Animator :: "bool \<Rightarrow> bool \<Rightarrow> 64 word \<Rightarrow> ('t, 's) animator" where
  "Animator metal platform_is_gpu trace_id =
     \<lparr>an_paused = False, an_regenerate_layer_tree = False, an_frame_scheduled = False,
      an_notify_idle_task_id = 0, an_dimension_change_pending = False, an_last_layer_tree_size = (0, 0),
      an_trace_flow_ids = [], an_frame_number = 1, an_last_begin_frame_time = 0, an_dart_frame_deadline = 0,
      an_pending_frame_semaphore = Semaphore True 1, an_producer_continuation = NoContinuation,
      an_pipeline = Pipeline True True (if metal then 2 else if platform_is_gpu then 1 else 2),
      an_trace_id = trace_id, an_waiter = \<lparr>vw_callback = None, vw_secondary_callback = None\<rparr>,
      an_vsync_requests = 0, an_ui_tasks = [], an_events = []\<rparr>"

definition notify :: "delegate_event \<Rightarrow> ('t, 's) animator \<Rightarrow> ('t, 's) animator" where
  "notify ev a = a\<lparr>an_events := an_events a @ [ev]\<rparr>"

definition post_ui :: "'s ui_task \<Rightarrow> ('t, 's) animator \<Rightarrow> ('t, 's) animator" where
  "post_ui task a = a\<lparr>an_ui_tasks := an_ui_tasks a @ [task]\<rparr>"

definition RequestFrame :: "bool \<Rightarrow> ('t, 's) animator \<Rightarrow> ('t, 's) animator" where
  "RequestFrame regenerate_layer_tree a =
     (let a1 = (if regenerate_layer_tree then a\<lparr>an_regenerate_layer_tree := True\<rparr> else a) in
      if an_paused a1 \<and> \<not> an_dimension_change_pending a1 then a1
      else
        (case TryWait (an_pending_frame_semaphore a1) of
           (False, s) \<Rightarrow> a1\<lparr>an_pending_frame_semaphore := s\<rparr>
         | (True, s) \<Rightarrow>
             post_ui (AwaitVSyncTask (an_frame_number a1)) (a1\<lparr>an_pending_frame_semaphore := s\<rparr>)
               \<lparr>an_frame_scheduled := True\<rparr>))"

definition Stop :: "('t, 's) animator \<Rightarrow> ('t, 's) animator" where
  "Stop a = a\<lparr>an_paused := True\<rparr>"

definition Start :: "('t, 's) animator \<Rightarrow> ('t, 's) animator" where
  "Start a = (if \<not> an_paused a then a else RequestFrame True (a\<lparr>an_paused := False\<rparr>))"

definition SetDimensionChangePending :: "('t, 's) animator \<Rightarrow> ('t, 's) animator" where
  "SetDimensionChangePending a = a\<lparr>an_dimension_change_pending := True\<rparr>"

text \<open>The flow is enqueued now on the UI thread, or by a task posted there.\<close>

definition EnqueueTraceFlowId :: "64 word \<Rightarrow> ('t, 's) animator \<Rightarrow> ('t, 's) animator" where
  "EnqueueTraceFlowId trace_flow_id a = a\<lparr>an_trace_flow_ids := an_trace_flow_ids a @ [trace_flow_id]\<rparr>"

definition Render :: "(isize \<times> 't) option \<Rightarrow> ('t, 's) animator \<Rightarrow> ('t, 's) animator res" where
  "Render layer_tree a =
     (case layer_tree of
        None \<Rightarrow> Inl NullDeref
      | Some (frame_size, t) \<Rightarrow>
          let a1 = (if an_dimension_change_pending a \<and> frame_size \<noteq> an_last_layer_tree_size a
                    then a\<lparr>an_dimension_change_pending := False\<rparr> else a)\<lparr>an_last_layer_tree_size := frame_size\<rparr>;
              (c, p) = Complete layer_tree (an_producer_continuation a1) (an_pipeline a1) in
          Inr (notify OnAnimatorDraw (a1\<lparr>an_producer_continuation := c, an_pipeline := p\<rparr>)))"

definition ScheduleSecondaryVsyncCallback :: "bool \<Rightarrow> 's option \<Rightarrow> ('t, 's) animator \<Rightarrow> ('t, 's) animator res" where
  "ScheduleSecondaryVsyncCallback on_ui_thread callback a =
     bind_res (ScheduleSecondaryCallback on_ui_thread callback (an_waiter a)) (\<lambda>(await, v).
       Inr (a\<lparr>an_waiter := v, an_vsync_requests := an_vsync_requests a + (if await then 1 else 0)\<rparr>))"

text \<open>The public operations, and what the framework does with them while it builds a frame.\<close>

datatype ('t, 's) animator_call =
    CallRequestFrame bool
  | CallRender "(isize \<times> 't) option"
  | CallStart
  | CallStop
  | CallSetDimensionChangePending
  | CallEnqueueTraceFlowId "64 word"
  | CallScheduleSecondary "'s option"

definition animator_call :: "('t, 's) animator_call \<Rightarrow> ('t, 's) animator \<Rightarrow> ('t, 's) animator res" where
  "animator_call c a =
     (case c of
        CallRequestFrame b \<Rightarrow> Inr (RequestFrame b a)
      | CallRender t \<Rightarrow> Render t a
      | CallStart \<Rightarrow> Inr (Start a)
      | CallStop \<Rightarrow> Inr (Stop a)
      | CallSetDimensionChangePending \<Rightarrow> Inr (SetDimensionChangePending a)
      | CallEnqueueTraceFlowId i \<Rightarrow> Inr (EnqueueTraceFlowId i a)
      | CallScheduleSecondary s \<Rightarrow> ScheduleSecondaryVsyncCallback True s a)"

fun animator_calls :: "('t, 's) animator_call list \<Rightarrow> ('t, 's) animator \<Rightarrow> ('t, 's) animator res" where
  "animator_calls [] a = Inr a"
| "animator_calls (c # cs) a = bind_res (animator_call c a) (animator_calls cs)"

text \<open>Nanoseconds to microseconds, truncated towards zero.\<close>

definition FxlToDartOrEarlier :: "int \<Rightarrow> int \<Rightarrow> int \<Rightarrow> int" where
  "FxlToDartOrEarlier dart_now fxl_now time =
     (let d = time - fxl_now in (if d \<ge> 0 then d div 1000 else - (- d div 1000)) + dart_now)"

definition BeginFrame ::
    "int \<Rightarrow> int \<Rightarrow> ('t, 's) animator_call list \<Rightarrow> int \<Rightarrow> int \<Rightarrow> ('t, 's) animator \<Rightarrow> ('t, 's) animator res" where
  "BeginFrame dart_now fxl_now framework frame_start_time frame_target_time a =
     (let a1 = a\<lparr>an_frame_number := an_frame_number a + 1, an_trace_flow_ids := [],
                 an_frame_scheduled := False, an_notify_idle_task_id := an_notify_idle_task_id a + 1,
                 an_regenerate_layer_tree := False,
                 an_pending_frame_semaphore := Signal (an_pending_frame_semaphore a)\<rparr>;
          a2 = (if an_producer_continuation a1 = NoContinuation then
                  let (c, trace_id, p) = Produce (an_trace_id a1) (an_pipeline a1);
                      (c', p') = assign_continuation (an_producer_continuation a1) c p in
                  a1\<lparr>an_producer_continuation := c', an_pipeline := p', an_trace_id := trace_id\<rparr>
                else a1) in
      if an_producer_continuation a2 = NoContinuation then Inr (RequestFrame True a2)
      else
        bind_res (animator_calls framework
          (notify (OnAnimatorBeginFrame frame_target_time)
             (a2\<lparr>an_last_begin_frame_time := frame_start_time,
                 an_dart_frame_deadline := FxlToDartOrEarlier dart_now fxl_now frame_target_time\<rparr>))) (\<lambda>a3.
          Inr (if \<not> an_frame_scheduled a3 then post_ui (NotifyIdleTask (an_notify_idle_task_id a3)) a3 else a3)))"

definition CanReuseLastLayerTree :: "('t, 's) animator \<Rightarrow> bool" where
  "CanReuseLastLayerTree a \<longleftrightarrow> \<not> an_regenerate_layer_tree a"

definition DrawLastLayerTree :: "('t, 's) animator \<Rightarrow> ('t, 's) animator" where
  "DrawLastLayerTree a =
     notify OnAnimatorDrawLastLayerTree
       (a\<lparr>an_pending_frame_semaphore := Signal (an_pending_frame_semaphore a)\<rparr>)"

definition AwaitVSync :: "('t, 's) animator \<Rightarrow> ('t, 's) animator" where
  "AwaitVSync a =
     (let (await, v) = AsyncWaitForVsync (Some ()) (an_waiter a) in
      notify (OnAnimatorNotifyIdle (an_dart_frame_deadline a))
        (a\<lparr>an_waiter := v, an_vsync_requests := an_vsync_requests a + (if await then 1 else 0)\<rparr>))"

section \<open>Running\<close>

text \<open>
  Tasks of the UI thread with the clocks and the framework's calls at that moment; a secondary
  callback belongs to its owner and is run there.
\<close>

definition run_ui_task ::
    "int \<Rightarrow> int \<Rightarrow> ('t, 's) animator_call list \<Rightarrow> 's ui_task \<Rightarrow> ('t, 's) animator \<Rightarrow> ('t, 's) animator res" where
  "run_ui_task dart_now fxl_now framework task a =
     (case task of
        AwaitVSyncTask _ \<Rightarrow> Inr (AwaitVSync a)
      | NotifyIdleTask i \<Rightarrow>
          Inr (if i = an_notify_idle_task_id a \<and> \<not> an_frame_scheduled a
               then notify (OnAnimatorNotifyIdle (dart_now + 100000)) a else a)
      | VsyncTask frame_start_time frame_target_time \<Rightarrow>
          if CanReuseLastLayerTree a then Inr (DrawLastLayerTree a)
          else BeginFrame dart_now fxl_now framework frame_start_time frame_target_time a
      | SecondaryTask _ \<Rightarrow> Inr a)"

definition fire_vsync :: "int \<Rightarrow> int \<Rightarrow> ('t, 's) animator \<Rightarrow> ('t, 's) animator" where
  "fire_vsync frame_start_time frame_target_time a =
     (let ((callback, secondary), v) = FireCallback (an_waiter a);
          a1 = a\<lparr>an_waiter := v, an_vsync_requests := an_vsync_requests a - 1\<rparr>;
          a2 = (if callback \<noteq> None then post_ui (VsyncTask frame_start_time frame_target_time) a1 else a1) in
      (case secondary of None \<Rightarrow> a2 | Some s \<Rightarrow> post_ui (SecondaryTask s) a2))"

text \<open>
  A step of the system: a call of the animator, the task at some position of the UI thread, a vertical
  sync the platform was asked for, or the GPU thread consuming a frame.
\<close>

datatype ('t, 's) animator_step =
    Invoke "('t, 's) animator_call"
  | RunTask nat int int "('t, 's) animator_call list"
  | Vsync int int
  | GpuConsume

definition remove_nth :: "nat \<Rightarrow> 'a list \<Rightarrow> 'a list" where
  "remove_nth i xs = take i xs @ drop (Suc i) xs"

definition animator_step :: "('t, 's) animator_step \<Rightarrow> ('t, 's) animator \<Rightarrow> ('t, 's) animator res" where
  "animator_step st a =
     (case st of
        Invoke c \<Rightarrow> animator_call c a
      | RunTask i dart_now fxl_now framework \<Rightarrow>
          if i < length (an_ui_tasks a) then
            run_ui_task dart_now fxl_now framework (an_ui_tasks a ! i)
              (a\<lparr>an_ui_tasks := remove_nth i (an_ui_tasks a)\<rparr>)
          else Inr a
      | Vsync t0 t1 \<Rightarrow> Inr (if an_vsync_requests a > 0 then fire_vsync t0 t1 a else a)
      | GpuConsume \<Rightarrow>
          bind_res (Consume True (an_pipeline a)) (\<lambda>(_, _, p). Inr (a\<lparr>an_pipeline := p\<rparr>)))"

fun animator_run :: "('t, 's) animator_step list \<Rightarrow> ('t, 's) animator \<Rightarrow> ('t, 's) animator res" where
  "animator_run [] a = Inr a"
| "animator_run (st # sts) a = bind_res (animator_step st a) (animator_run sts)"

section \<open>One frame request at a time\<close>

fun is_frame_task :: "'s ui_task \<Rightarrow> bool" where
  "is_frame_task (AwaitVSyncTask _) = True"
| "is_frame_task (VsyncTask _ _) = True"
| "is_frame_task _ = False"

definition frame_requests :: "('t, 's) animator \<Rightarrow> nat" where
  "frame_requests a =
     length (filter is_frame_task (an_ui_tasks a)) + (if vw_callback (an_waiter a) = None then 0 else 1)"

text \<open>
  The frame semaphore is free, or a request is on its way as a task or in the waiter, or it is in hand
  (\<open>k\<close>); the platform is asked for one vertical sync exactly if a callback waits for it; and the slots
  of the pipeline are accounted for.
\<close>

definition pipeline_settled :: "producer_continuation \<Rightarrow> 'r pipeline \<Rightarrow> bool" where
  "pipeline_settled c p \<longleftrightarrow>
     pipeline_IsValid p \<and> (\<forall>t. c \<noteq> CommitFrontTo t) \<and>
     sem_count (pl_empty p) + (if c = NoContinuation then 0 else 1) + length (pl_queue p) = pl_depth p \<and>
     sem_count (pl_available p) = length (pl_queue p)"

definition animator_inv :: "nat \<Rightarrow> ('t, 's) animator \<Rightarrow> bool" where
  "animator_inv k a \<longleftrightarrow>
     sem_valid (an_pending_frame_semaphore a) \<and>
     sem_count (an_pending_frame_semaphore a) + frame_requests a + k = 1 \<and>
     an_vsync_requests a =
       (if vw_callback (an_waiter a) = None \<and> vw_secondary_callback (an_waiter a) = None then 0 else 1) \<and>
     pipeline_settled (an_producer_continuation a) (an_pipeline a)"

lemmas animator_inv_defs = animator_inv_def frame_requests_def notify_def post_ui_def

lemma Animator_inv: "animator_inv 0 (Animator metal platform_is_gpu trace_id)"
  by (simp add: animator_inv_defs Animator_def Semaphore_def pipeline_settled_def Pipeline_def pipeline_IsValid_def)

lemma Produce_settled:
  assumes "pipeline_settled NoContinuation p" "Produce i p = (c, i', p')"
  shows "pipeline_settled c p'"
  using assms
  by (auto simp: pipeline_settled_def Produce_def TryWait_def pipeline_IsValid_def split: if_splits)

lemma Complete_settled:
  assumes "pipeline_settled c p" "Complete r c p = (c', p')"
  shows "pipeline_settled c' p'"
  using assms
  by (cases c) (auto simp: pipeline_settled_def Complete_def run_continuation_def ProducerCommit_def
      push_back_def signal_available_def Signal_def pipeline_IsValid_def)

lemma Consume_settled:
  assumes "pipeline_settled c p"
  shows "\<exists>res r p'. Consume True p = Inr (res, r, p') \<and> pipeline_settled c p'"
  using assms
  by (cases "pl_queue p")
    (auto simp: pipeline_settled_def Consume_def TryWait_def pop_front_def finish_consume_def Signal_def
      pipeline_IsValid_def)

lemma request_inv:
  assumes "animator_inv k a" "TryWait (an_pending_frame_semaphore a) = (ok, s)"
  shows "animator_inv k (if ok
    then post_ui (AwaitVSyncTask n) (a\<lparr>an_pending_frame_semaphore := s\<rparr>)\<lparr>an_frame_scheduled := True\<rparr>
    else a\<lparr>an_pending_frame_semaphore := s\<rparr>)"
  using assms by (auto simp: animator_inv_defs TryWait_def split: if_splits simp flip: length_0_conv)

lemma RequestFrame_inv:
  assumes "animator_inv k a"
  shows "animator_inv k (RequestFrame b a)"
proof -
  let ?a = "if b then a\<lparr>an_regenerate_layer_tree := True\<rparr> else a"
  have inv: "animator_inv k ?a" using assms by (simp add: animator_inv_defs)
  obtain ok s where t: "TryWait (an_pending_frame_semaphore ?a) = (ok, s)" by fastforce
  show ?thesis
    using inv request_inv [OF inv t] t unfolding RequestFrame_def Let_def
    by (cases ok; cases "an_paused ?a \<and> \<not> an_dimension_change_pending ?a") (simp_all only: if_True if_False prod.case bool.case simp_thms)
qed

lemma Render_inv:
  assumes inv: "animator_inv k a" and r: "Render t a = Inr a'"
  shows "animator_inv k a'"
proof -
  obtain size tree where t: "t = Some (size, tree)" using r by (auto simp: Render_def split: option.splits)
  let ?a = "(if an_dimension_change_pending a \<and> size \<noteq> an_last_layer_tree_size a
      then a\<lparr>an_dimension_change_pending := False\<rparr> else a)\<lparr>an_last_layer_tree_size := size\<rparr>"
  have inv': "animator_inv k ?a" using inv by (auto simp: animator_inv_defs)
  obtain c p where c: "Complete t (an_producer_continuation ?a) (an_pipeline ?a) = (c, p)" by fastforce
  then have "pipeline_settled c p" using inv' Complete_settled by (auto simp: animator_inv_def)
  moreover have "a' = notify OnAnimatorDraw (?a\<lparr>an_producer_continuation := c, an_pipeline := p\<rparr>)"
    using r c unfolding t Render_def by (simp add: Let_def)
  ultimately show ?thesis using inv' by (simp add: animator_inv_defs)
qed

lemma ScheduleSecondaryVsyncCallback_inv:
  "animator_inv k a \<Longrightarrow> ScheduleSecondaryVsyncCallback ui s a = Inr a' \<Longrightarrow> animator_inv k a'"
  by (auto simp: ScheduleSecondaryVsyncCallback_def ScheduleSecondaryCallback_def animator_inv_defs
      split: if_splits)

lemma flags_inv:
  "animator_inv k (a\<lparr>an_paused := b\<rparr>) = animator_inv k a"
  "animator_inv k (a\<lparr>an_dimension_change_pending := b\<rparr>) = animator_inv k a"
  "animator_inv k (a\<lparr>an_trace_flow_ids := ids\<rparr>) = animator_inv k a"
  by (simp_all add: animator_inv_defs)

lemma animator_call_inv:
  assumes "animator_inv k a" "animator_call c a = Inr a'"
  shows "animator_inv k a'"
  using assms Render_inv [OF assms(1)] ScheduleSecondaryVsyncCallback_inv [OF assms(1)]
  by (cases c) (auto simp: animator_call_def RequestFrame_inv flags_inv
      Start_def Stop_def SetDimensionChangePending_def EnqueueTraceFlowId_def)

lemma animator_calls_inv: "animator_inv k a \<Longrightarrow> animator_calls cs a = Inr a' \<Longrightarrow> animator_inv k a'"
  by (induction cs arbitrary: a) (auto dest: animator_call_inv)

text \<open>The tasks of the UI thread.\<close>

lemma filter_remove_nth:
  assumes "i < length xs"
  shows "length (filter P xs) = length (filter P (remove_nth i xs)) + (if P (xs ! i) then 1 else 0)"
proof -
  have "xs = take i xs @ xs ! i # drop (Suc i) xs" using assms by (simp add: id_take_nth_drop)
  then have "filter P xs = filter P (take i xs) @ filter P (xs ! i # drop (Suc i) xs)"
    by (metis filter_append)
  then show ?thesis by (simp add: remove_nth_def)
qed

lemma remove_task_inv:
  assumes "animator_inv 0 a" "i < length (an_ui_tasks a)"
  shows "animator_inv (if is_frame_task (an_ui_tasks a ! i) then 1 else 0)
    (a\<lparr>an_ui_tasks := remove_nth i (an_ui_tasks a)\<rparr>)"
  using assms(1) filter_remove_nth [OF assms(2), of is_frame_task] by (auto simp: animator_inv_defs)

lemma AwaitVSync_inv: "animator_inv 1 a \<Longrightarrow> animator_inv 0 (AwaitVSync a)"
  by (auto simp: AwaitVSync_def AsyncWaitForVsync_def animator_inv_defs Let_def)

lemma DrawLastLayerTree_inv: "animator_inv 1 a \<Longrightarrow> animator_inv 0 (DrawLastLayerTree a)"
  by (auto simp: DrawLastLayerTree_def Signal_def animator_inv_defs)

lemma BeginFrame_inv:
  assumes inv: "animator_inv 1 a" and r: "BeginFrame dart fxl cs t0 t1 a = Inr a'"
  shows "animator_inv 0 a'"
proof -
  define a1 where "a1 = a\<lparr>an_frame_number := an_frame_number a + 1, an_trace_flow_ids := [],
                 an_frame_scheduled := False, an_notify_idle_task_id := an_notify_idle_task_id a + 1,
                 an_regenerate_layer_tree := False,
                 an_pending_frame_semaphore := Signal (an_pending_frame_semaphore a)\<rparr>"
  obtain c i p where c: "Produce (an_trace_id a1) (an_pipeline a1) = (c, i, p)" by (metis prod_cases3)
  define a2 where "a2 = (if an_producer_continuation a1 = NoContinuation
      then a1\<lparr>an_producer_continuation := c, an_pipeline := p, an_trace_id := i\<rparr> else a1)"
  have inv1: "animator_inv 0 a1" using inv by (auto simp: a1_def animator_inv_defs Signal_def)
  then have inv2: "animator_inv 0 a2" using Produce_settled c by (auto simp: a2_def animator_inv_defs)
  have "BeginFrame dart fxl cs t0 t1 a =
      (if an_producer_continuation a2 = NoContinuation then Inr (RequestFrame True a2)
       else bind_res (animator_calls cs (notify (OnAnimatorBeginFrame t1)
             (a2\<lparr>an_last_begin_frame_time := t0, an_dart_frame_deadline := FxlToDartOrEarlier dart fxl t1\<rparr>))) (\<lambda>a3.
          Inr (if \<not> an_frame_scheduled a3 then post_ui (NotifyIdleTask (an_notify_idle_task_id a3)) a3 else a3)))"
    unfolding BeginFrame_def a1_def [symmetric] a2_def
    by (simp add: Let_def c assign_continuation_def drop_continuation_def run_continuation_def)
  note begin_frame = this
  show ?thesis
  proof (cases "an_producer_continuation a2 = NoContinuation")
    case True
    then show ?thesis using r begin_frame inv2 by (auto simp: RequestFrame_inv)
  next
    case False
    let ?a = "notify (OnAnimatorBeginFrame t1)
        (a2\<lparr>an_last_begin_frame_time := t0, an_dart_frame_deadline := FxlToDartOrEarlier dart fxl t1\<rparr>)"
    have inv: "animator_inv 0 ?a" using inv2 by (simp add: animator_inv_defs)
    obtain a3 where a3: "animator_calls cs ?a = Inr a3"
      "a' = (if \<not> an_frame_scheduled a3 then post_ui (NotifyIdleTask (an_notify_idle_task_id a3)) a3 else a3)"
      using r begin_frame False by (cases "animator_calls cs ?a") simp_all
    have "animator_inv 0 a3" using inv a3(1) by (rule animator_calls_inv)
    then show ?thesis by (simp add: a3(2) animator_inv_defs)
  qed
qed

lemma notify_inv: "animator_inv k (notify ev a) = animator_inv k a"
  by (simp add: animator_inv_defs)

lemma run_ui_task_inv:
  assumes "animator_inv (if is_frame_task task then 1 else 0) a" "run_ui_task dart fxl cs task a = Inr a'"
  shows "animator_inv 0 a'"
  using assms AwaitVSync_inv [of a] DrawLastLayerTree_inv [of a] BeginFrame_inv [of a]
  by (cases task) (auto simp: run_ui_task_def notify_inv split: if_splits)

lemma fire_vsync_inv: "animator_inv 0 a \<Longrightarrow> animator_inv 0 (fire_vsync t0 t1 a)"
  by (cases "vw_callback (an_waiter a)"; cases "vw_secondary_callback (an_waiter a)")
    (simp_all add: fire_vsync_def FireCallback_def animator_inv_defs Let_def)

lemma consume_inv:
  "animator_inv 0 a \<Longrightarrow> Consume True (an_pipeline a) = Inr (res, r, p) \<Longrightarrow> animator_inv 0 (a\<lparr>an_pipeline := p\<rparr>)"
  using Consume_settled [of "an_producer_continuation a" "an_pipeline a"] by (auto simp: animator_inv_defs)

lemma animator_step_inv:
  assumes "animator_inv 0 a" "animator_step st a = Inr a'"
  shows "animator_inv 0 a'"
proof (cases st)
  case (RunTask i dart fxl cs)
  show ?thesis
  proof (cases "i < length (an_ui_tasks a)")
    case True
    then have "run_ui_task dart fxl cs (an_ui_tasks a ! i) (a\<lparr>an_ui_tasks := remove_nth i (an_ui_tasks a)\<rparr>) = Inr a'"
      using assms(2) RunTask by (simp add: animator_step_def)
    with run_ui_task_inv [OF remove_task_inv [OF assms(1) True]] show ?thesis by blast
  qed (use assms RunTask in \<open>simp add: animator_step_def\<close>)
qed (use assms in \<open>auto simp: animator_step_def animator_call_inv fire_vsync_inv consume_inv split: if_splits\<close>)

lemma animator_run_inv: "animator_inv 0 a \<Longrightarrow> animator_run sts a = Inr a' \<Longrightarrow> animator_inv 0 a'"
  by (induction sts arbitrary: a) (auto dest: animator_step_inv)



section \<open>A requested frame is served\<close>

definition served :: "('t, 's) animator \<Rightarrow> ('t, 's) animator \<Rightarrow> bool" where
  "served a a' \<longleftrightarrow>
     (\<exists>ev \<in> set (drop (length (an_events a)) (an_events a')).
        ev = OnAnimatorDrawLastLayerTree \<or> (\<exists>t. ev = OnAnimatorBeginFrame t))"

definition pipeline_full :: "('t, 's) animator \<Rightarrow> bool" where
  "pipeline_full a \<longleftrightarrow>
     an_producer_continuation a = NoContinuation \<and> sem_count (pl_empty (an_pipeline a)) = 0"

lemma serve_vsync_task:
  assumes "animator_inv 0 a" "i < length (an_ui_tasks a)" "an_ui_tasks a ! i = VsyncTask t0 t1" "\<not> pipeline_full a"
  shows "\<exists>a'. animator_step (RunTask i dart fxl []) a = Inr a' \<and> served a a'"
proof -
  have "sem_valid (pl_empty (an_pipeline a))"
    using assms(1) by (simp add: animator_inv_def pipeline_settled_def pipeline_IsValid_def)
  then show ?thesis
    using assms(2-4)
    by (auto simp: animator_step_def run_ui_task_def DrawLastLayerTree_def notify_def BeginFrame_def Let_def
        Produce_def TryWait_def assign_continuation_def drop_continuation_def run_continuation_def
        served_def pipeline_full_def post_ui_def)
qed

lemma served_later: "an_events a1 = an_events a @ evs \<Longrightarrow> served a1 a' \<Longrightarrow> served a a'"
  by (auto simp: served_def) (metis append_take_drop_id drop_drop in_set_conv_decomp set_drop_subset_set_drop subsetD le_add2 add.commute)+

lemma serve_callback:
  assumes "animator_inv 0 a" "vw_callback (an_waiter a) \<noteq> None" "\<not> pipeline_full a"
  shows "\<exists>st a'. animator_run [Vsync t0 t1, st] a = Inr a' \<and> served a a'"
proof -
  let ?a = "fire_vsync t0 t1 a" and ?i = "length (an_ui_tasks a)"
  have step: "animator_step (Vsync t0 t1) a = Inr ?a"
    using assms(1,2) by (simp add: animator_step_def animator_inv_def)
  have inv: "animator_inv 0 ?a" using assms(1) by (rule fire_vsync_inv)
  have task: "?i < length (an_ui_tasks ?a)" "an_ui_tasks ?a ! ?i = VsyncTask t0 t1"
    and same: "an_events ?a = an_events a" "pipeline_full ?a = pipeline_full a"
    using assms(2) by (auto simp: fire_vsync_def FireCallback_def post_ui_def Let_def pipeline_full_def
        nth_append split: option.splits)
  obtain a' where "animator_step (RunTask ?i 0 0 []) ?a = Inr a'" "served ?a a'"
    using serve_vsync_task [OF inv task] assms(3) same by blast
  then show ?thesis using step served_later [of ?a a "[]"] same
    by (intro exI [of _ "RunTask ?i 0 0 []"] exI [of _ a']) simp
qed

lemma serve_await_task:
  assumes "animator_inv 0 a" "i < length (an_ui_tasks a)" "an_ui_tasks a ! i = AwaitVSyncTask n" "\<not> pipeline_full a"
  shows "\<exists>st a'. animator_run [RunTask i 0 0 [], Vsync t0 t1, st] a = Inr a' \<and> served a a'"
proof -
  let ?r = "a\<lparr>an_ui_tasks := remove_nth i (an_ui_tasks a)\<rparr>"
  let ?a = "AwaitVSync ?r"
  have step: "animator_step (RunTask i 0 0 []) a = Inr ?a"
    using assms(2,3) by (simp add: animator_step_def run_ui_task_def)
  have inv: "animator_inv 0 ?a"
    using remove_task_inv [OF assms(1,2)] assms(3) by (simp add: AwaitVSync_inv)
  have "vw_callback (an_waiter ?a) \<noteq> None" "an_events ?a = an_events a @ [OnAnimatorNotifyIdle (an_dart_frame_deadline a)]"
    "pipeline_full ?a = pipeline_full a"
    by (auto simp: AwaitVSync_def AsyncWaitForVsync_def notify_def Let_def pipeline_full_def)
  then obtain st a' where "animator_run [Vsync t0 t1, st] ?a = Inr a'" "served ?a a'"
    and ev: "an_events ?a = an_events a @ [OnAnimatorNotifyIdle (an_dart_frame_deadline a)]"
    using serve_callback [OF inv] assms(4) by blast
  then show ?thesis using step served_later [OF ev] by (intro exI [of _ st] exI [of _ a']) simp
qed



end
