(* ===== verification/Pointer_Dispatcher.thy ===== *)
theory Pointer_Dispatcher
  imports Animator
begin

text \<open>
  \<^verbatim>\<open>shell/common/pointer_data_dispatcher.cc\<close>: packets of pointer events are handed to the engine at once, or
  smoothed to at most one per vertical sync with the help of the waiter's secondary callback. The
  state is the dispatcher with the waiter it schedules its callback on, the secondary callbacks posted
  to the UI thread, and the packets received and dispatched so far. The trace identifier of a packet
  that is held back is kept in an \<^verbatim>\<open>int\<close>, although it is a 64-bit number.
\<close>

record 'p pointer_dispatcher =
  pd_in_progress :: bool
  pd_pending :: "('p \<times> 32 word) option"
  pd_waiter :: "(unit, unit) vsync_waiter"
  pd_posted :: nat
  pd_received :: "('p \<times> 64 word) list"
  pd_dispatched :: "('p \<times> 64 word) list"

definition SmoothPointerDataDispatcher :: "'p pointer_dispatcher" where
  "SmoothPointerDataDispatcher =
     \<lparr>pd_in_progress = False, pd_pending = None,
      pd_waiter = \<lparr>vw_callback = None, vw_secondary_callback = None\<rparr>, pd_posted = 0,
      pd_received = [], pd_dispatched = []\<rparr>"

definition DefaultDispatchPacket :: "'p \<Rightarrow> 64 word \<Rightarrow> 'p pointer_dispatcher \<Rightarrow> 'p pointer_dispatcher" where
  "DefaultDispatchPacket packet trace_flow_id d =
     d\<lparr>pd_dispatched := pd_dispatched d @ [(packet, trace_flow_id)]\<rparr>"

definition schedule_secondary :: "'p pointer_dispatcher \<Rightarrow> 'p pointer_dispatcher res" where
  "schedule_secondary d =
     bind_res (ScheduleSecondaryCallback True (Some ()) (pd_waiter d)) (\<lambda>(_, v).
       Inr (d\<lparr>pd_waiter := v\<rparr>))"

definition DispatchPendingPacket :: "'p pointer_dispatcher \<Rightarrow> 'p pointer_dispatcher res" where
  "DispatchPendingPacket d =
     (case pd_pending d of
        None \<Rightarrow> Inl DCheckFailed
      | Some (packet, trace_flow_id) \<Rightarrow>
          bind_res (guard DCheckFailed (pd_in_progress d)) (\<lambda>_.
            schedule_secondary ((DefaultDispatchPacket packet (scast trace_flow_id) d)\<lparr>pd_pending := None\<rparr>)))"

definition DispatchPacket :: "'p \<Rightarrow> 64 word \<Rightarrow> 'p pointer_dispatcher \<Rightarrow> 'p pointer_dispatcher res" where
  "DispatchPacket packet trace_flow_id d0 =
     (let d = d0\<lparr>pd_received := pd_received d0 @ [(packet, trace_flow_id)]\<rparr> in
      bind_res
        (if pd_in_progress d then
           bind_res (if pd_pending d \<noteq> None then DispatchPendingPacket d else Inr d) (\<lambda>d1.
             Inr (d1\<lparr>pd_pending := Some (packet, ucast trace_flow_id)\<rparr>))
         else
           bind_res (guard DCheckFailed (pd_pending d = None)) (\<lambda>_.
             Inr (DefaultDispatchPacket packet trace_flow_id d))) (\<lambda>d2.
        schedule_secondary (d2\<lparr>pd_in_progress := True\<rparr>)))"

text \<open>The callback given to the waiter.\<close>

definition secondary_callback :: "'p pointer_dispatcher \<Rightarrow> 'p pointer_dispatcher res" where
  "secondary_callback d =
     (if pd_in_progress d then
        (if pd_pending d \<noteq> None then DispatchPendingPacket d else Inr (d\<lparr>pd_in_progress := False\<rparr>))
      else Inr d)"

text \<open>
  What can happen: a packet arrives, the animator waits for a vertical sync of its own, a vertical
  sync fires, and a posted secondary callback runs.
\<close>

datatype 'p dispatcher_step = Arrive 'p "64 word" | AnimatorWaits | VsyncFires | RunSecondary

definition dispatcher_step :: "'p dispatcher_step \<Rightarrow> 'p pointer_dispatcher \<Rightarrow> 'p pointer_dispatcher res" where
  "dispatcher_step st d =
     (case st of
        Arrive p i \<Rightarrow> DispatchPacket p i d
      | AnimatorWaits \<Rightarrow> Inr (d\<lparr>pd_waiter := snd (AsyncWaitForVsync (Some ()) (pd_waiter d))\<rparr>)
      | VsyncFires \<Rightarrow>
          let ((_, secondary), v) = FireCallback (pd_waiter d) in
          Inr (d\<lparr>pd_waiter := v, pd_posted := pd_posted d + (if secondary = None then 0 else 1)\<rparr>)
      | RunSecondary \<Rightarrow>
          if pd_posted d > 0 then secondary_callback (d\<lparr>pd_posted := pd_posted d - 1\<rparr>) else Inr d)"

fun dispatcher_run :: "'p dispatcher_step list \<Rightarrow> 'p pointer_dispatcher \<Rightarrow> 'p pointer_dispatcher res" where
  "dispatcher_run [] d = Inr d"
| "dispatcher_run (st # sts) d = bind_res (dispatcher_step st d) (dispatcher_run sts)"

section \<open>Order and delivery\<close>

text \<open>A packet that was held back comes with its trace identifier narrowed and extended again.\<close>

definition same_packet :: "'p \<times> 64 word \<Rightarrow> 'p \<times> 64 word \<Rightarrow> bool" where
  "same_packet x y \<longleftrightarrow> fst y = fst x \<and> (snd y = snd x \<or> snd y = scast (ucast (snd x) :: 32 word))"

definition held_back :: "'p pointer_dispatcher \<Rightarrow> ('p \<times> 64 word) list" where
  "held_back d = (case pd_pending d of None \<Rightarrow> [] | Some (p, i) \<Rightarrow> [(p, scast i)])"

definition dispatcher_inv :: "'p pointer_dispatcher \<Rightarrow> bool" where
  "dispatcher_inv d \<longleftrightarrow>
     list_all2 same_packet (pd_received d) (pd_dispatched d @ held_back d) \<and>
     (pd_pending d \<noteq> None \<longrightarrow> pd_in_progress d) \<and>
     (pd_in_progress d \<longrightarrow> vw_secondary_callback (pd_waiter d) \<noteq> None \<or> pd_posted d > 0)"

lemmas dispatcher_defs = dispatcher_inv_def DispatchPacket_def DispatchPendingPacket_def secondary_callback_def
  schedule_secondary_def ScheduleSecondaryCallback_def DefaultDispatchPacket_def

lemma same_packet_simps [simp]:
  "same_packet (p, i) (p, i)" "same_packet (p, i) (p, scast (ucast i :: 32 word))"
  by (simp_all add: same_packet_def)

lemma list_all2_snoc: "list_all2 P (xs @ [x]) (ys @ [y]) \<longleftrightarrow> list_all2 P xs ys \<and> P x y"
  by (auto simp: list_all2_conv_all_nth nth_append less_Suc_eq)

lemma schedule_secondary_scheduled:
  "\<exists>v. schedule_secondary d = Inr (d\<lparr>pd_waiter := v\<rparr>) \<and> vw_secondary_callback v \<noteq> None"
  by (cases d; cases "vw_secondary_callback (pd_waiter d)")
    (auto simp: schedule_secondary_def ScheduleSecondaryCallback_def)

lemma DispatchPendingPacket_step:
  assumes "pd_pending d = Some (p, i)" "pd_in_progress d"
  shows "\<exists>v. DispatchPendingPacket d =
      Inr (d\<lparr>pd_dispatched := pd_dispatched d @ [(p, scast i)], pd_pending := None, pd_waiter := v\<rparr>) \<and>
    vw_secondary_callback v \<noteq> None"
  using assms schedule_secondary_scheduled [of "d\<lparr>pd_dispatched := pd_dispatched d @ [(p, scast i)], pd_pending := None\<rparr>"]
  by (auto simp: DispatchPendingPacket_def DefaultDispatchPacket_def)

lemma Arrive_inv:
  assumes inv: "dispatcher_inv d"
  shows "\<exists>d'. DispatchPacket p i d = Inr d' \<and> dispatcher_inv d'"
proof (cases "pd_pending d")
  case None
  let ?d = "d\<lparr>pd_received := pd_received d @ [(p, i)]\<rparr>"
  let ?d1 = "if pd_in_progress d then ?d\<lparr>pd_pending := Some (p, ucast i)\<rparr> else DefaultDispatchPacket p i ?d"
  obtain v where "schedule_secondary (?d1\<lparr>pd_in_progress := True\<rparr>) = Inr (?d1\<lparr>pd_in_progress := True, pd_waiter := v\<rparr>)"
    "vw_secondary_callback v \<noteq> None"
    using schedule_secondary_scheduled [of "?d1\<lparr>pd_in_progress := True\<rparr>"] by auto
  then show ?thesis using inv None
    by (cases "pd_in_progress d")
      (auto simp: DispatchPacket_def DefaultDispatchPacket_def dispatcher_inv_def held_back_def list_all2_snoc Let_def)
next
  case (Some x)
  obtain q j where x: "x = (q, j)" by fastforce
  have progress: "pd_in_progress d" using inv Some unfolding dispatcher_inv_def by blast
  let ?d = "d\<lparr>pd_received := pd_received d @ [(p, i)]\<rparr>"
  obtain v where v: "DispatchPendingPacket ?d =
      Inr (?d\<lparr>pd_dispatched := pd_dispatched d @ [(q, scast j)], pd_pending := None, pd_waiter := v\<rparr>)"
    using DispatchPendingPacket_step [of ?d q j] progress Some x by auto
  let ?d2 = "?d\<lparr>pd_dispatched := pd_dispatched d @ [(q, scast j)], pd_waiter := v, pd_pending := Some (p, ucast i), pd_in_progress := True\<rparr>"
  obtain v' where "schedule_secondary ?d2 = Inr (?d2\<lparr>pd_waiter := v'\<rparr>)" "vw_secondary_callback v' \<noteq> None"
    using schedule_secondary_scheduled by blast
  moreover have "list_all2 same_packet (pd_received d) (pd_dispatched d @ [(q, scast j)])"
    using inv Some x by (simp add: dispatcher_inv_def held_back_def)
  then have "list_all2 same_packet (pd_received d @ [(p, i)]) ((pd_dispatched d @ [(q, scast j)]) @ [(p, scast (ucast i :: 32 word))])"
    unfolding list_all2_snoc by simp
  ultimately show ?thesis using progress v Some x
    by (simp add: DispatchPacket_def dispatcher_inv_def held_back_def Let_def)
qed

lemma secondary_callback_inv:
  assumes inv: "dispatcher_inv d" and posted: "pd_posted d > 0"
  shows "\<exists>d'. secondary_callback (d\<lparr>pd_posted := pd_posted d - 1\<rparr>) = Inr d' \<and> dispatcher_inv d'"
proof (cases "pd_pending d")
  case None
  then show ?thesis using inv by (auto simp: secondary_callback_def dispatcher_inv_def held_back_def)
next
  case (Some x)
  obtain q j where x: "x = (q, j)" by fastforce
  have progress: "pd_in_progress d" using inv Some unfolding dispatcher_inv_def by blast
  let ?d = "d\<lparr>pd_posted := pd_posted d - 1\<rparr>"
  obtain v where "DispatchPendingPacket ?d =
      Inr (?d\<lparr>pd_dispatched := pd_dispatched d @ [(q, scast j)], pd_pending := None, pd_waiter := v\<rparr>)"
    "vw_secondary_callback v \<noteq> None"
    using DispatchPendingPacket_step [of ?d q j] progress Some x by auto
  then show ?thesis using inv progress Some x
    by (simp add: secondary_callback_def dispatcher_inv_def held_back_def)
qed

lemma dispatcher_step_inv:
  assumes "dispatcher_inv d"
  shows "\<exists>d'. dispatcher_step st d = Inr d' \<and> dispatcher_inv d'"
  using assms Arrive_inv [OF assms] secondary_callback_inv [OF assms]
  by (cases st) (auto simp: dispatcher_step_def dispatcher_inv_def held_back_def AsyncWaitForVsync_def
      FireCallback_def Let_def)

text \<open>
  C37. The smoothing dispatcher loses, repeats and reorders nothing: whatever packets arrive and
  whenever vertical syncs fire and posted callbacks run, no assertion fails, the packets received are
  the packets dispatched followed by at most one that is held back, each with its trace identifier or
  with what is left of it in 32 bits, and while one is held back a callback that will dispatch it is
  scheduled or posted.
\<close>

theorem packets_dispatched_in_order:
  "\<exists>d. dispatcher_run sts SmoothPointerDataDispatcher = Inr d \<and>
     list_all2 same_packet (pd_received d) (pd_dispatched d @ held_back d) \<and>
     (held_back d = [] \<or> vw_secondary_callback (pd_waiter d) = Some () \<or> pd_posted d > 0)"
proof -
  have "\<exists>d'. dispatcher_run sts d = Inr d' \<and> dispatcher_inv d'" if "dispatcher_inv d" for d :: "'a pointer_dispatcher"
    using that
  proof (induction sts arbitrary: d)
    case (Cons st sts)
    then show ?case using dispatcher_step_inv [of d st] by fastforce
  qed simp
  moreover have "dispatcher_inv SmoothPointerDataDispatcher"
    by (simp add: dispatcher_inv_def held_back_def SmoothPointerDataDispatcher_def)
  ultimately obtain d where "dispatcher_run sts SmoothPointerDataDispatcher = Inr d" "dispatcher_inv d" by blast
  then show ?thesis
    by (intro exI [of _ d]) (auto simp: dispatcher_inv_def held_back_def split: option.splits)
qed

end
