(* ===== verification/Embedder_Pointer.thy ===== *)
theory Embedder_Pointer
  imports Pointer_Converter_Correct
begin

text \<open>
  \<^verbatim>\<open>shell/platform/embedder/embedder.cc\<close>: pointer events and window metrics of a platform window, from the C
  structures of the embedder API to the converter of the platform view. Enumerators that two enumerations
  of the sources share carry a prefix here.
\<close>

section \<open>Events of the embedder API\<close>

datatype flutter_pointer_phase = PkCancel | PkUp | PkDown | PkMove | PkAdd | PkRemove | PkHover | OtherPhase

datatype flutter_device_kind = NoDeviceKind | DkMouse | DkTouch | OtherDeviceKind

datatype flutter_signal_kind = SkNone | SkScroll | OtherSignalKind

record flutter_pointer_event =
  fe_struct_size :: "64 word"
  fe_phase :: flutter_pointer_phase
  fe_timestamp :: "64 word"
  fe_x :: double
  fe_y :: double
  fe_device :: "32 word"
  fe_signal_kind :: flutter_signal_kind
  fe_scroll_delta_x :: double
  fe_scroll_delta_y :: double
  fe_device_kind :: flutter_device_kind
  fe_buttons :: "64 word"

text \<open>The event with all bytes zero, and the size of the structure on a 64-bit machine.\<close>

definition empty_event :: flutter_pointer_event where
  "empty_event =
     \<lparr>fe_struct_size = 0, fe_phase = PkCancel, fe_timestamp = 0, fe_x = 0, fe_y = 0, fe_device = 0,
      fe_signal_kind = SkNone, fe_scroll_delta_x = 0, fe_scroll_delta_y = 0,
      fe_device_kind = NoDeviceKind, fe_buttons = 0\<rparr>"

definition sizeof_pointer_event :: "64 word" where
  "sizeof_pointer_event = 80"

text \<open>A member that ends at offset \<open>end\<close> is read if the structure the client filled in is that long.\<close>

definition SAFE_ACCESS :: "64 word \<Rightarrow> 64 word \<Rightarrow> 'a \<Rightarrow> 'a \<Rightarrow> 'a" where
  "SAFE_ACCESS struct_size end_offset member default_value =
     (if end_offset \<le> struct_size then member else default_value)"

fun ToPointerDataChange :: "flutter_pointer_phase \<Rightarrow> pointer_change" where
  "ToPointerDataChange PkCancel = kCancel"
| "ToPointerDataChange PkUp = kUp"
| "ToPointerDataChange PkDown = kDown"
| "ToPointerDataChange PkMove = kMove"
| "ToPointerDataChange PkAdd = kAdd"
| "ToPointerDataChange PkRemove = kRemove"
| "ToPointerDataChange PkHover = kHover"
| "ToPointerDataChange OtherPhase = kCancel"

fun ToPointerDataKind :: "flutter_device_kind \<Rightarrow> device_kind" where
  "ToPointerDataKind DkMouse = kMouse"
| "ToPointerDataKind DkTouch = kTouch"
| "ToPointerDataKind _ = kMouse"

fun ToPointerDataSignalKind :: "flutter_signal_kind \<Rightarrow> signal_kind" where
  "ToPointerDataSignalKind SkNone = kNone"
| "ToPointerDataSignalKind SkScroll = kScroll"
| "ToPointerDataSignalKind OtherSignalKind = kNone"

definition PointerDataButtonsForLegacyEvent :: "pointer_change \<Rightarrow> 64 word" where
  "PointerDataButtonsForLegacyEvent ch = (if ch = kDown \<or> ch = kMove then 1 else 0)"

text \<open>The body of the loop over the events of one call.\<close>

definition to_pointer_data :: "flutter_pointer_event \<Rightarrow> pointer_data" where
  "to_pointer_data e =
     (let n = fe_struct_size e;
          ch = ToPointerDataChange (SAFE_ACCESS n 12 (fe_phase e) PkCancel);
          device_kind = SAFE_ACCESS n 68 (fe_device_kind e) NoDeviceKind;
          d = (Clear undefined)
            \<lparr>time_stamp := SAFE_ACCESS n 24 (fe_timestamp e) 0,
             change := ch,
             physical_x := SAFE_ACCESS n 32 (fe_x e) 0,
             physical_y := SAFE_ACCESS n 40 (fe_y e) 0,
             physical_delta_x := 0, physical_delta_y := 0,
             device := scast (SAFE_ACCESS n 44 (fe_device e) 0),
             pointer_identifier := 0,
             pd_signal := ToPointerDataSignalKind (SAFE_ACCESS n 48 (fe_signal_kind e) SkNone),
             scroll_delta_x := SAFE_ACCESS n 56 (fe_scroll_delta_x e) 0,
             scroll_delta_y := SAFE_ACCESS n 64 (fe_scroll_delta_y e) 0\<rparr> in
      if device_kind = NoDeviceKind then
        d\<lparr>pd_kind := kMouse, buttons := PointerDataButtonsForLegacyEvent ch\<rparr>
      else
        let d1 = d\<lparr>pd_kind := ToPointerDataKind device_kind\<rparr> in
        if pd_kind d1 = kTouch then
          (if ch = kDown \<or> ch = kMove then d1\<lparr>buttons := 1\<rparr> else d1)
        else d1\<lparr>buttons := SAFE_ACCESS n 80 (fe_buttons e) 0\<rparr>)"

datatype flutter_engine_result = kSuccess | kInvalidLibraryVersion | kInvalidArguments | kInternalInconsistency

text \<open>
  A running engine has a shell with a platform view; the packet the platform view's delegate gets
  is the converted one.
\<close>

definition DispatchPointerDataPacket ::
    "bool \<Rightarrow> byte list \<Rightarrow> converter \<Rightarrow> (bool \<times> byte list option \<times> converter) res" where
  "DispatchPointerDataPacket running packet c =
     (if \<not> running then Inr (False, None, c)
      else bind_res (Convert packet c) (\<lambda>(out, c'). Inr (True, Some out, c')))"

definition FlutterEngineSendPointerEvent ::
    "bool option \<Rightarrow> flutter_pointer_event list \<Rightarrow> converter \<Rightarrow>
     (flutter_engine_result \<times> byte list option \<times> converter) res" where
  "FlutterEngineSendPointerEvent engine pointers c =
     (case engine of
        None \<Rightarrow> Inr (kInvalidArguments, None, c)
      | Some running \<Rightarrow>
          if pointers = [] then Inr (kInvalidArguments, None, c)
          else
            bind_res (set_all 0 (map to_pointer_data pointers) (PointerDataPacket (length pointers))) (\<lambda>packet.
            bind_res (DispatchPointerDataPacket running packet c) (\<lambda>(ok, out, c').
              Inr (if ok then kSuccess else kInternalInconsistency, out, c'))))"

text \<open>The keyboard handlers both desktop windows create.\<close>

datatype keyboard_handler = KeyEventHandler | TextInputPlugin

section \<open>Window metrics\<close>

record flutter_metrics_event =
  fm_struct_size :: "64 word"
  fm_width :: "64 word"
  fm_height :: "64 word"
  fm_pixel_ratio :: double

definition sizeof_metrics_event :: "64 word" where
  "sizeof_metrics_event = 32"

record viewport_metrics =
  device_pixel_ratio :: double
  physical_width :: double
  physical_height :: double

text \<open>The metrics the platform view is told, if any.\<close>

definition FlutterEngineSendWindowMetricsEvent ::
    "bool option \<Rightarrow> flutter_metrics_event option \<Rightarrow> flutter_engine_result \<times> viewport_metrics option" where
  "FlutterEngineSendWindowMetricsEvent engine event =
     (case (engine, event) of
        (Some running, Some e) \<Rightarrow>
          let n = fm_struct_size e;
              metrics =
                \<lparr>device_pixel_ratio = SAFE_ACCESS n 32 (fm_pixel_ratio e) 0x3FF0000000000000,
                 physical_width = double_of_int (uint (SAFE_ACCESS n 16 (fm_width e) 0)),
                 physical_height = double_of_int (uint (SAFE_ACCESS n 24 (fm_height e) 0))\<rparr> in
          if double_less (device_pixel_ratio metrics) 0 \<or> double_eq (device_pixel_ratio metrics) 0
          then (kInvalidArguments, None)
          else if \<not> running then (kInvalidArguments, None)
          else (kSuccess, Some metrics)
      | _ \<Rightarrow> (kInvalidArguments, None))"

lemma of_le_bytes_zeros [simp]: "of_le_bytes (replicate k 0) = 0"
  by (induction k) simp_all

lemma vector_of_bytes_zeros:
  "(vector_of_bytes n (replicate (n * 8) 0) :: 64 word list) = replicate n 0"
proof (induction n)
  case (Suc n)
  then show ?case by (simp del: replicate_Suc add: take_replicate drop_replicate) simp
qed simp

lemma Clear_simps [simp]:
  "change (Clear d) = kCancel" "pd_kind (Clear d) = kTouch" "pd_signal (Clear d) = kNone"
proof -
  have "(vector_of_bytes 28 (replicate 224 0) :: 64 word list) = replicate 28 0"
    using vector_of_bytes_zeros [of 28] by simp
  then show "change (Clear d) = kCancel" "pd_kind (Clear d) = kTouch" "pd_signal (Clear d) = kNone"
    by (simp_all add: Clear_def pointer_data_of_bytes_def sizeof_pointer_data_def kBytesPerField_def
        kPointerDataFieldCount_def pointer_data_of_fields_def change_of_word_def kind_of_word_def
        signal_of_word_def enum_of_word_def)
qed

lemma to_pointer_data_wf: "pointer_data_wf (to_pointer_data e)"
  by (cases "fe_phase e"; cases "fe_device_kind e"; cases "fe_signal_kind e")
    (simp_all add: to_pointer_data_def pointer_data_wf_def SAFE_ACCESS_def Let_def)

lemma to_pointer_data_simps [simp]:
  assumes "fe_struct_size e = sizeof_pointer_event"
  shows "change (to_pointer_data e) = ToPointerDataChange (fe_phase e)"
    "pd_signal (to_pointer_data e) = ToPointerDataSignalKind (fe_signal_kind e)"
    "device (to_pointer_data e) = scast (fe_device e)"
    "physical_x (to_pointer_data e) = fe_x e" "physical_y (to_pointer_data e) = fe_y e"
  using assms by (simp_all add: to_pointer_data_def SAFE_ACCESS_def sizeof_pointer_event_def Let_def)

lemma empty_event_simps [simp]:
  "fe_device empty_event = 0" "fe_signal_kind empty_event = SkNone"
  by (simp_all add: empty_event_def)

section \<open>What the converter remembers of a device\<close>

text \<open>Whether a device is known, and then whether it is down.\<close>

definition tracked :: "converter \<Rightarrow> 64 word \<Rightarrow> bool option" where
  "tracked c dev = map_option isDown (cv_states c dev)"

definition track :: "pointer_data \<Rightarrow> bool option \<Rightarrow> bool option" where
  "track d t =
     (if pd_signal d = kNone then
        (case change d of
           kCancel \<Rightarrow> map_option (\<lambda>_. False) t
         | kAdd \<Rightarrow> Some False
         | kRemove \<Rightarrow> None
         | kHover \<Rightarrow> Some False
         | kDown \<Rightarrow> Some True
         | kMove \<Rightarrow> Some True
         | kUp \<Rightarrow> Some False
         | OtherChange _ \<Rightarrow> t)
      else t)"

definition may_follow :: "pointer_data \<Rightarrow> bool option \<Rightarrow> bool" where
  "may_follow d t =
     (if pd_signal d = kNone then
        (case change d of
           kCancel \<Rightarrow> t \<noteq> Some False
         | kAdd \<Rightarrow> t = None
         | kRemove \<Rightarrow> t \<noteq> None
         | kHover \<Rightarrow> t \<noteq> Some True
         | kDown \<Rightarrow> t \<noteq> Some True
         | kMove \<Rightarrow> t = Some True
         | kUp \<Rightarrow> t = Some True
         | OtherChange _ \<Rightarrow> True)
      else pd_signal d = kScroll \<longrightarrow> t \<noteq> None)"

lemma illegal_transition_tracked: "illegal_transition d c \<longleftrightarrow> \<not> may_follow d (tracked c (device d))"
  by (cases "change d"; cases "cv_states c (device d)")
    (auto simp: illegal_transition_def may_follow_def tracked_def Let_def)

lemma ConvertPointerData_tracks:
  assumes "may_follow d (tracked c (device d))"
  obtains out c' where "ConvertPointerData d c = Inr (out, c')"
    "tracked c' = (tracked c)(device d := track d (tracked c (device d)))"
proof -
  obtain out c' where conv: "ConvertPointerData d c = Inr (out, c')"
    using assms ConvertPointerData_fails [of d c] illegal_transition_tracked [of d c]
    by (metis sum.exhaust prod.exhaust)
  have "tracked c' dev = ((tracked c)(device d := track d (tracked c (device d)))) dev" for dev
    using conv assms
    by (cases "pd_signal d"; cases "change d"; cases "cv_states c (device d)")
      (auto simp: converter_defs convert_cancel_def convert_add_def convert_remove_def convert_hover_def
        set_state_def tracked_def track_def may_follow_def
        guard_def split: if_splits)
  with conv that show ?thesis by blast
qed

text \<open>One event sent to a running engine.\<close>

lemma FlutterEngineSendPointerEvent_single:
  "FlutterEngineSendPointerEvent (Some True) [e] c =
     bind_res (ConvertPointerData (to_pointer_data e) c) (\<lambda>(out, c').
       Inr (kSuccess, Some (concat (map pointer_data_bytes out)), c'))"
proof -
  let ?d = "to_pointer_data e"
  have "set_all 0 [?d] (PointerDataPacket 1) = Inr (pointer_data_bytes ?d)"
    using set_all_fills [of "PointerDataPacket 1" 0 "[?d]"] by (simp add: PointerDataPacket_def)
  moreover have "Convert (pointer_data_bytes ?d) c =
      bind_res (ConvertPointerData ?d c) (\<lambda>(out, c'). Inr (concat (map pointer_data_bytes out), c'))"
    using Convert_packet [of "[?d]" c] to_pointer_data_wf [of e]
    by (cases "ConvertPointerData ?d c") auto
  ultimately show ?thesis
    by (cases "ConvertPointerData ?d c")
      (auto simp: FlutterEngineSendPointerEvent_def DispatchPointerDataPacket_def)
qed

text \<open>Events sent one after the other, as long as none fails.\<close>

fun send_events :: "flutter_pointer_event list \<Rightarrow> converter \<Rightarrow> (byte list list \<times> converter) res" where
  "send_events [] c = Inr ([], c)"
| "send_events (e # es) c =
     bind_res (FlutterEngineSendPointerEvent (Some True) [e] c) (\<lambda>(_, out, c1).
     bind_res (send_events es c1) (\<lambda>(outs, c2). Inr (the out # outs, c2)))"

text \<open>A stream that the converter follows, in terms of what it remembers of the device.\<close>

definition event_ok :: "flutter_pointer_event \<Rightarrow> bool option \<Rightarrow> bool" where
  "event_ok e t \<longleftrightarrow> fe_struct_size e = sizeof_pointer_event \<and> fe_device e = 0 \<and>
     may_follow (to_pointer_data e) t"

fun follows :: "flutter_pointer_event list \<Rightarrow> bool option \<Rightarrow> bool option \<Rightarrow> bool" where
  "follows [] t t' \<longleftrightarrow> t' = t"
| "follows (e # es) t t' \<longleftrightarrow> event_ok e t \<and> follows es (track (to_pointer_data e) t) t'"

lemma follows_append:
  "follows es t t' \<Longrightarrow> follows fs t' t'' \<Longrightarrow> follows (es @ fs) t t''"
  by (induction es arbitrary: t) auto

lemma event_ok_sent:
  assumes "event_ok e (tracked c 0)"
  obtains out c' where "FlutterEngineSendPointerEvent (Some True) [e] c = Inr (kSuccess, Some out, c')"
    "tracked c' 0 = track (to_pointer_data e) (tracked c 0)"
proof -
  from assms have "device (to_pointer_data e) = 0" "may_follow (to_pointer_data e) (tracked c 0)"
    by (simp_all add: event_ok_def)
  then obtain out c' where "ConvertPointerData (to_pointer_data e) c = Inr (out, c')"
    and "tracked c' 0 = track (to_pointer_data e) (tracked c 0)"
    using ConvertPointerData_tracks [of "to_pointer_data e" c] by (metis fun_upd_same)
  then show ?thesis using that by (simp add: FlutterEngineSendPointerEvent_single)
qed

lemma follows_sends:
  assumes "follows es (tracked c 0) t'"
  shows "\<exists>outs c'. send_events es c = Inr (outs, c') \<and> tracked c' 0 = t'"
  using assms
proof (induction es arbitrary: c)
  case (Cons e es)
  then have ok: "event_ok e (tracked c 0)" and
    rest: "follows es (track (to_pointer_data e) (tracked c 0)) t'" by simp_all
  from ok obtain out c1 where "FlutterEngineSendPointerEvent (Some True) [e] c = Inr (kSuccess, Some out, c1)"
    "tracked c1 0 = track (to_pointer_data e) (tracked c 0)" by (rule event_ok_sent)
  moreover from this(2) rest Cons.IH [of c1] obtain outs c2 where
    "send_events es c1 = Inr (outs, c2)" "tracked c2 0 = t'" by auto
  ultimately show ?case by simp
qed simp

lemma send_events_fails:
  assumes "follows es (tracked c 0) t" "fe_struct_size e = sizeof_pointer_event" "fe_device e = 0"
    "\<not> may_follow (to_pointer_data e) t"
  shows "send_events (es @ [e]) c = Inl DCheckFailed"
  using assms(1)
proof (induction es arbitrary: c)
  case Nil
  then have "illegal_transition (to_pointer_data e) c" using assms by (simp add: illegal_transition_tracked)
  then show ?case by (simp add: FlutterEngineSendPointerEvent_single ConvertPointerData_fails [THEN iffD2])
next
  case (Cons d es)
  then have ok: "event_ok d (tracked c 0)" and
    rest: "follows es (track (to_pointer_data d) (tracked c 0)) t" by simp_all
  from ok obtain out c1 where "FlutterEngineSendPointerEvent (Some True) [d] c = Inr (kSuccess, Some out, c1)"
    "tracked c1 0 = track (to_pointer_data d) (tracked c 0)" by (rule event_ok_sent)
  with rest Cons.IH [of c1] show ?case by simp
qed

section \<open>Sources of pointer events\<close>

text \<open>The events a source sends over a run of inputs, and its state after it.\<close>

fun run_source ::
    "('i \<Rightarrow> 's \<Rightarrow> flutter_pointer_event list \<times> 's) \<Rightarrow> 'i list \<Rightarrow> 's \<Rightarrow> flutter_pointer_event list \<times> 's" where
  "run_source step [] s = ([], s)"
| "run_source step (i # is) s =
     (let (es, s1) = step i s; (fs, s2) = run_source step is s1 in (es @ fs, s2))"

fun admissible_run ::
    "('i \<Rightarrow> 's \<Rightarrow> flutter_pointer_event list \<times> 's) \<Rightarrow> ('i \<Rightarrow> 's \<Rightarrow> bool) \<Rightarrow> 'i list \<Rightarrow> 's \<Rightarrow> bool" where
  "admissible_run step admissible [] s \<longleftrightarrow> True"
| "admissible_run step admissible (i # is) s \<longleftrightarrow>
     admissible i s \<and> admissible_run step admissible is (snd (step i s))"

lemma admissible_run_True [simp]: "admissible_run step (\<lambda>_ _. True) is s"
  by (induction "is" arbitrary: s) simp_all

text \<open>
  A platform window is a source whose events the converter follows: \<open>tracks\<close> relates its state to
  what the converter remembers of the device, \<open>admissible\<close> says which inputs it may get.
\<close>

locale pointer_source =
  fixes step :: "'i \<Rightarrow> 's \<Rightarrow> flutter_pointer_event list \<times> 's"
    and admissible :: "'i \<Rightarrow> 's \<Rightarrow> bool"
    and tracks :: "'s \<Rightarrow> bool option \<Rightarrow> bool"
  assumes step_follows:
    "tracks s t \<Longrightarrow> admissible i s \<Longrightarrow>
       \<exists>t'. follows (fst (step i s)) t t' \<and> tracks (snd (step i s)) t'"
begin

lemma run_follows:
  "tracks s t \<Longrightarrow> admissible_run step admissible is s \<Longrightarrow>
     \<exists>t'. follows (fst (run_source step is s)) t t' \<and> tracks (snd (run_source step is s)) t'"
proof (induction "is" arbitrary: s t)
  case (Cons i "is")
  obtain t1 where 1: "follows (fst (step i s)) t t1" "tracks (snd (step i s)) t1"
    using step_follows [of s t i] Cons.prems by auto
  with Cons.IH Cons.prems obtain t2 where
    "follows (fst (run_source step is (snd (step i s)))) t1 t2"
    "tracks (snd (run_source step is (snd (step i s)))) t2" by auto
  with 1(1) show ?case by (auto simp: case_prod_beta' Let_def intro: follows_append)
qed auto

lemma run_is_accepted:
  assumes "tracks s (tracked c 0)" "admissible_run step admissible is s"
  shows "\<exists>outs c'. send_events (fst (run_source step is s)) c = Inr (outs, c') \<and>
    tracks (snd (run_source step is s)) (tracked c' 0)"
  using run_follows [OF assms] follows_sends by blast

end

lemma tracked_new_converter [simp]: "tracked PointerDataPacketConverter dev = None"
  by (simp add: tracked_def PointerDataPacketConverter_def)

end
