(* ===== verification/Win32_Window.thy ===== *)
theory Win32_Window
  imports Embedder_Pointer Message_Channel
begin

text \<open>
  \<^verbatim>\<open>shell/platform/windows/win32_window.cc\<close> and \<^verbatim>\<open>win32_flutter_window.cc\<close>: the window procedure of the Windows
  embedder and the events it sends to the engine. The functions and constants of the Windows API are
  a parameter; the calls a window makes are recorded.
\<close>

section \<open>Messages, calls and state\<close>

datatype win_message =
    WM_NCCREATE | WM_DPICHANGED | kWmDpiChangedBeforeParent | WM_DESTROY | WM_SIZE | WM_FONTCHANGE
  | WM_MOUSEMOVE | WM_MOUSELEAVE
  | WM_LBUTTONDOWN | WM_RBUTTONDOWN | WM_MBUTTONDOWN | WM_XBUTTONDOWN
  | WM_LBUTTONUP | WM_RBUTTONUP | WM_MBUTTONUP | WM_XBUTTONUP
  | WM_MOUSEWHEEL | WM_UNICHAR | WM_CHAR | WM_SYSCHAR
  | WM_KEYDOWN | WM_SYSKEYDOWN | WM_KEYUP | WM_SYSKEYUP | OtherMessage

text \<open>The parts of a message's parameters, virtual keys, and constants.\<close>

record win32_api =
  LOWORD :: "64 word \<Rightarrow> 16 word"
  HIWORD :: "64 word \<Rightarrow> 16 word"
  GET_X_LPARAM :: "64 word \<Rightarrow> 32 word"
  GET_Y_LPARAM :: "64 word \<Rightarrow> 32 word"
  GET_XBUTTON_WPARAM :: "64 word \<Rightarrow> 16 word"
  MapVirtualKey :: "8 word \<Rightarrow> 32 word"
  XBUTTON1 :: "16 word"
  XBUTTON2 :: "16 word"
  WHEEL_DELTA :: int
  UNICODE_NOCHAR :: "64 word"
  VK_BACK :: "64 word"

text \<open>
  What the system answers while a message is handled: the clock, the cursor in client coordinates,
  the density of the window's monitor, and the suggested frame of a density change.
\<close>

record win32_env =
  en_clock :: "nat \<Rightarrow> 64 word"
  en_cursor_x :: "32 word"
  en_cursor_y :: "32 word"
  en_dpi :: "32 word"
  en_left :: "32 word"
  en_top :: "32 word"
  en_right :: "32 word"
  en_bottom :: "32 word"

datatype win_call =
    SendPointerEvent flutter_pointer_event
  | SendWindowMetricsEvent flutter_metrics_event
  | ReloadSystemFonts
  | CharHookCall keyboard_handler "32 word"
  | KeyboardHookCall keyboard_handler "32 word" "8 word" win_message
  | TrackMouseEvent
  | SetCapture
  | ReleaseCapture
  | SetWindowPos "32 word" "32 word" "32 word" "32 word"

record mouse_state =
  flutter_state_is_down :: bool
  flutter_state_is_added :: bool
  ms_buttons :: "64 word"

definition MouseState :: mouse_state where
  "MouseState = \<lparr>flutter_state_is_down = False, flutter_state_is_added = False, ms_buttons = 0\<rparr>"

record win32_window =
  ww_dpi :: "32 word"
  ww_width :: "32 word"
  ww_height :: "32 word"
  ww_user_data :: bool
  ww_handle :: bool
  ww_tracking_mouse_leave :: bool
  ww_mouse :: mouse_state
  ww_lead_surrogate :: "32 word"
  ww_engine :: bool
  ww_handlers :: "keyboard_handler list"
  ww_process_events :: bool
  ww_messageloop_running :: bool
  ww_calls :: "win_call list"

text \<open>A window object before its system window is created.\<close>

definition Win32Window :: win32_window where
  "Win32Window =
     \<lparr>ww_dpi = 0, ww_width = 0, ww_height = 0, ww_user_data = False, ww_handle = False,
      ww_tracking_mouse_leave = False, ww_mouse = MouseState, ww_lead_surrogate = 0,
      ww_engine = False, ww_handlers = [], ww_process_events = False, ww_messageloop_running = False,
      ww_calls = []\<rparr>"

definition win_call :: "win_call \<Rightarrow> win32_window \<Rightarrow> win32_window" where
  "win_call x w = w\<lparr>ww_calls := ww_calls w @ [x]\<rparr>"

definition SetMouseFlutterStateDown :: "bool \<Rightarrow> win32_window \<Rightarrow> win32_window" where
  "SetMouseFlutterStateDown down w = w\<lparr>ww_mouse := (ww_mouse w)\<lparr>flutter_state_is_down := down\<rparr>\<rparr>"

definition SetMouseFlutterStateAdded :: "bool \<Rightarrow> win32_window \<Rightarrow> win32_window" where
  "SetMouseFlutterStateAdded added w = w\<lparr>ww_mouse := (ww_mouse w)\<lparr>flutter_state_is_added := added\<rparr>\<rparr>"

definition SetMouseButtons :: "64 word \<Rightarrow> win32_window \<Rightarrow> win32_window" where
  "SetMouseButtons b w = w\<lparr>ww_mouse := (ww_mouse w)\<lparr>ms_buttons := b\<rparr>\<rparr>"

definition ResetMouseState :: "win32_window \<Rightarrow> win32_window" where
  "ResetMouseState w = w\<lparr>ww_mouse := MouseState\<rparr>"

section \<open>Sending to the engine\<close>

text \<open>The engine is given; the plugins of the window are created.\<close>

definition SetState :: "win32_window \<Rightarrow> win32_window" where
  "SetState w =
     w\<lparr>ww_engine := True, ww_handlers := ww_handlers w @ [KeyEventHandler, TextInputPlugin],
       ww_process_events := True\<rparr>"

definition SendWindowMetrics :: "win32_window \<Rightarrow> win32_window" where
  "SendWindowMetrics w =
     (if \<not> ww_engine w then w
      else
        win_call (SendWindowMetricsEvent
          \<lparr>fm_struct_size = sizeof_metrics_event, fm_width = ucast (ww_width w),
           fm_height = ucast (ww_height w),
           fm_pixel_ratio = double_divide (double_of_int (uint (ww_dpi w))) (double_of_int 96)\<rparr>) w)"

definition SetEventPhaseFromCursorButtonState ::
    "win32_window \<Rightarrow> flutter_pointer_event \<Rightarrow> flutter_pointer_event" where
  "SetEventPhaseFromCursorButtonState w event =
     (let state = ww_mouse w in
      event\<lparr>fe_phase :=
        if ms_buttons state = 0 then (if flutter_state_is_down state then PkUp else PkHover)
        else (if flutter_state_is_down state then PkMove else PkDown)\<rparr>)"

function SendPointerEventWithData ::
    "(nat \<Rightarrow> 64 word) \<Rightarrow> flutter_pointer_event \<Rightarrow> win32_window \<Rightarrow> win32_window" where
  "SendPointerEventWithData clock event_data w =
     (let state = ww_mouse w;
          w1 =
            (if \<not> flutter_state_is_added state \<and> fe_phase event_data \<noteq> PkAdd then
               SendPointerEventWithData (\<lambda>i. clock (Suc i))
                 (empty_event\<lparr>fe_phase := PkAdd, fe_x := fe_x event_data, fe_y := fe_y event_data,
                              fe_buttons := 0\<rparr>) w
             else w) in
      if flutter_state_is_added state \<and> fe_phase event_data = PkAdd then w1
      else
        let event = event_data
              \<lparr>fe_device_kind := DkMouse, fe_buttons := ms_buttons state,
               fe_struct_size := sizeof_pointer_event, fe_timestamp := clock 0\<rparr>;
            w2 = win_call (SendPointerEvent event) w1 in
        if fe_phase event_data = PkAdd then SetMouseFlutterStateAdded True w2
        else if fe_phase event_data = PkRemove then ResetMouseState (SetMouseFlutterStateAdded False w2)
        else w2)"
  by pat_completeness auto
termination
  by (relation "measure (\<lambda>(_, e, _). if fe_phase e = PkAdd then 0 else 1)") auto

declare SendPointerEventWithData.simps [simp del]

definition SendPointerMove :: "win32_env \<Rightarrow> double \<Rightarrow> double \<Rightarrow> win32_window \<Rightarrow> win32_window" where
  "SendPointerMove env x y w =
     SendPointerEventWithData (en_clock env)
       (SetEventPhaseFromCursorButtonState w (empty_event\<lparr>fe_x := x, fe_y := y\<rparr>)) w"

definition SendPointerDown :: "win32_env \<Rightarrow> double \<Rightarrow> double \<Rightarrow> win32_window \<Rightarrow> win32_window" where
  "SendPointerDown env x y w =
     SetMouseFlutterStateDown True
       (SendPointerEventWithData (en_clock env)
         ((SetEventPhaseFromCursorButtonState w empty_event)\<lparr>fe_x := x, fe_y := y\<rparr>) w)"

definition SendPointerUp :: "win32_env \<Rightarrow> double \<Rightarrow> double \<Rightarrow> win32_window \<Rightarrow> win32_window" where
  "SendPointerUp env x y w =
     (let event = (SetEventPhaseFromCursorButtonState w empty_event)\<lparr>fe_x := x, fe_y := y\<rparr>;
          w1 = SendPointerEventWithData (en_clock env) event w in
      if fe_phase event = PkUp then SetMouseFlutterStateDown False w1 else w1)"

definition SendPointerLeave :: "win32_env \<Rightarrow> win32_window \<Rightarrow> win32_window" where
  "SendPointerLeave env w = SendPointerEventWithData (en_clock env) (empty_event\<lparr>fe_phase := PkRemove\<rparr>) w"

definition SendChar :: "32 word \<Rightarrow> win32_window \<Rightarrow> win32_window" where
  "SendChar code_point w = fold (\<lambda>h. win_call (CharHookCall h code_point)) (ww_handlers w) w"

definition SendKey :: "32 word \<Rightarrow> 8 word \<Rightarrow> win_message \<Rightarrow> win32_window \<Rightarrow> win32_window" where
  "SendKey key scancode action w =
     fold (\<lambda>h. win_call (KeyboardHookCall h key scancode action)) (ww_handlers w) w"

definition SendScroll :: "win32_env \<Rightarrow> double \<Rightarrow> double \<Rightarrow> win32_window \<Rightarrow> win32_window" where
  "SendScroll env delta_x delta_y w =
     (let event = empty_event
            \<lparr>fe_x := double_of_int (sint (en_cursor_x env)), fe_y := double_of_int (sint (en_cursor_y env))\<rparr>;
          event = SetEventPhaseFromCursorButtonState w event;
          kScrollOffsetMultiplier = double_of_int 20 in
      SendPointerEventWithData (en_clock env)
        (event\<lparr>fe_signal_kind := SkScroll,
               fe_scroll_delta_x := double_times delta_x kScrollOffsetMultiplier,
               fe_scroll_delta_y := double_times delta_y kScrollOffsetMultiplier\<rparr>) w)"

section \<open>Handlers of the window\<close>

text \<open>A button is named by the message for it, or by the number of an extended button.\<close>

datatype win_button = MessageButton win_message | ExtendedButton "16 word"

definition ConvertWinButtonToFlutterButton :: "win32_api \<Rightarrow> win_button \<Rightarrow> 64 word" where
  "ConvertWinButtonToFlutterButton api b =
     (case b of
        MessageButton m \<Rightarrow>
          if m = WM_LBUTTONDOWN \<or> m = WM_LBUTTONUP then 1
          else if m = WM_RBUTTONDOWN \<or> m = WM_RBUTTONUP then 2
          else if m = WM_MBUTTONDOWN \<or> m = WM_MBUTTONUP then 4
          else 0
      | ExtendedButton x \<Rightarrow> if x = XBUTTON1 api then 8 else if x = XBUTTON2 api then 16 else 0)"

definition OnResize :: "win32_window \<Rightarrow> win32_window" where
  "OnResize w = SendWindowMetrics w"

definition OnPointerMove :: "win32_env \<Rightarrow> double \<Rightarrow> double \<Rightarrow> win32_window \<Rightarrow> win32_window" where
  "OnPointerMove env x y w = (if ww_process_events w then SendPointerMove env x y w else w)"

definition OnPointerDown ::
    "win32_api \<Rightarrow> win32_env \<Rightarrow> double \<Rightarrow> double \<Rightarrow> win_button \<Rightarrow> win32_window \<Rightarrow> win32_window" where
  "OnPointerDown api env x y button w =
     (if ww_process_events w then
        let flutter_button = ConvertWinButtonToFlutterButton api button in
        if flutter_button \<noteq> 0 then
          SendPointerDown env x y (SetMouseButtons (or (ms_buttons (ww_mouse w)) flutter_button) w)
        else w
      else w)"

definition OnPointerUp ::
    "win32_api \<Rightarrow> win32_env \<Rightarrow> double \<Rightarrow> double \<Rightarrow> win_button \<Rightarrow> win32_window \<Rightarrow> win32_window" where
  "OnPointerUp api env x y button w =
     (if ww_process_events w then
        let flutter_button = ConvertWinButtonToFlutterButton api button in
        if flutter_button \<noteq> 0 then
          SendPointerUp env x y (SetMouseButtons (and (ms_buttons (ww_mouse w)) (not flutter_button)) w)
        else w
      else w)"

definition OnPointerLeave :: "win32_env \<Rightarrow> win32_window \<Rightarrow> win32_window" where
  "OnPointerLeave env w = (if ww_process_events w then SendPointerLeave env w else w)"

definition OnChar :: "32 word \<Rightarrow> win32_window \<Rightarrow> win32_window" where
  "OnChar code_point w = (if ww_process_events w then SendChar code_point w else w)"

definition OnKey :: "32 word \<Rightarrow> 8 word \<Rightarrow> win_message \<Rightarrow> win32_window \<Rightarrow> win32_window" where
  "OnKey key scancode action w = (if ww_process_events w then SendKey key scancode action w else w)"

definition OnScroll :: "win32_env \<Rightarrow> double \<Rightarrow> double \<Rightarrow> win32_window \<Rightarrow> win32_window" where
  "OnScroll env delta_x delta_y w = (if ww_process_events w then SendScroll env delta_x delta_y w else w)"

definition OnClose :: "win32_window \<Rightarrow> win32_window" where
  "OnClose w = w\<lparr>ww_messageloop_running := False\<rparr>"

definition OnFontChange :: "win32_window \<Rightarrow> win32_window" where
  "OnFontChange w = (if \<not> ww_engine w then w else win_call ReloadSystemFonts w)"

section \<open>The window procedure\<close>

definition TrackMouseLeaveEvent :: "win32_window \<Rightarrow> win32_window" where
  "TrackMouseLeaveEvent w =
     (if \<not> ww_tracking_mouse_leave w then
        (win_call TrackMouseEvent w)\<lparr>ww_tracking_mouse_leave := True\<rparr>
      else w)"

definition HandleResize :: "32 word \<Rightarrow> 32 word \<Rightarrow> win32_window \<Rightarrow> win32_window" where
  "HandleResize width height w = OnResize (w\<lparr>ww_width := width, ww_height := height\<rparr>)"

definition HandleDpiChange :: "win32_api \<Rightarrow> win32_env \<Rightarrow> 64 word \<Rightarrow> bool \<Rightarrow> win32_window \<Rightarrow> win32_window" where
  "HandleDpiChange api env wparam toplevel w =
     (if ww_handle w then
        let uDpi = (ucast (HIWORD api wparam) :: 32 word);
            w1 = w\<lparr>ww_dpi := if uDpi = 0 then en_dpi env else uDpi\<rparr> in
        if toplevel then
          win_call (SetWindowPos (en_left env) (en_top env) (en_right env - en_left env)
            (en_bottom env - en_top env)) w1
        else w1
      else w)"

text \<open>The result of a handler, or the default procedure's.\<close>

datatype lresult = Returned "64 word" | DefWindowProc

definition handle_char :: "win32_api \<Rightarrow> 64 word \<Rightarrow> win32_window \<Rightarrow> lresult \<times> win32_window" where
  "handle_char api wparam w =
     (if wparam = VK_BACK api then (DefWindowProc, w)
      else
        let code_point = (ucast wparam :: 32 word) in
        if and code_point 0xFFFFFC00 = 0xD800 then (Returned 1, w\<lparr>ww_lead_surrogate := code_point\<rparr>)
        else
          let lead_surrogate = ww_lead_surrogate w;
              merged =
                (if lead_surrogate \<noteq> 0 \<and> and code_point 0xFFFFFC00 = 0xDC00
                 then 0x10000 + push_bit 10 (and lead_surrogate 0x3FF) + and code_point 0x3FF
                 else code_point) in
          (DefWindowProc, OnChar merged (w\<lparr>ww_lead_surrogate := 0\<rparr>)))"

definition handle_key :: "win32_api \<Rightarrow> win_message \<Rightarrow> 64 word \<Rightarrow> win32_window \<Rightarrow> win32_window" where
  "handle_key api message lparam w =
     (let scancode = (ucast (drop_bit 16 lparam) :: 8 word);
          key = MapVirtualKey api scancode;
          action = (if message = WM_KEYDOWN then WM_KEYDOWN else WM_KEYUP) in
      OnKey key scancode action w)"

definition handle_button ::
    "(win_button \<Rightarrow> win32_window \<Rightarrow> win32_window) \<Rightarrow> win32_api \<Rightarrow> win_message \<Rightarrow> bool \<Rightarrow> 64 word \<Rightarrow>
     win32_window \<Rightarrow> win32_window" where
  "handle_button on api message extended wparam w =
     on (if extended then ExtendedButton (GET_XBUTTON_WPARAM api wparam) else MessageButton message) w"

definition MessageHandler ::
    "win32_api \<Rightarrow> win32_env \<Rightarrow> win_message \<Rightarrow> 64 word \<Rightarrow> 64 word \<Rightarrow> win32_window \<Rightarrow> lresult \<times> win32_window" where
  "MessageHandler api env message wparam lparam w =
     (let xPos = double_of_int (sint (GET_X_LPARAM api lparam));
          yPos = double_of_int (sint (GET_Y_LPARAM api lparam)) in
      if ww_user_data w then
        (case message of
           WM_DPICHANGED \<Rightarrow> (Returned 0, HandleDpiChange api env wparam True w)
         | kWmDpiChangedBeforeParent \<Rightarrow> (Returned 0, HandleDpiChange api env wparam False w)
         | WM_DESTROY \<Rightarrow> (Returned 0, OnClose w)
         | WM_SIZE \<Rightarrow>
             let width = ucast (LOWORD api lparam); height = ucast (HIWORD api lparam) in
             (DefWindowProc, HandleResize width height (w\<lparr>ww_width := width, ww_height := height\<rparr>))
         | WM_FONTCHANGE \<Rightarrow> (DefWindowProc, OnFontChange w)
         | WM_MOUSEMOVE \<Rightarrow> (DefWindowProc, OnPointerMove env xPos yPos (TrackMouseLeaveEvent w))
         | WM_MOUSELEAVE \<Rightarrow> (DefWindowProc, (OnPointerLeave env w)\<lparr>ww_tracking_mouse_leave := False\<rparr>)
         | WM_LBUTTONDOWN \<Rightarrow>
             (DefWindowProc, handle_button (OnPointerDown api env xPos yPos) api message False wparam
               (win_call SetCapture w))
         | WM_RBUTTONDOWN \<Rightarrow>
             (DefWindowProc, handle_button (OnPointerDown api env xPos yPos) api message False wparam w)
         | WM_MBUTTONDOWN \<Rightarrow>
             (DefWindowProc, handle_button (OnPointerDown api env xPos yPos) api message False wparam w)
         | WM_XBUTTONDOWN \<Rightarrow>
             (DefWindowProc, handle_button (OnPointerDown api env xPos yPos) api message True wparam w)
         | WM_LBUTTONUP \<Rightarrow>
             (DefWindowProc, handle_button (OnPointerUp api env xPos yPos) api message False wparam
               (win_call ReleaseCapture w))
         | WM_RBUTTONUP \<Rightarrow>
             (DefWindowProc, handle_button (OnPointerUp api env xPos yPos) api message False wparam w)
         | WM_MBUTTONUP \<Rightarrow>
             (DefWindowProc, handle_button (OnPointerUp api env xPos yPos) api message False wparam w)
         | WM_XBUTTONUP \<Rightarrow>
             (DefWindowProc, handle_button (OnPointerUp api env xPos yPos) api message True wparam w)
         | WM_MOUSEWHEEL \<Rightarrow>
             (DefWindowProc, OnScroll env 0
               (double_neg (double_divide (double_of_int (sint (HIWORD api wparam)))
                 (double_of_int (WHEEL_DELTA api)))) w)
         | WM_UNICHAR \<Rightarrow> (if wparam = UNICODE_NOCHAR api then Returned 1 else DefWindowProc, w)
         | WM_CHAR \<Rightarrow> handle_char api wparam w
         | WM_SYSCHAR \<Rightarrow> handle_char api wparam w
         | WM_KEYDOWN \<Rightarrow> (DefWindowProc, handle_key api message lparam w)
         | WM_SYSKEYDOWN \<Rightarrow> (DefWindowProc, handle_key api message lparam w)
         | WM_KEYUP \<Rightarrow> (DefWindowProc, handle_key api message lparam w)
         | WM_SYSKEYUP \<Rightarrow> (DefWindowProc, handle_key api message lparam w)
         | _ \<Rightarrow> (DefWindowProc, w))
      else (DefWindowProc, w))"

definition WndProc ::
    "win32_api \<Rightarrow> win32_env \<Rightarrow> win_message \<Rightarrow> 64 word \<Rightarrow> 64 word \<Rightarrow> win32_window \<Rightarrow> lresult \<times> win32_window" where
  "WndProc api env message wparam lparam w =
     (if message = WM_NCCREATE then
        (DefWindowProc, w\<lparr>ww_user_data := True, ww_dpi := en_dpi env, ww_handle := True\<rparr>)
      else if ww_user_data w then MessageHandler api env message wparam lparam w
      else (DefWindowProc, w))"

text \<open>
  A platform message from the engine: the dispatcher's requests to block and unblock input switch the
  processing of events.
\<close>

definition apply_input_event :: "event \<Rightarrow> win32_window \<Rightarrow> win32_window" where
  "apply_input_event ev w =
     (case ev of
        BlockInput \<Rightarrow> w\<lparr>ww_process_events := False\<rparr>
      | UnblockInput \<Rightarrow> w\<lparr>ww_process_events := True\<rparr>
      | _ \<Rightarrow> w)"

definition HandlePlatformMessage ::
    "('c, 'h) handler_code \<Rightarrow>
     ('c \<Rightarrow> desktop_message \<Rightarrow> ('c, 'h) messengers \<Rightarrow> (event list \<times> ('c, 'h) messengers) res) \<Rightarrow>
     bool \<Rightarrow> desktop_message \<Rightarrow> ('c, 'h) messengers \<times> win32_window \<Rightarrow>
     (event list \<times> ('c, 'h) messengers \<times> win32_window) res" where
  "HandlePlatformMessage run crun size_ok message x =
     (case x of (m, w) \<Rightarrow>
       if \<not> size_ok then Inr ([], m, w)
       else
         bind_res (guard NullDeref (ww_engine w)) (\<lambda>_.
         bind_res (HandleMessage run crun message m) (\<lambda>(evs, m').
           Inr (evs, m', fold apply_input_event evs w))))"

section \<open>The events of a window\<close>

text \<open>
  What happens to a window: a message arrives, the engine is set, and the dispatcher of a running
  engine blocks or unblocks input.
\<close>

datatype win32_input =
    WinMessage win32_env win_message "64 word" "64 word"
  | EngineStarted
  | DispatcherEvent event

fun pointer_calls :: "win_call list \<Rightarrow> flutter_pointer_event list" where
  "pointer_calls [] = []"
| "pointer_calls (SendPointerEvent e # cs) = e # pointer_calls cs"
| "pointer_calls (_ # cs) = pointer_calls cs"

definition win32_deliver :: "win32_api \<Rightarrow> win32_input \<Rightarrow> win32_window \<Rightarrow> win32_window" where
  "win32_deliver api i w =
     (case i of
        WinMessage env message wparam lparam \<Rightarrow> snd (WndProc api env message wparam lparam w)
      | EngineStarted \<Rightarrow> SetState w
      | DispatcherEvent ev \<Rightarrow> if ww_engine w then apply_input_event ev w else w)"

definition win32_step ::
    "win32_api \<Rightarrow> win32_input \<Rightarrow> win32_window \<Rightarrow> flutter_pointer_event list \<times> win32_window" where
  "win32_step api i w =
     (let w' = win32_deliver api i (w\<lparr>ww_calls := []\<rparr>) in (pointer_calls (ww_calls w'), w'))"

lemma pointer_calls_append [simp]: "pointer_calls (cs @ ds) = pointer_calls cs @ pointer_calls ds"
  by (induction cs rule: pointer_calls.induct) simp_all

lemma pointer_calls_events [simp]: "pointer_calls (map SendPointerEvent es) = es"
  by (induction es) simp_all

text \<open>The events one call sends: the event, after an addition if the pointer is not known.\<close>

definition decorated :: "64 word \<Rightarrow> mouse_state \<Rightarrow> flutter_pointer_event \<Rightarrow> flutter_pointer_event" where
  "decorated now m e =
     e\<lparr>fe_device_kind := DkMouse, fe_buttons := ms_buttons m, fe_struct_size := sizeof_pointer_event,
       fe_timestamp := now\<rparr>"

definition sent :: "(nat \<Rightarrow> 64 word) \<Rightarrow> flutter_pointer_event \<Rightarrow> mouse_state \<Rightarrow> flutter_pointer_event list" where
  "sent clock e m =
     (if flutter_state_is_added m then []
      else [decorated (clock 1) m (empty_event\<lparr>fe_phase := PkAdd, fe_x := fe_x e, fe_y := fe_y e\<rparr>)]) @
     [decorated (clock 0) m e]"

lemma SendPointerEventWithData_sent:
  assumes "fe_phase e \<noteq> PkAdd"
  shows "SendPointerEventWithData clock e w =
    w\<lparr>ww_mouse := if fe_phase e = PkRemove then MouseState else (ww_mouse w)\<lparr>flutter_state_is_added := True\<rparr>,
      ww_calls := ww_calls w @ map SendPointerEvent (sent clock e (ww_mouse w))\<rparr>"
proof -
  let ?add = "empty_event\<lparr>fe_phase := PkAdd, fe_x := fe_x e, fe_y := fe_y e, fe_buttons := 0\<rparr>"
  have add: "SendPointerEventWithData c ?add w =
      w\<lparr>ww_mouse := (ww_mouse w)\<lparr>flutter_state_is_added := True\<rparr>,
        ww_calls := ww_calls w @ [SendPointerEvent (decorated (c 0) (ww_mouse w) ?add)]\<rparr>"
    if "\<not> flutter_state_is_added (ww_mouse w)" for c
    using that
    by (subst SendPointerEventWithData.simps)
      (simp add: win_call_def SetMouseFlutterStateAdded_def decorated_def Let_def)
  have buttons: "decorated t m ?add = decorated t m (empty_event\<lparr>fe_phase := PkAdd, fe_x := fe_x e, fe_y := fe_y e\<rparr>)"
    for t m by (simp add: decorated_def)
  show ?thesis
    using assms
    by (subst SendPointerEventWithData.simps)
      (auto simp: add buttons sent_def win_call_def SetMouseFlutterStateAdded_def ResetMouseState_def
        decorated_def Let_def)
qed

text \<open>The phases that fit what the converter remembers.\<close>

definition phase_fits :: "flutter_pointer_event \<Rightarrow> bool \<Rightarrow> bool" where
  "phase_fits e down \<longleftrightarrow>
     fe_signal_kind e = SkScroll \<or>
     fe_phase e = PkRemove \<or> (if down then fe_phase e \<in> {PkMove, PkUp} else fe_phase e \<in> {PkHover, PkDown})"

definition known_to_engine :: "mouse_state \<Rightarrow> bool option" where
  "known_to_engine m = (if flutter_state_is_added m then Some (flutter_state_is_down m) else None)"

lemma sent_follows:
  assumes "phase_fits e (flutter_state_is_down m)" "flutter_state_is_down m \<Longrightarrow> flutter_state_is_added m"
    "fe_device e = 0"
  shows "follows (sent clock e m) (known_to_engine m)
    (if fe_signal_kind e = SkScroll then Some (flutter_state_is_down m)
     else if fe_phase e = PkRemove then None
     else Some (fe_phase e \<in> {PkMove, PkDown}))"
  using assms
  by (cases "fe_phase e"; cases "fe_signal_kind e")
    (auto simp: sent_def event_ok_def decorated_def empty_event_def known_to_engine_def phase_fits_def
      may_follow_def track_def split: if_splits)

text \<open>Between two inputs the mouse is down exactly while a button is held, and then the pointer is known.\<close>

definition mouse_inv :: "mouse_state \<Rightarrow> bool" where
  "mouse_inv m \<longleftrightarrow> (flutter_state_is_down m \<longleftrightarrow> ms_buttons m \<noteq> 0) \<and>
     (flutter_state_is_down m \<longrightarrow> flutter_state_is_added m)"

definition win32_tracks :: "win32_window \<Rightarrow> bool option \<Rightarrow> bool" where
  "win32_tracks w t \<longleftrightarrow> mouse_inv (ww_mouse w) \<and> t = known_to_engine (ww_mouse w) \<and>
     (ww_process_events w \<longrightarrow> ww_engine w)"

text \<open>One handler: the calls it adds are followed, and the window is tracked again.\<close>

definition tracked_update :: "(win32_window \<Rightarrow> win32_window) \<Rightarrow> bool" where
  "tracked_update f \<longleftrightarrow>
     (\<forall>w t. win32_tracks w t \<longrightarrow>
        (\<exists>cs t'. ww_calls (f w) = ww_calls w @ cs \<and> follows (pointer_calls cs) t t' \<and> win32_tracks (f w) t'))"

named_theorems tracked_updates

lemma tracked_updateI:
  assumes "\<And>w t. win32_tracks w t \<Longrightarrow>
    \<exists>cs t'. ww_calls (f w) = ww_calls w @ cs \<and> follows (pointer_calls cs) t t' \<and> win32_tracks (f w) t'"
  shows "tracked_update f"
  using assms unfolding tracked_update_def by blast

lemma tracked_update_comp:
  assumes "tracked_update f" "tracked_update g"
  shows "tracked_update (\<lambda>w. g (f w))"
proof (rule tracked_updateI)
  fix w t
  assume "win32_tracks w t"
  with assms(1) obtain cs t1 where 1: "ww_calls (f w) = ww_calls w @ cs" "follows (pointer_calls cs) t t1"
    "win32_tracks (f w) t1" unfolding tracked_update_def by blast
  with assms(2) obtain ds t2 where "ww_calls (g (f w)) = ww_calls (f w) @ ds"
    "follows (pointer_calls ds) t1 t2" "win32_tracks (g (f w)) t2" unfolding tracked_update_def by blast
  with 1 show "\<exists>cs t'. ww_calls (g (f w)) = ww_calls w @ cs \<and> follows (pointer_calls cs) t t' \<and>
      win32_tracks (g (f w)) t'"
    by (intro exI [of _ "cs @ ds"] exI [of _ t2]) (auto intro: follows_append)
qed

text \<open>Updates that send no pointer event and leave the mouse alone.\<close>

lemma tracked_update_quiet:
  assumes "\<And>w. ww_mouse (f w) = ww_mouse w" "\<And>w. \<exists>cs. ww_calls (f w) = ww_calls w @ cs \<and> pointer_calls cs = []"
    "\<And>w. (ww_process_events w \<longrightarrow> ww_engine w) \<Longrightarrow> ww_process_events (f w) \<Longrightarrow> ww_engine (f w)"
  shows "tracked_update f"
proof (rule tracked_updateI)
  fix w t
  assume t: "win32_tracks w t"
  obtain cs where "ww_calls (f w) = ww_calls w @ cs" "pointer_calls cs = []" using assms(2) by blast
  with t assms(1,3) show "\<exists>cs t'. ww_calls (f w) = ww_calls w @ cs \<and> follows (pointer_calls cs) t t' \<and>
      win32_tracks (f w) t'"
    by (intro exI [of _ cs] exI [of _ t]) (auto simp: win32_tracks_def)
qed

lemma tracked_update_if:
  "tracked_update f \<Longrightarrow> tracked_update g \<Longrightarrow> tracked_update (\<lambda>w. if b w then f w else g w)"
  unfolding tracked_update_def by simp

lemma tracked_update_id [tracked_updates]: "tracked_update (\<lambda>w. w)"
  by (rule tracked_update_quiet) auto

text \<open>A handler that sends one event, with the mouse's buttons updated before.\<close>

lemma sending_tracked:
  assumes t: "win32_tracks w t" and fits: "phase_fits e (flutter_state_is_down (ww_mouse w))"
    and e: "fe_device e = 0" and m: "m = (ww_mouse w)\<lparr>ms_buttons := b\<rparr>"
    and w': "ww_calls w' = ww_calls w @ map SendPointerEvent (sent clock e m)"
      "mouse_inv (ww_mouse w')" "ww_process_events w' = ww_process_events w" "ww_engine w' = ww_engine w"
      "known_to_engine (ww_mouse w') =
        (if fe_signal_kind e = SkScroll then Some (flutter_state_is_down m)
         else if fe_phase e = PkRemove then None else Some (fe_phase e \<in> {PkMove, PkDown}))"
  shows "\<exists>cs t'. ww_calls w' = ww_calls w @ cs \<and> follows (pointer_calls cs) t t' \<and> win32_tracks w' t'"
proof -
  have known: "known_to_engine m = t" and added: "flutter_state_is_down m \<Longrightarrow> flutter_state_is_added m"
    using t m by (auto simp: win32_tracks_def mouse_inv_def known_to_engine_def)
  have "phase_fits e (flutter_state_is_down m)" using fits m by simp
  from sent_follows [OF this added e, of clock]
  have "follows (sent clock e m) t (known_to_engine (ww_mouse w'))"
    unfolding known w'(5) .
  with t w' show ?thesis
    by (intro exI [of _ "map SendPointerEvent (sent clock e m)"] exI [of _ "known_to_engine (ww_mouse w')"])
      (simp add: win32_tracks_def)
qed

lemmas sending_defs = SendPointerEventWithData_sent SetEventPhaseFromCursorButtonState_def
  SetMouseFlutterStateDown_def SetMouseButtons_def known_to_engine_def mouse_inv_def phase_fits_def Let_def

lemma SendPointerMove_tracked [tracked_updates]: "tracked_update (SendPointerMove env x y)"
proof (rule tracked_updateI)
  fix w t
  assume t: "win32_tracks w t"
  then have "mouse_inv (ww_mouse w)" by (simp add: win32_tracks_def)
  then show "\<exists>cs t'. ww_calls (SendPointerMove env x y w) = ww_calls w @ cs \<and>
      follows (pointer_calls cs) t t' \<and> win32_tracks (SendPointerMove env x y w) t'"
    by (intro sending_tracked [OF t, where
          e = "SetEventPhaseFromCursorButtonState w (empty_event\<lparr>fe_x := x, fe_y := y\<rparr>)" and
          m = "ww_mouse w" and b = "ms_buttons (ww_mouse w)" and clock = "en_clock env"])
      (auto simp: SendPointerMove_def sending_defs)
qed

lemma OnPointerDown_tracked [tracked_updates]: "tracked_update (OnPointerDown api env x y button)"
proof (rule tracked_updateI)
  fix w t
  assume t: "win32_tracks w t"
  let ?f = "ConvertWinButtonToFlutterButton api button"
  let ?w = "SetMouseButtons (or (ms_buttons (ww_mouse w)) ?f) w"
  let ?e = "(SetEventPhaseFromCursorButtonState ?w empty_event)\<lparr>fe_x := x, fe_y := y\<rparr>"
  have or_0: "or (ms_buttons (ww_mouse w)) ?f = 0 \<longleftrightarrow> ms_buttons (ww_mouse w) = 0 \<and> ?f = 0"
    by (rule or_eq_0_iff)
  show "\<exists>cs t'. ww_calls (OnPointerDown api env x y button w) = ww_calls w @ cs \<and>
      follows (pointer_calls cs) t t' \<and> win32_tracks (OnPointerDown api env x y button w) t'"
  proof (cases "ww_process_events w \<and> ?f \<noteq> 0")
    case True
    moreover have "mouse_inv (ww_mouse w)" using t by (simp add: win32_tracks_def)
    ultimately show ?thesis
      by (intro sending_tracked [OF t, where e = ?e and m = "ww_mouse ?w" and clock = "en_clock env"
            and b = "or (ms_buttons (ww_mouse w)) ?f"])
        (auto simp: OnPointerDown_def SendPointerDown_def sending_defs or_0)
  next
    case False
    with t show ?thesis
      by (intro exI [of _ "[]"] exI [of _ t]) (auto simp: OnPointerDown_def)
  qed
qed

lemma OnPointerUp_tracked [tracked_updates]: "tracked_update (OnPointerUp api env x y button)"
proof (rule tracked_updateI)
  fix w t
  assume t: "win32_tracks w t"
  let ?f = "ConvertWinButtonToFlutterButton api button"
  let ?w = "SetMouseButtons (and (ms_buttons (ww_mouse w)) (not ?f)) w"
  let ?e = "(SetEventPhaseFromCursorButtonState ?w empty_event)\<lparr>fe_x := x, fe_y := y\<rparr>"
  show "\<exists>cs t'. ww_calls (OnPointerUp api env x y button w) = ww_calls w @ cs \<and>
      follows (pointer_calls cs) t t' \<and> win32_tracks (OnPointerUp api env x y button w) t'"
  proof (cases "ww_process_events w \<and> ?f \<noteq> 0")
    case True
    moreover have "mouse_inv (ww_mouse w)" using t by (simp add: win32_tracks_def)
    ultimately show ?thesis
      by (intro sending_tracked [OF t, where e = ?e and m = "ww_mouse ?w" and clock = "en_clock env"
            and b = "and (ms_buttons (ww_mouse w)) (not ?f)"])
        (auto simp: OnPointerUp_def SendPointerUp_def sending_defs)
  next
    case False
    with t show ?thesis
      by (intro exI [of _ "[]"] exI [of _ t]) (auto simp: OnPointerUp_def)
  qed
qed

lemma SendPointerLeave_tracked [tracked_updates]: "tracked_update (SendPointerLeave env)"
proof (rule tracked_updateI)
  fix w t
  assume t: "win32_tracks w t"
  then show "\<exists>cs t'. ww_calls (SendPointerLeave env w) = ww_calls w @ cs \<and>
      follows (pointer_calls cs) t t' \<and> win32_tracks (SendPointerLeave env w) t'"
    by (intro sending_tracked [OF t, where e = "empty_event\<lparr>fe_phase := PkRemove\<rparr>" and
          m = "ww_mouse w" and b = "ms_buttons (ww_mouse w)" and clock = "en_clock env"])
      (auto simp: SendPointerLeave_def MouseState_def sending_defs)
qed

lemma SendScroll_tracked [tracked_updates]: "tracked_update (SendScroll env dx dy)"
proof (rule tracked_updateI)
  fix w t
  assume t: "win32_tracks w t"
  then have "mouse_inv (ww_mouse w)" by (simp add: win32_tracks_def)
  then show "\<exists>cs t'. ww_calls (SendScroll env dx dy w) = ww_calls w @ cs \<and>
      follows (pointer_calls cs) t t' \<and> win32_tracks (SendScroll env dx dy w) t'"
    by (intro sending_tracked [OF t, where
          e = "(SetEventPhaseFromCursorButtonState w (empty_event
              \<lparr>fe_x := double_of_int (sint (en_cursor_x env)), fe_y := double_of_int (sint (en_cursor_y env))\<rparr>))
              \<lparr>fe_signal_kind := SkScroll, fe_scroll_delta_x := double_times dx (double_of_int 20),
               fe_scroll_delta_y := double_times dy (double_of_int 20)\<rparr>" and
          m = "ww_mouse w" and b = "ms_buttons (ww_mouse w)" and clock = "en_clock env"])
      (auto simp: SendScroll_def sending_defs)
qed

lemma fold_hooks:
  "fold (\<lambda>h. win_call (f h)) hs w = w\<lparr>ww_calls := ww_calls w @ map f hs\<rparr>"
  by (induction hs arbitrary: w) (simp_all add: win_call_def)

lemma pointer_calls_hooks [simp]:
  "pointer_calls (map (\<lambda>h. CharHookCall h c) hs) = []"
  "pointer_calls (map (\<lambda>h. KeyboardHookCall h k sc a) hs) = []"
  by (induction hs) simp_all

lemma quiet_updates [tracked_updates]:
  "tracked_update SetState" "tracked_update OnResize" "tracked_update (OnChar c)"
  "tracked_update (OnKey k sc a)" "tracked_update OnClose" "tracked_update OnFontChange"
  "tracked_update TrackMouseLeaveEvent" "tracked_update (HandleDpiChange api env wp toplevel)"
  "tracked_update (win_call SetCapture)" "tracked_update (win_call ReleaseCapture)"
  "tracked_update (\<lambda>w. w\<lparr>ww_width := width, ww_height := height\<rparr>)"
  "tracked_update (\<lambda>w. w\<lparr>ww_tracking_mouse_leave := b\<rparr>)"
  "tracked_update (\<lambda>w. w\<lparr>ww_lead_surrogate := c\<rparr>)"
  "tracked_update (\<lambda>w. w\<lparr>ww_user_data := True, ww_dpi := dpi, ww_handle := True\<rparr>)"
  "tracked_update (\<lambda>w. if ww_engine w then apply_input_event ev w else w)"
  by (rule tracked_update_quiet;
      auto simp: SetState_def OnResize_def SendWindowMetrics_def OnChar_def SendChar_def OnKey_def SendKey_def
        OnClose_def OnFontChange_def TrackMouseLeaveEvent_def HandleDpiChange_def apply_input_event_def
        win_call_def fold_hooks Let_def split: if_splits event.splits)+

lemma OnPointer_tracked [tracked_updates]:
  "tracked_update (OnPointerMove env x y)" "tracked_update (OnPointerLeave env)" "tracked_update (OnScroll env dx dy)"
  unfolding OnPointerMove_def OnPointerLeave_def OnScroll_def
  by (intro tracked_update_if tracked_updates)+

lemma handle_char_tracked [tracked_updates]: "tracked_update (\<lambda>w. snd (handle_char api wp w))"
proof -
  have "tracked_update (\<lambda>w. OnChar (c w) (w\<lparr>ww_lead_surrogate := 0\<rparr>))" for c
    by (rule tracked_update_quiet)
      (auto simp: OnChar_def SendChar_def fold_hooks split: if_splits)
  then show ?thesis
    unfolding handle_char_def Let_def if_distrib [of snd] snd_conv
    by (intro tracked_update_if tracked_updates)
qed

lemma composed_updates [tracked_updates]:
  "tracked_update (\<lambda>w. OnPointerMove env x y (TrackMouseLeaveEvent w))"
  "tracked_update (\<lambda>w. (OnPointerLeave env w)\<lparr>ww_tracking_mouse_leave := False\<rparr>)"
  "tracked_update (\<lambda>w. OnPointerDown api env x y button (win_call SetCapture w))"
  "tracked_update (\<lambda>w. OnPointerUp api env x y button (win_call ReleaseCapture w))"
  "tracked_update (HandleResize width height)"
  "tracked_update (\<lambda>w. HandleResize width height (w\<lparr>ww_width := width, ww_height := height\<rparr>))"
proof -
  show "tracked_update (HandleResize width height)"
    unfolding HandleResize_def by (rule tracked_update_comp) (rule tracked_updates)+
  then show "tracked_update (\<lambda>w. HandleResize width height (w\<lparr>ww_width := width, ww_height := height\<rparr>))"
    by (rule tracked_update_comp [rotated]) (rule tracked_updates)
qed (rule tracked_update_comp [rotated], rule tracked_updates, rule tracked_updates)+

lemma MessageHandler_tracked [tracked_updates]:
  "tracked_update (\<lambda>w. snd (MessageHandler api env message wp lp w))"
  unfolding MessageHandler_def Let_def handle_button_def handle_key_def
  by (cases message; simp only: win_message.case if_distrib [of snd] snd_conv if_True if_False;
      intro tracked_update_if tracked_updates)

lemma win32_deliver_tracked: "tracked_update (win32_deliver api i)"
  unfolding win32_deliver_def WndProc_def
  by (cases i; simp only: win32_input.case if_distrib [of snd] snd_conv; intro tracked_update_if tracked_updates)

interpretation win32: pointer_source "win32_step api" "\<lambda>_ _. True" win32_tracks for api
proof
  fix w t i
  assume "win32_tracks w t"
  then have "win32_tracks (w\<lparr>ww_calls := []\<rparr>) t" by (simp add: win32_tracks_def)
  with win32_deliver_tracked [of api i] obtain cs t' where
    "ww_calls (win32_deliver api i (w\<lparr>ww_calls := []\<rparr>)) = cs" "follows (pointer_calls cs) t t'"
    "win32_tracks (win32_deliver api i (w\<lparr>ww_calls := []\<rparr>)) t'"
    unfolding tracked_update_def by fastforce
  then show "\<exists>t'. follows (fst (win32_step api i w)) t t' \<and> win32_tracks (snd (win32_step api i w)) t'"
    by (auto simp: win32_step_def Let_def)
qed

text \<open>
  C38. The converter accepts whatever a Windows window sends: from a new window and a new converter, no
  sequence of window messages, of blocking and unblocking input, and of starting the engine makes the
  window send a pointer event that trips an assertion of the converter.
\<close>

theorem win32_pointer_events_accepted:
  "\<exists>packets c. send_events (fst (run_source (win32_step api) inputs Win32Window)) PointerDataPacketConverter =
     Inr (packets, c)"
proof -
  have "win32_tracks Win32Window (tracked PointerDataPacketConverter 0)"
    by (simp add: win32_tracks_def mouse_inv_def known_to_engine_def Win32Window_def MouseState_def)
  from win32.run_is_accepted [OF this, of api inputs] show ?thesis by auto
qed

section \<open>Typed characters\<close>

text \<open>Code points that are not surrogates, and their UTF-16 code units.\<close>

definition scalar_value :: "32 word \<Rightarrow> bool" where
  "scalar_value c \<longleftrightarrow> c < 0x110000 \<and> and c 0xFFFFFC00 \<noteq> 0xD800 \<and> and c 0xFFFFFC00 \<noteq> 0xDC00"

definition utf16_units :: "32 word \<Rightarrow> 32 word list" where
  "utf16_units c =
     (if c < 0x10000 then [c]
      else [or 0xD800 (drop_bit 10 (c - 0x10000)), or 0xDC00 (take_bit 10 (c - 0x10000))])"

lemma masks: "(0xFFFFFC00 :: 32 word) = not (mask 10)" "(0x3FF :: 32 word) = mask 10"
  by (simp_all add: mask_numeral)

lemma low_part:
  fixes x :: "32 word"
  assumes "take_bit 10 x = x"
  shows "and x 0xFFFFFC00 = 0" "and x 0x3FF = x"
proof -
  have "and (take_bit 10 x) (not (mask 10)) = 0" by (rule bit_eqI) (simp add: bit_simps)
  with assms show "and x 0xFFFFFC00 = 0" "and x 0x3FF = x"
    by (simp_all only: masks) (simp_all flip: take_bit_eq_mask)
qed

lemma surrogate_parts:
  fixes x :: "32 word"
  assumes "take_bit 10 x = x"
  shows "and (or 0xD800 x) 0xFFFFFC00 = 0xD800" "and (or 0xDC00 x) 0xFFFFFC00 = 0xDC00"
    "and (or 0xD800 x) 0x3FF = x" "and (or 0xDC00 x) 0x3FF = x"
  using low_part [OF assms] by (simp_all add: bit.conj_disj_distrib2)

lemma supplementary_parts:
  fixes c :: "32 word"
  assumes "\<not> c < 0x10000" "c < 0x110000"
  shows "take_bit 10 (drop_bit 10 (c - 0x10000)) = drop_bit 10 (c - 0x10000)"
    "0x10000 + push_bit 10 (drop_bit 10 (c - 0x10000)) + take_bit 10 (c - 0x10000) = c"
proof -
  have "c - 0x10000 < 2 ^ 20"
    using assms by (simp add: word_less_nat_alt word_le_nat_alt unat_sub not_less)
  then have "take_bit 20 (c - 0x10000) = c - 0x10000"
    by (simp add: word_unat_eq_iff unat_mod take_bit_eq_mod word_less_nat_alt)
  then show "take_bit 10 (drop_bit 10 (c - 0x10000)) = drop_bit 10 (c - 0x10000)"
    using drop_bit_take_bit [of 10 20 "c - 0x10000"] by simp
  show "0x10000 + push_bit 10 (drop_bit 10 (c - 0x10000)) + take_bit 10 (c - 0x10000) = c"
    using bits_ident [of 10 "c - 0x10000"] by (simp add: algebra_simps)
qed

definition type_unit :: "win32_api \<Rightarrow> win32_env \<Rightarrow> 64 word \<Rightarrow> 32 word \<Rightarrow> win32_window \<Rightarrow> win32_window" where
  "type_unit api env lparam u w = snd (WndProc api env WM_CHAR (ucast u) lparam w)"

lemma ucast_down_up: "(ucast (ucast (u :: 32 word) :: 64 word) :: 32 word) = u"
  by (rule bit_word_eqI) (simp add: bit_simps)

lemma unit_not_8: "(ucast (u :: 32 word) :: 64 word) = 8 \<longleftrightarrow> u = 8"
proof
  assume "(ucast u :: 64 word) = 8"
  then have "(ucast (ucast u :: 64 word) :: 32 word) = ucast (8 :: 64 word)" by simp
  then show "u = 8" by (simp add: ucast_down_up)
qed simp

lemma type_unit_plain:
  assumes "ww_user_data w" "ww_process_events w" "ww_lead_surrogate w = 0" "VK_BACK api = 8"
    "and u 0xFFFFFC00 \<noteq> 0xD800" "u \<noteq> 8"
  shows "type_unit api env lparam u w = w\<lparr>ww_calls := ww_calls w @ map (\<lambda>h. CharHookCall h u) (ww_handlers w)\<rparr>"
  using assms
  by (cases w) (simp add: type_unit_def WndProc_def MessageHandler_def handle_char_def OnChar_def SendChar_def
      fold_hooks ucast_down_up unit_not_8 Let_def)

lemma type_pair:
  fixes lead trail :: "32 word"
  assumes "ww_user_data w" "ww_process_events w" "VK_BACK api = 8"
    "and lead 0xFFFFFC00 = 0xD800" "and trail 0xFFFFFC00 = 0xDC00"
  shows "type_unit api env lparam trail (type_unit api env lparam lead w) =
    w\<lparr>ww_lead_surrogate := 0, ww_calls := ww_calls w @ map (\<lambda>h. CharHookCall h
        (0x10000 + push_bit 10 (and lead 0x3FF) + and trail 0x3FF)) (ww_handlers w)\<rparr>"
proof -
  have "lead \<noteq> 0" "lead \<noteq> 8" "trail \<noteq> 8" using assms(4,5) by auto
  with assms show ?thesis
    by (simp add: type_unit_def WndProc_def MessageHandler_def handle_char_def OnChar_def SendChar_def
        fold_hooks ucast_down_up unit_not_8 Let_def)
qed

lemma type_char:
  assumes "ww_user_data w" "ww_process_events w" "ww_lead_surrogate w = 0" "VK_BACK api = 8"
    "scalar_value c" "c \<noteq> 8"
  shows "fold (type_unit api env lparam) (utf16_units c) w =
    w\<lparr>ww_calls := ww_calls w @ map (\<lambda>h. CharHookCall h c) (ww_handlers w)\<rparr>"
proof (cases "c < 0x10000")
  case True
  with assms show ?thesis by (simp add: utf16_units_def scalar_value_def type_unit_plain)
next
  case False
  let ?hi = "drop_bit 10 (c - 0x10000)" and ?lo = "take_bit 10 (c - 0x10000)"
  note parts = supplementary_parts [OF False] assms(5) [unfolded scalar_value_def]
  have hi: "take_bit 10 ?hi = ?hi" using parts by simp
  have lo: "take_bit 10 ?lo = ?lo" by simp
  from False have "fold (type_unit api env lparam) (utf16_units c) w =
      type_unit api env lparam (or 0xDC00 ?lo) (type_unit api env lparam (or 0xD800 ?hi) w)"
    by (simp add: utf16_units_def)
  also have "\<dots> = w\<lparr>ww_lead_surrogate := 0, ww_calls := ww_calls w @ map (\<lambda>h. CharHookCall h
        (0x10000 + push_bit 10 ?hi + ?lo)) (ww_handlers w)\<rparr>"
    using type_pair [OF assms(1,2,4), of "or 0xD800 ?hi" "or 0xDC00 ?lo" env lparam]
    by (simp only: surrogate_parts [OF hi] surrogate_parts [OF lo] simp_thms)
  also have "0x10000 + push_bit 10 ?hi + ?lo = c" using parts by simp
  finally show ?thesis using assms(3) by simp
qed

text \<open>
  C39. Typed text reaches the handlers: if the UTF-16 code units of a text without surrogate code
  points and without backspaces arrive as character messages, every handler is called once for every code point, in
  order, with surrogate pairs merged.
\<close>

theorem typed_text_reaches_handlers:
  assumes "ww_user_data w" "ww_process_events w" "ww_lead_surrogate w = 0" "VK_BACK api = 8"
    "\<And>c. c \<in> set cps \<Longrightarrow> scalar_value c \<and> c \<noteq> 8"
  shows "ww_calls (fold (type_unit api env lparam) (concat (map utf16_units cps)) w) =
    ww_calls w @ concat (map (\<lambda>c. map (\<lambda>h. CharHookCall h c) (ww_handlers w)) cps)"
  using assms
proof (induction cps arbitrary: w)
  case (Cons c cps)
  let ?w = "w\<lparr>ww_calls := ww_calls w @ map (\<lambda>h. CharHookCall h c) (ww_handlers w)\<rparr>"
  have "fold (type_unit api env lparam) (utf16_units c) w = ?w"
    using Cons.prems by (intro type_char) simp_all
  with Cons.IH [of ?w] Cons.prems show ?case by simp
qed simp

definition demo_api :: win32_api where
  "demo_api =
     \<lparr>LOWORD = ucast, HIWORD = \<lambda>x. ucast (drop_bit 16 x), GET_X_LPARAM = \<lambda>x. scast (ucast x :: 16 word),
      GET_Y_LPARAM = \<lambda>x. scast (ucast (drop_bit 16 x) :: 16 word),
      GET_XBUTTON_WPARAM = \<lambda>x. ucast (drop_bit 16 x), MapVirtualKey = ucast, XBUTTON1 = 1, XBUTTON2 = 2,
      WHEEL_DELTA = 120, UNICODE_NOCHAR = 0xFFFF, VK_BACK = 8\<rparr>"

definition demo_window :: win32_window where
  "demo_window = Win32Window\<lparr>ww_user_data := True, ww_engine := True, ww_process_events := True,
     ww_handlers := [TextInputPlugin]\<rparr>"

definition demo_env :: win32_env where
  "demo_env = \<lparr>en_clock = \<lambda>_. 0, en_cursor_x = 0, en_cursor_y = 0, en_dpi = 96, en_left = 0, en_top = 0,
     en_right = 0, en_bottom = 0\<rparr>"

theorem typed_text_reaches_handlers_witness:
  "ww_calls (fold (type_unit demo_api demo_env 0) (concat (map utf16_units [0x61, 0x1F600])) demo_window) =
     [CharHookCall TextInputPlugin 0x61, CharHookCall TextInputPlugin 0x1F600]"
proof -
  have "ww_user_data demo_window" "ww_process_events demo_window" "ww_lead_surrogate demo_window = 0"
    "VK_BACK demo_api = 8" "ww_calls demo_window = []" "ww_handlers demo_window = [TextInputPlugin]"
    by (simp_all add: demo_window_def demo_api_def Win32Window_def)
  moreover have "scalar_value c \<and> c \<noteq> 8" if "c \<in> set [0x61, 0x1F600]" for c
    using that by (auto simp: scalar_value_def)
  ultimately show ?thesis
    using typed_text_reaches_handlers [of demo_window demo_api "[0x61, 0x1F600]" demo_env 0] by simp
qed

end
