(* ===== verification/Glfw_Window.thy ===== *)
theory Glfw_Window
  imports Embedder_Pointer Message_Channel "HOL-Library.Signed_Division"
begin

text \<open>
  \<^verbatim>\<open>shell/platform/glfw/flutter_glfw.cc\<close>: the callbacks of a GLFW window and the events they send to the
  engine. What GLFW answers while a callback runs is an argument; which callbacks are installed is part
  of the state, and so are the calls the window makes.
\<close>

section \<open>State\<close>

datatype glfw_window_call =
    PointerEventSent flutter_pointer_event
  | MetricsEventSent flutter_metrics_event
  | CharHookRun keyboard_handler "32 word"
  | KeyboardHookRun keyboard_handler "32 word" "32 word" "32 word" "32 word"
  | PollEvents
  | SetWindowPosition "32 word" "32 word"
  | SetWindowSize "32 word" "32 word"

record glfw_window =
  gw_pointer_currently_added :: bool
  gw_monitor_screen_coordinates_per_inch :: double
  gw_hover_tracking_enabled :: bool
  gw_pixels_per_screen_coordinate :: double
  gw_pixel_ratio_override :: double
  gw_skip_next_window_refresh :: bool
  gw_handlers :: "keyboard_handler list"
  gw_key_callback :: bool
  gw_char_callback :: bool
  gw_mouse_button_callback :: bool
  gw_scroll_callback :: bool
  gw_cursor_enter_callback :: bool
  gw_cursor_pos_callback :: bool
  gw_calls :: "glfw_window_call list"

text \<open>
  The answers of GLFW: the clock, the cursor, the state of the left button, the sizes of window,
  framebuffer and decoration, and the position of the window.
\<close>

record glfw_env =
  ge_clock :: "nat \<Rightarrow> 64 word"
  ge_cursor_x :: double
  ge_cursor_y :: double
  ge_window_width :: "32 word"
  ge_window_height :: "32 word"
  ge_framebuffer_width :: "32 word"
  ge_framebuffer_height :: "32 word"
  ge_window_x :: "32 word"
  ge_window_y :: "32 word"
  ge_frame_left :: "32 word"
  ge_frame_top :: "32 word"
  ge_frame_right :: "32 word"
  ge_frame_bottom :: "32 word"

definition glfw_call :: "glfw_window_call \<Rightarrow> glfw_window \<Rightarrow> glfw_window" where
  "glfw_call x w = w\<lparr>gw_calls := gw_calls w @ [x]\<rparr>"

section \<open>Metrics\<close>

definition kDpPerInch :: double where
  "kDpPerInch = double_of_int 160"

text \<open>The width of the monitor in pixels and in millimetres; the literal \<^verbatim>\<open>25.4\<close> as its bits.\<close>

definition GetScreenCoordinatesPerInch :: "32 word \<Rightarrow> 32 word \<Rightarrow> double" where
  "GetScreenCoordinatesPerInch width width_mm =
     (if width_mm = 0 then kDpPerInch
      else double_divide (double_of_int (sint width))
             (double_divide (double_of_int (sint width_mm)) 0x4039666666666666))"

definition SendWindowMetrics_glfw :: "32 word \<Rightarrow> 32 word \<Rightarrow> glfw_window \<Rightarrow> glfw_window" where
  "SendWindowMetrics_glfw width height w =
     (let dpi = double_times (gw_pixels_per_screen_coordinate w) (gw_monitor_screen_coordinates_per_inch w) in
      glfw_call (MetricsEventSent
        \<lparr>fm_struct_size = sizeof_metrics_event, fm_width = scast width, fm_height = scast height,
         fm_pixel_ratio =
           (if double_eq (gw_pixel_ratio_override w) 0
            then double_max (double_divide dpi kDpPerInch) 0x3FF0000000000000
            else gw_pixel_ratio_override w)\<rparr>) w)"

definition GLFWFramebufferSizeCallback ::
    "glfw_env \<Rightarrow> 32 word \<Rightarrow> 32 word \<Rightarrow> glfw_window \<Rightarrow> glfw_window" where
  "GLFWFramebufferSizeCallback env width_px height_px w =
     (let width = ge_window_width env;
          w1 = w\<lparr>gw_pixels_per_screen_coordinate :=
                 (if sint width > 0 then double_of_int (sint width_px sdiv sint width) else double_of_int 1)\<rparr> in
      (SendWindowMetrics_glfw width_px height_px w1)\<lparr>gw_skip_next_window_refresh := True\<rparr>)"

definition GLFWWindowRefreshCallback :: "glfw_env \<Rightarrow> glfw_window \<Rightarrow> glfw_window" where
  "GLFWWindowRefreshCallback env w =
     (if gw_skip_next_window_refresh w then w\<lparr>gw_skip_next_window_refresh := False\<rparr>
      else if sint (ge_framebuffer_width env) > 0 \<and> sint (ge_framebuffer_height env) > 0
      then SendWindowMetrics_glfw (ge_framebuffer_width env) (ge_framebuffer_height env) w
      else w)"

definition FlutterDesktopWindowSetPixelRatioOverride :: "glfw_env \<Rightarrow> double \<Rightarrow> glfw_window \<Rightarrow> glfw_window" where
  "FlutterDesktopWindowSetPixelRatioOverride env pixel_ratio w =
     (let w1 = w\<lparr>gw_pixel_ratio_override := pixel_ratio\<rparr> in
      if sint (ge_framebuffer_width env) > 0 \<and> sint (ge_framebuffer_height env) > 0
      then SendWindowMetrics_glfw (ge_framebuffer_width env) (ge_framebuffer_height env) w1
      else w1)"

definition FlutterDesktopWindowGetScaleFactor :: "glfw_window \<Rightarrow> double" where
  "FlutterDesktopWindowGetScaleFactor w = gw_pixels_per_screen_coordinate w"

section \<open>Pointer events\<close>

function SendPointerEventWithData_glfw ::
    "(nat \<Rightarrow> 64 word) \<Rightarrow> flutter_pointer_event \<Rightarrow> glfw_window \<Rightarrow> glfw_window" where
  "SendPointerEventWithData_glfw clock event_data w =
     (let w1 =
            (if \<not> gw_pointer_currently_added w \<and> fe_phase event_data \<noteq> PkAdd then
               SendPointerEventWithData_glfw (\<lambda>i. clock (Suc i))
                 (empty_event\<lparr>fe_phase := PkAdd, fe_x := fe_x event_data, fe_y := fe_y event_data\<rparr>) w
             else w) in
      if gw_pointer_currently_added w1 \<and> fe_phase event_data = PkAdd then w1
      else
        let pixels_per_coordinate = gw_pixels_per_screen_coordinate w1;
            event = event_data
              \<lparr>fe_struct_size := sizeof_pointer_event, fe_timestamp := clock 0,
               fe_x := double_times (fe_x event_data) pixels_per_coordinate,
               fe_y := double_times (fe_y event_data) pixels_per_coordinate,
               fe_scroll_delta_x := double_times (fe_scroll_delta_x event_data) pixels_per_coordinate,
               fe_scroll_delta_y := double_times (fe_scroll_delta_y event_data) pixels_per_coordinate\<rparr>;
            w2 = glfw_call (PointerEventSent event) w1 in
        if fe_phase event_data = PkAdd then w2\<lparr>gw_pointer_currently_added := True\<rparr>
        else if fe_phase event_data = PkRemove then w2\<lparr>gw_pointer_currently_added := False\<rparr>
        else w2)"
  by pat_completeness auto
termination
  by (relation "measure (\<lambda>(_, e, _). if fe_phase e = PkAdd then 0 else 1)") auto

declare SendPointerEventWithData_glfw.simps [simp del]

definition SetEventLocationFromCursorPosition_glfw ::
    "glfw_env \<Rightarrow> flutter_pointer_event \<Rightarrow> flutter_pointer_event" where
  "SetEventLocationFromCursorPosition_glfw env event = event\<lparr>fe_x := ge_cursor_x env, fe_y := ge_cursor_y env\<rparr>"

definition SetEventPhaseFromCursorButtonState_glfw ::
    "bool \<Rightarrow> flutter_pointer_event \<Rightarrow> flutter_pointer_event" where
  "SetEventPhaseFromCursorButtonState_glfw left_pressed event =
     event\<lparr>fe_phase := if left_pressed then PkMove else PkHover\<rparr>"

definition GLFWCursorEnterCallback :: "glfw_env \<Rightarrow> bool \<Rightarrow> glfw_window \<Rightarrow> glfw_window" where
  "GLFWCursorEnterCallback env entered w =
     SendPointerEventWithData_glfw (ge_clock env)
       (SetEventLocationFromCursorPosition_glfw env
         (empty_event\<lparr>fe_phase := if entered then PkAdd else PkRemove\<rparr>)) w"

definition GLFWCursorPositionCallback ::
    "glfw_env \<Rightarrow> bool \<Rightarrow> double \<Rightarrow> double \<Rightarrow> glfw_window \<Rightarrow> glfw_window" where
  "GLFWCursorPositionCallback env left_pressed x y w =
     SendPointerEventWithData_glfw (ge_clock env)
       (SetEventPhaseFromCursorButtonState_glfw left_pressed (empty_event\<lparr>fe_x := x, fe_y := y\<rparr>)) w"

definition GLFWMouseButtonCallback :: "glfw_env \<Rightarrow> bool \<Rightarrow> bool \<Rightarrow> glfw_window \<Rightarrow> glfw_window" where
  "GLFWMouseButtonCallback env left press w =
     (if \<not> left then w
      else
        let event = SetEventLocationFromCursorPosition_glfw env
              (empty_event\<lparr>fe_phase := if press then PkDown else PkUp\<rparr>);
            w1 = SendPointerEventWithData_glfw (ge_clock env) event w in
        if gw_hover_tracking_enabled w1 then w1\<lparr>gw_cursor_enter_callback := \<not> press\<rparr>
        else w1\<lparr>gw_cursor_pos_callback := press\<rparr>)"

definition GLFWScrollCallback ::
    "glfw_env \<Rightarrow> bool \<Rightarrow> double \<Rightarrow> double \<Rightarrow> glfw_window \<Rightarrow> glfw_window" where
  "GLFWScrollCallback env left_pressed delta_x delta_y w =
     (let event = SetEventPhaseFromCursorButtonState_glfw left_pressed
            (SetEventLocationFromCursorPosition_glfw env empty_event);
          kScrollOffsetMultiplier = double_of_int 20 in
      SendPointerEventWithData_glfw (ge_clock env)
        (event\<lparr>fe_signal_kind := SkScroll,
               fe_scroll_delta_x := double_times delta_x kScrollOffsetMultiplier,
               fe_scroll_delta_y := double_times (double_neg delta_y) kScrollOffsetMultiplier\<rparr>) w)"

section \<open>Keys\<close>

definition GLFWCharCallback :: "32 word \<Rightarrow> glfw_window \<Rightarrow> glfw_window" where
  "GLFWCharCallback code_point w = fold (\<lambda>h. glfw_call (CharHookRun h code_point)) (gw_handlers w) w"

definition GLFWKeyCallback ::
    "32 word \<Rightarrow> 32 word \<Rightarrow> 32 word \<Rightarrow> 32 word \<Rightarrow> glfw_window \<Rightarrow> glfw_window" where
  "GLFWKeyCallback key scancode action mods w =
     fold (\<lambda>h. glfw_call (KeyboardHookRun h key scancode action mods)) (gw_handlers w) w"

section \<open>Callbacks\<close>

definition SetHoverCallbacksEnabled :: "bool \<Rightarrow> glfw_window \<Rightarrow> glfw_window" where
  "SetHoverCallbacksEnabled enabled w =
     w\<lparr>gw_cursor_enter_callback := enabled, gw_cursor_pos_callback := enabled\<rparr>"

text \<open>The events polled here find the callbacks that are installed at that moment.\<close>

definition GLFWAssignEventCallbacks :: "glfw_window \<Rightarrow> glfw_window" where
  "GLFWAssignEventCallbacks w =
     (let w1 = (glfw_call PollEvents w)
            \<lparr>gw_key_callback := True, gw_char_callback := True, gw_mouse_button_callback := True,
             gw_scroll_callback := True\<rparr> in
      if gw_hover_tracking_enabled w1 then SetHoverCallbacksEnabled True w1 else w1)"

definition GLFWClearEventCallbacks :: "glfw_window \<Rightarrow> glfw_window" where
  "GLFWClearEventCallbacks w =
     SetHoverCallbacksEnabled False
       (w\<lparr>gw_key_callback := False, gw_char_callback := False, gw_mouse_button_callback := False,
          gw_scroll_callback := False\<rparr>)"

definition FlutterDesktopWindowSetHoverEnabled :: "bool \<Rightarrow> glfw_window \<Rightarrow> glfw_window" where
  "FlutterDesktopWindowSetHoverEnabled enabled w =
     SetHoverCallbacksEnabled enabled (w\<lparr>gw_hover_tracking_enabled := enabled\<rparr>)"

definition apply_input_event_glfw :: "event \<Rightarrow> glfw_window \<Rightarrow> glfw_window" where
  "apply_input_event_glfw ev w =
     (case ev of
        BlockInput \<Rightarrow> GLFWClearEventCallbacks w
      | UnblockInput \<Rightarrow> GLFWAssignEventCallbacks w
      | _ \<Rightarrow> w)"

definition GLFWOnFlutterPlatformMessage ::
    "('c, 'h) handler_code \<Rightarrow>
     ('c \<Rightarrow> desktop_message \<Rightarrow> ('c, 'h) messengers \<Rightarrow> (event list \<times> ('c, 'h) messengers) res) \<Rightarrow>
     bool \<Rightarrow> desktop_message \<Rightarrow> ('c, 'h) messengers \<times> glfw_window \<Rightarrow>
     (event list \<times> ('c, 'h) messengers \<times> glfw_window) res" where
  "GLFWOnFlutterPlatformMessage run crun size_ok message x =
     (case x of (m, w) \<Rightarrow>
       if \<not> size_ok then Inr ([], m, w)
       else
         bind_res (HandleMessage run crun message m) (\<lambda>(evs, m').
           Inr (evs, m', fold apply_input_event_glfw evs w)))"

text \<open>
  The state made by \<^verbatim>\<open>FlutterDesktopCreateWindow\<close> once the engine runs: the first size callback, then the
  callbacks of the window.
\<close>

definition create_window_state :: "glfw_env \<Rightarrow> 32 word \<Rightarrow> 32 word \<Rightarrow> glfw_window" where
  "create_window_state env monitor_width monitor_width_mm =
     (let w = \<lparr>gw_pointer_currently_added = False,
               gw_monitor_screen_coordinates_per_inch = kDpPerInch,
               gw_hover_tracking_enabled = True, gw_pixels_per_screen_coordinate = double_of_int 1,
               gw_pixel_ratio_override = 0, gw_skip_next_window_refresh = False,
               gw_handlers = [KeyEventHandler, TextInputPlugin],
               gw_key_callback = False, gw_char_callback = False, gw_mouse_button_callback = False,
               gw_scroll_callback = False, gw_cursor_enter_callback = False, gw_cursor_pos_callback = False,
               gw_calls = []\<rparr>;
          w1 = w\<lparr>gw_monitor_screen_coordinates_per_inch :=
                 GetScreenCoordinatesPerInch monitor_width monitor_width_mm\<rparr>;
          w2 = GLFWFramebufferSizeCallback env (ge_framebuffer_width env) (ge_framebuffer_height env) w1 in
      GLFWAssignEventCallbacks w2)"

section \<open>Frames\<close>

text \<open>Null pointers are \<open>None\<close>.\<close>

definition FlutterDesktopWindowGetFrame ::
    "glfw_env \<Rightarrow> bool \<Rightarrow> bool \<Rightarrow> bool \<Rightarrow> bool \<Rightarrow>
     32 word option \<times> 32 word option \<times> 32 word option \<times> 32 word option" where
  "FlutterDesktopWindowGetFrame env has_x has_y has_width has_height =
     (if has_x then Some (ge_window_x env - ge_frame_left env) else None,
      if has_y then Some (ge_window_y env - ge_frame_top env) else None,
      if has_width then Some (ge_window_width env + (ge_frame_left env + ge_frame_right env)) else None,
      if has_height then Some (ge_window_height env + (ge_frame_top env + ge_frame_bottom env)) else None)"

definition FlutterDesktopWindowSetFrame ::
    "glfw_env \<Rightarrow> 32 word \<Rightarrow> 32 word \<Rightarrow> 32 word \<Rightarrow> 32 word \<Rightarrow> glfw_window \<Rightarrow> glfw_window" where
  "FlutterDesktopWindowSetFrame env x y width height w =
     glfw_call (SetWindowSize (width - ge_frame_left env - ge_frame_right env)
                              (height - ge_frame_top env - ge_frame_bottom env))
       (glfw_call (SetWindowPosition (x + ge_frame_left env) (y + ge_frame_top env)) w)"

section \<open>The events of a window\<close>

text \<open>
  What happens to a window. GLFW remembers the state of the left button whether or not the callback for
  it is installed; a callback that is not installed is not called.
\<close>

datatype glfw_input =
    CursorEnter glfw_env bool
  | CursorPosition glfw_env double double
  | MouseButton glfw_env bool bool
  | Scroll glfw_env double double
  | CharTyped "32 word"
  | KeyChanged "32 word" "32 word" "32 word" "32 word"
  | FramebufferSize glfw_env "32 word" "32 word"
  | WindowRefresh glfw_env
  | HoverEnabled bool
  | PixelRatioOverride glfw_env double
  | InputEvent event

definition glfw_deliver :: "glfw_input \<Rightarrow> bool \<Rightarrow> glfw_window \<Rightarrow> glfw_window" where
  "glfw_deliver i left w =
     (case i of
        CursorEnter env entered \<Rightarrow> if gw_cursor_enter_callback w then GLFWCursorEnterCallback env entered w else w
      | CursorPosition env x y \<Rightarrow> if gw_cursor_pos_callback w then GLFWCursorPositionCallback env left x y w else w
      | MouseButton env is_left press \<Rightarrow>
          if gw_mouse_button_callback w then GLFWMouseButtonCallback env is_left press w else w
      | Scroll env dx dy \<Rightarrow> if gw_scroll_callback w then GLFWScrollCallback env left dx dy w else w
      | CharTyped c \<Rightarrow> if gw_char_callback w then GLFWCharCallback c w else w
      | KeyChanged key scancode action mods \<Rightarrow>
          if gw_key_callback w then GLFWKeyCallback key scancode action mods w else w
      | FramebufferSize env width height \<Rightarrow> GLFWFramebufferSizeCallback env width height w
      | WindowRefresh env \<Rightarrow> GLFWWindowRefreshCallback env w
      | HoverEnabled enabled \<Rightarrow> FlutterDesktopWindowSetHoverEnabled enabled w
      | PixelRatioOverride env r \<Rightarrow> FlutterDesktopWindowSetPixelRatioOverride env r w
      | InputEvent ev \<Rightarrow> apply_input_event_glfw ev w)"

definition left_after :: "glfw_input \<Rightarrow> bool \<Rightarrow> bool" where
  "left_after i left = (case i of MouseButton _ True press \<Rightarrow> press | _ \<Rightarrow> left)"

fun pointer_events_of :: "glfw_window_call list \<Rightarrow> flutter_pointer_event list" where
  "pointer_events_of [] = []"
| "pointer_events_of (PointerEventSent e # cs) = e # pointer_events_of cs"
| "pointer_events_of (_ # cs) = pointer_events_of cs"

definition glfw_step ::
    "glfw_input \<Rightarrow> bool \<times> glfw_window \<Rightarrow> flutter_pointer_event list \<times> bool \<times> glfw_window" where
  "glfw_step i s =
     (case s of (left, w) \<Rightarrow>
       let w' = glfw_deliver i (left_after i left) (w\<lparr>gw_calls := []\<rparr>) in
       (pointer_events_of (gw_calls w'), left_after i left, w'))"

text \<open>
  Presses and releases of the left button alternate; input is blocked and unblocked, and hovering
  is switched, only while the button is up, hovering only while input is not blocked.
\<close>

definition glfw_admissible :: "glfw_input \<Rightarrow> bool \<times> glfw_window \<Rightarrow> bool" where
  "glfw_admissible i s =
     (case s of (left, w) \<Rightarrow>
       (case i of
          MouseButton _ True press \<Rightarrow> press \<noteq> left
        | HoverEnabled _ \<Rightarrow> \<not> left \<and> gw_mouse_button_callback w
        | InputEvent _ \<Rightarrow> \<not> left
        | _ \<Rightarrow> True))"

definition known_pointer :: "bool \<Rightarrow> bool \<Rightarrow> bool option" where
  "known_pointer added down = (if added then Some down else None)"

text \<open>
  While the callbacks are installed the converter knows the button; while they are not it has the
  pointer up.
\<close>

definition glfw_tracks :: "bool \<times> glfw_window \<Rightarrow> bool option \<Rightarrow> bool" where
  "glfw_tracks s t \<longleftrightarrow>
     (case s of (left, w) \<Rightarrow>
       (gw_cursor_enter_callback w \<longrightarrow> gw_hover_tracking_enabled w) \<and>
       (if gw_mouse_button_callback w then
          t = known_pointer (gw_pointer_currently_added w) left \<and>
          (left \<longrightarrow> gw_pointer_currently_added w \<and> \<not> gw_cursor_enter_callback w)
        else
          t = known_pointer (gw_pointer_currently_added w) False \<and>
          \<not> gw_cursor_enter_callback w \<and> \<not> gw_cursor_pos_callback w \<and> \<not> gw_scroll_callback w))"

lemma pointer_events_of_append [simp]:
  "pointer_events_of (cs @ ds) = pointer_events_of cs @ pointer_events_of ds"
  by (induction cs rule: pointer_events_of.induct) simp_all

lemma pointer_events_of_events [simp]: "pointer_events_of (map PointerEventSent es) = es"
  by (induction es) simp_all

text \<open>The event in pixels, and the events one call sends.\<close>

definition in_pixels :: "64 word \<Rightarrow> double \<Rightarrow> flutter_pointer_event \<Rightarrow> flutter_pointer_event" where
  "in_pixels now scale e =
     e\<lparr>fe_struct_size := sizeof_pointer_event, fe_timestamp := now,
       fe_x := double_times (fe_x e) scale, fe_y := double_times (fe_y e) scale,
       fe_scroll_delta_x := double_times (fe_scroll_delta_x e) scale,
       fe_scroll_delta_y := double_times (fe_scroll_delta_y e) scale\<rparr>"

definition sent_glfw :: "(nat \<Rightarrow> 64 word) \<Rightarrow> flutter_pointer_event \<Rightarrow> glfw_window \<Rightarrow> flutter_pointer_event list" where
  "sent_glfw clock e w =
     (if fe_phase e = PkAdd then
        (if gw_pointer_currently_added w then [] else [in_pixels (clock 0) (gw_pixels_per_screen_coordinate w) e])
      else
        (if gw_pointer_currently_added w then []
         else [in_pixels (clock 1) (gw_pixels_per_screen_coordinate w)
                 (empty_event\<lparr>fe_phase := PkAdd, fe_x := fe_x e, fe_y := fe_y e\<rparr>)]) @
        [in_pixels (clock 0) (gw_pixels_per_screen_coordinate w) e])"

lemma SendPointerEventWithData_glfw_sent:
  "SendPointerEventWithData_glfw clock e w =
     w\<lparr>gw_pointer_currently_added := fe_phase e \<noteq> PkRemove,
       gw_calls := gw_calls w @ map PointerEventSent (sent_glfw clock e w)\<rparr>"
proof -
  have add: "SendPointerEventWithData_glfw c a w =
      w\<lparr>gw_pointer_currently_added := True,
        gw_calls := gw_calls w @ map PointerEventSent (sent_glfw c a w)\<rparr>" if "fe_phase a = PkAdd"
    for c a and w :: glfw_window
    using that
    by (subst SendPointerEventWithData_glfw.simps)
      (cases w, simp add: sent_glfw_def in_pixels_def glfw_call_def Let_def)
  show ?thesis
  proof (cases "fe_phase e = PkAdd")
    case False
    then show ?thesis
      by (subst SendPointerEventWithData_glfw.simps)
        (cases w, simp add: add sent_glfw_def in_pixels_def glfw_call_def Let_def)
  qed (simp add: add)
qed

lemma sent_glfw_follows:
  assumes "fe_device e = 0"
    "fe_signal_kind e = SkScroll \<and> fe_phase e \<noteq> PkAdd \<or>
     fe_signal_kind e = SkNone \<and>
     (fe_phase e = PkAdd \<or> fe_phase e = PkRemove \<or>
      (if down then fe_phase e \<in> {PkMove, PkUp} else fe_phase e \<in> {PkHover, PkDown}))"
    "down \<Longrightarrow> gw_pointer_currently_added w"
  shows "follows (sent_glfw clock e w) (known_pointer (gw_pointer_currently_added w) down)
    (if fe_signal_kind e = SkScroll then Some down
     else if fe_phase e = PkRemove then None
     else if fe_phase e = PkAdd then Some down
     else Some (fe_phase e \<in> {PkMove, PkDown}))"
  using assms
  by (cases "fe_phase e"; cases "fe_signal_kind e")
    (auto simp: sent_glfw_def event_ok_def in_pixels_def known_pointer_def may_follow_def track_def split: if_splits)

lemma glfw_hooks:
  "fold (\<lambda>h. glfw_call (f h)) hs w = w\<lparr>gw_calls := gw_calls w @ map f hs\<rparr>"
  by (induction hs arbitrary: w) (simp_all add: glfw_call_def)

lemma pointer_events_of_hooks [simp]:
  "pointer_events_of (map (\<lambda>h. CharHookRun h c) hs) = []"
  "pointer_events_of (map (\<lambda>h. KeyboardHookRun h k sc a m) hs) = []"
  by (induction hs) simp_all

lemmas glfw_quiet_defs = SendWindowMetrics_glfw_def GLFWFramebufferSizeCallback_def GLFWWindowRefreshCallback_def
  FlutterDesktopWindowSetPixelRatioOverride_def GLFWCharCallback_def GLFWKeyCallback_def
  FlutterDesktopWindowSetHoverEnabled_def apply_input_event_glfw_def GLFWAssignEventCallbacks_def
  GLFWClearEventCallbacks_def SetHoverCallbacksEnabled_def glfw_hooks glfw_call_def

lemmas glfw_pointer_defs = GLFWCursorEnterCallback_def GLFWCursorPositionCallback_def GLFWMouseButtonCallback_def
  GLFWScrollCallback_def SetEventLocationFromCursorPosition_glfw_def SetEventPhaseFromCursorButtonState_glfw_def
  SendPointerEventWithData_glfw_sent

text \<open>The events a callback may send, and the state of the button after them.\<close>

definition fits_button :: "flutter_pointer_event \<Rightarrow> bool \<Rightarrow> bool" where
  "fits_button e left \<longleftrightarrow> fe_device e = 0 \<and>
     (fe_signal_kind e = SkNone \<or> fe_signal_kind e = SkScroll \<and> fe_phase e \<in> {PkMove, PkHover}) \<and>
     (if left then fe_phase e \<in> {PkMove, PkUp} else fe_phase e \<in> {PkHover, PkDown, PkAdd, PkRemove})"

definition button_after :: "flutter_pointer_event \<Rightarrow> bool" where
  "button_after e \<longleftrightarrow> fe_phase e \<in> {PkMove, PkDown}"

lemma glfw_sends:
  assumes "glfw_tracks (left, w) t" "gw_mouse_button_callback w" "fits_button e left"
  shows "follows (sent_glfw clock e w) t (known_pointer (fe_phase e \<noteq> PkRemove) (button_after e))"
proof -
  have t: "t = known_pointer (gw_pointer_currently_added w) left" "left \<Longrightarrow> gw_pointer_currently_added w"
    using assms(1,2) by (auto simp: glfw_tracks_def)
  from sent_glfw_follows [of e left w clock] t assms(3) show ?thesis
    by (auto simp: known_pointer_def fits_button_def button_after_def split: if_splits)
qed

lemma sent_glfw_calls [simp]: "sent_glfw clock e (w\<lparr>gw_calls := cs\<rparr>) = sent_glfw clock e w"
  by (simp add: sent_glfw_def)

lemma glfw_callback:
  assumes "glfw_tracks (left, w) t" "gw_mouse_button_callback w" "fits_button e left"
    "left_after i left = button_after e" "w' = glfw_deliver i (button_after e) (w\<lparr>gw_calls := []\<rparr>)"
    "gw_calls w' = map PointerEventSent (sent_glfw clock e w)" "gw_mouse_button_callback w'"
    "gw_pointer_currently_added w' \<longleftrightarrow> fe_phase e \<noteq> PkRemove"
    "gw_cursor_enter_callback w' \<Longrightarrow> \<not> button_after e \<and> gw_hover_tracking_enabled w'"
  shows "\<exists>t'. follows (fst (glfw_step i (left, w))) t t' \<and> glfw_tracks (snd (glfw_step i (left, w))) t'"
proof -
  have "glfw_step i (left, w) = (sent_glfw clock e w, button_after e, w')"
    using assms(4,5,6) by (simp add: glfw_step_def)
  moreover have "glfw_tracks (button_after e, w') (known_pointer (fe_phase e \<noteq> PkRemove) (button_after e))"
    using assms(7-9) by (auto simp: glfw_tracks_def button_after_def)
  ultimately show ?thesis using glfw_sends [OF assms(1-3), of clock] by auto
qed

lemma glfw_silent:
  assumes "glfw_tracks (left, w) t" "left_after i left = left \<or> \<not> gw_mouse_button_callback w"
    "glfw_deliver i (left_after i left) (w\<lparr>gw_calls := []\<rparr>) = w\<lparr>gw_calls := []\<rparr>"
  shows "\<exists>t'. follows (fst (glfw_step i (left, w))) t t' \<and> glfw_tracks (snd (glfw_step i (left, w))) t'"
  using assms by (intro exI [of _ t]) (auto simp: glfw_step_def glfw_tracks_def)

lemma glfw_callbacks_need_button:
  assumes "glfw_tracks (left, w) t"
  shows "gw_cursor_enter_callback w \<Longrightarrow> gw_mouse_button_callback w \<and> \<not> left \<and> gw_hover_tracking_enabled w"
    "gw_cursor_pos_callback w \<Longrightarrow> gw_mouse_button_callback w"
    "gw_scroll_callback w \<Longrightarrow> gw_mouse_button_callback w"
  using assms by (auto simp: glfw_tracks_def split: if_splits)

lemmas glfw_callback_simps = glfw_deliver_def left_after_def fits_button_def button_after_def glfw_pointer_defs

lemma glfw_enter_tracked:
  assumes t: "glfw_tracks (left, w) t" and i: "i = CursorEnter env entered"
  shows "\<exists>t'. follows (fst (glfw_step i (left, w))) t t' \<and> glfw_tracks (snd (glfw_step i (left, w))) t'"
proof (cases "gw_cursor_enter_callback w")
  case True
  with glfw_callbacks_need_button [OF t] i show ?thesis
    by (intro glfw_callback [OF t, where e = "SetEventLocationFromCursorPosition_glfw env
          (empty_event\<lparr>fe_phase := if entered then PkAdd else PkRemove\<rparr>)" and clock = "ge_clock env", OF _ _ _ refl])
      (auto simp: glfw_callback_simps split: if_splits)
qed (use i in \<open>intro glfw_silent [OF t], simp_all add: glfw_callback_simps\<close>)

lemma glfw_position_tracked:
  assumes t: "glfw_tracks (left, w) t" and i: "i = CursorPosition env x y"
  shows "\<exists>t'. follows (fst (glfw_step i (left, w))) t t' \<and> glfw_tracks (snd (glfw_step i (left, w))) t'"
proof (cases "gw_cursor_pos_callback w")
  case True
  with glfw_callbacks_need_button [OF t] i show ?thesis
    by (intro glfw_callback [OF t, where e = "SetEventPhaseFromCursorButtonState_glfw left
          (empty_event\<lparr>fe_x := x, fe_y := y\<rparr>)" and clock = "ge_clock env", OF _ _ _ refl])
      (auto simp: glfw_callback_simps Let_def split: if_splits)
qed (use i in \<open>intro glfw_silent [OF t], simp_all add: glfw_callback_simps\<close>)

lemma glfw_button_tracked:
  assumes t: "glfw_tracks (left, w) t" and i: "i = MouseButton env is_left press"
    and adm: "glfw_admissible i (left, w)"
  shows "\<exists>t'. follows (fst (glfw_step i (left, w))) t t' \<and> glfw_tracks (snd (glfw_step i (left, w))) t'"
proof (cases "gw_mouse_button_callback w \<and> is_left")
  case True
  then have "press \<noteq> left" using adm i by (simp add: glfw_admissible_def)
  with True t i show ?thesis
    by (intro glfw_callback [OF t, where e = "SetEventLocationFromCursorPosition_glfw env
          (empty_event\<lparr>fe_phase := if press then PkDown else PkUp\<rparr>)" and clock = "ge_clock env", OF _ _ _ refl])
      (auto simp: glfw_callback_simps glfw_tracks_def Let_def split: if_splits)
qed (use i in \<open>intro glfw_silent [OF t], auto simp: glfw_callback_simps split: if_splits\<close>)

lemma glfw_scroll_tracked:
  assumes t: "glfw_tracks (left, w) t" and i: "i = Scroll env dx dy"
  shows "\<exists>t'. follows (fst (glfw_step i (left, w))) t t' \<and> glfw_tracks (snd (glfw_step i (left, w))) t'"
proof (cases "gw_scroll_callback w")
  case True
  with glfw_callbacks_need_button [OF t] i show ?thesis
    by (intro glfw_callback [OF t, where e = "(SetEventPhaseFromCursorButtonState_glfw left
          (SetEventLocationFromCursorPosition_glfw env empty_event))
          \<lparr>fe_signal_kind := SkScroll, fe_scroll_delta_x := double_times dx (double_of_int 20),
           fe_scroll_delta_y := double_times (double_neg dy) (double_of_int 20)\<rparr>" and clock = "ge_clock env", OF _ _ _ refl])
      (auto simp: glfw_callback_simps Let_def split: if_splits)
qed (use i in \<open>intro glfw_silent [OF t], simp_all add: glfw_callback_simps\<close>)

interpretation glfw: pointer_source glfw_step glfw_admissible glfw_tracks
proof
  fix s :: "bool \<times> glfw_window" and t i
  assume "glfw_tracks s t" "glfw_admissible i s"
  moreover obtain left w where s: "s = (left, w)" by (cases s)
  ultimately have t: "glfw_tracks (left, w) t" and adm: "glfw_admissible i (left, w)" by simp_all
  show "\<exists>t'. follows (fst (glfw_step i s)) t t' \<and> glfw_tracks (snd (glfw_step i s)) t'"
  proof (cases i)
    case (CursorEnter env entered)
    then show ?thesis unfolding s by (rule glfw_enter_tracked [OF t])
  next
    case (CursorPosition env x y)
    then show ?thesis unfolding s by (rule glfw_position_tracked [OF t])
  next
    case (MouseButton env is_left press)
    then show ?thesis unfolding s by (rule glfw_button_tracked [OF t _ adm])
  next
    case (Scroll env dx dy)
    then show ?thesis unfolding s by (rule glfw_scroll_tracked [OF t])
  qed (use t adm s in \<open>auto simp: glfw_step_def glfw_deliver_def left_after_def glfw_tracks_def glfw_admissible_def
        glfw_quiet_defs Let_def split: if_splits event.splits\<close>)
qed


definition demo_glfw_env :: glfw_env where
  "demo_glfw_env =
     \<lparr>ge_clock = \<lambda>_. 0, ge_cursor_x = 0, ge_cursor_y = 0, ge_window_width = 800, ge_window_height = 600,
      ge_framebuffer_width = 800, ge_framebuffer_height = 600, ge_window_x = 0, ge_window_y = 0,
      ge_frame_left = 0, ge_frame_top = 0, ge_frame_right = 0, ge_frame_bottom = 0\<rparr>"

definition demo_drag :: "glfw_input list" where
  "demo_drag = [CursorEnter demo_glfw_env True, MouseButton demo_glfw_env True True,
     CursorPosition demo_glfw_env 0 0, MouseButton demo_glfw_env True False, CursorEnter demo_glfw_env False]"


text \<open>
  A release that GLFW reports while input is blocked never reaches the engine. The next motion is then
  sent as hovering of a pointer the converter believes to be down.
\<close>

definition lost_release :: "glfw_input list" where
  "lost_release = [MouseButton demo_glfw_env True True, InputEvent BlockInput,
     MouseButton demo_glfw_env True False, InputEvent UnblockInput, CursorPosition demo_glfw_env 0 0]"

theorem lost_release_fails:
  "send_events (fst (run_source glfw_step lost_release (False, create_window_state demo_glfw_env mw mm)))
     PointerDataPacketConverter = Inl DCheckFailed"
proof -
  let ?w = "create_window_state demo_glfw_env mw mm"
  let ?s = "gw_pixels_per_screen_coordinate ?w"
  have "fst (run_source glfw_step lost_release (False, ?w)) =
    [in_pixels 0 ?s (empty_event\<lparr>fe_phase := PkAdd\<rparr>), in_pixels 0 ?s (empty_event\<lparr>fe_phase := PkDown\<rparr>)] @
    [in_pixels 0 ?s (empty_event\<lparr>fe_phase := PkHover\<rparr>)]"
    by (simp add: lost_release_def glfw_step_def glfw_deliver_def left_after_def glfw_pointer_defs glfw_quiet_defs
        sent_glfw_def create_window_state_def demo_glfw_env_def empty_event_def Let_def)
  then show ?thesis
    using send_events_fails [of "[in_pixels 0 ?s (empty_event\<lparr>fe_phase := PkAdd\<rparr>),
        in_pixels 0 ?s (empty_event\<lparr>fe_phase := PkDown\<rparr>)]" PointerDataPacketConverter "Some True"
        "in_pixels 0 ?s (empty_event\<lparr>fe_phase := PkHover\<rparr>)"]
    by (simp add: event_ok_def in_pixels_def may_follow_def track_def)
qed

end
