(* ===== verification/Spec2Isabelle.thy ===== *)
theory Spec2Isabelle
  imports Message_Loop Thread_Merger Standard_Codec_Correct Pointer_Converter_Correct
    Key_Events Rasterizer Pointer_Dispatcher Win32_Window Glfw_Window
begin

text \<open>
  A verification library for the Flutter engine, \<^verbatim>\<open>src/engine-master\<close>. Paths below are relative to that directory.

  \<^bold>\<open>The program.\<close> The engine runs an application's framework on four threads, each with a message loop
  over a process-wide table of task queues (\<^verbatim>\<open>fml\<close>). Frames travel from the animator, which asks the platform
  for a vertical sync, through a bounded pipeline to the rasterizer (\<^verbatim>\<open>shell/common\<close>). Pointer events come in
  from a platform window, are packed by the embedder API, repaired by a converter and handed to the framework in
  packets (\<^verbatim>\<open>lib/ui/window\<close>). Platform messages and method calls cross between the framework and plugins as bytes
  of the standard codec (\<^verbatim>\<open>shell/platform/common/cpp\<close>). The desktop embedders add text input, key and clipboard plugins.

  \<^bold>\<open>Conventions.\<close> An operation that can fail returns \<open>'a res\<close>, a \<open>cxx_error\<close> or a value
  (\<open>Prelude\<close>): a failed \<^verbatim>\<open>FML_DCHECK\<close> of a debug build, a null dereference, an iterator out of range, a read of an
  uninitialised variable. Mutable objects are records that are passed and returned. Machine integers whose
  width matters are words; doubles are their bit patterns (\<open>Doubles\<close>). What the sources only call, the
  graphics library, the window systems, JSON values, the Dart virtual machine and the closures a client posts, is an
  argument of the definitions that use it. Critical sections under one mutex are single steps; where
  the code releases a lock between two pieces, the pieces are separate steps of an interleaving.

  \<^bold>\<open>Theories.\<close>
  \<^item> \<open>Prelude\<close>: results, guards, \<^verbatim>\<open>std::map\<close> as a locale with its interpretation, list lemmas.
  \<^item> \<open>Delayed_Tasks\<close>: \<^verbatim>\<open>fml/delayed_task\<close>; \<^verbatim>\<open>std::priority_queue\<close> as the locale of
    priority queues, interpreted on the model's queue.
  \<^item> \<open>Task_Queues\<close>, \<open>Task_Queues_Correct\<close>: \<^verbatim>\<open>fml/message_loop_task_queues.cc\<close>, operation by operation. The
    owner and subsumed links agree in every reachable table; a flush returns exactly the due tasks in
    order, also over merged queues; merging pools and unmerging restores; wake-ups are armed for the
    earliest task, and when they are not.
  \<^item> \<open>Thread_Merger\<close>: \<^verbatim>\<open>fml/gpu_thread_merger.cc\<close>; leases end exactly on time.
  \<^item> \<open>Message_Loop\<close>: \<^verbatim>\<open>fml/message_loop_impl.cc\<close>; what a flush runs, and that a loop that has run is empty.
  \<^item> \<open>Byte_Stream\<close>, \<open>Encodable_Value\<close>, \<open>Standard_Codec\<close>, \<open>Standard_Codec_Correct\<close>: \<^verbatim>\<open>byte_stream_wrappers.h\<close>,
    \<^verbatim>\<open>encodable_value.h\<close> and \<^verbatim>\<open>standard_codec.cc\<close>; round trips of values, messages, calls and
    envelopes, termination of the decoder on every input, and the inputs it mishandles.
  \<^item> \<open>Pointer_Data\<close>, \<open>Pointer_Converter\<close>, \<open>Pointer_Converter_Correct\<close>: \<^verbatim>\<open>lib/ui/window\<close>; the converted stream
    refines a relation of clean streams, identifiers are fresh, and conversion fails exactly on the
    transitions the code asserts against.
  \<^item> \<open>Utf8\<close>, \<open>Text_Input\<close>: \<^verbatim>\<open>text_input_model.cc\<close> over the conversions of the C++ library.
  \<^item> \<open>Message_Channel\<close>: \<^verbatim>\<open>incoming_message_dispatcher.cc\<close>, \<^verbatim>\<open>plugin_registrar.cc\<close> and the method
    channel headers; the locale of method codecs is interpreted on the standard codec.
  \<^item> \<open>Desktop_Plugins\<close>, \<open>Key_Events\<close>: the text input, platform and key handlers of the GLFW and Windows embedders.
  \<^item> \<open>Frame_Pipeline\<close>, \<open>Animator\<close>, \<open>Rasterizer\<close>, \<open>Pointer_Dispatcher\<close>: \<^verbatim>\<open>shell/common\<close> with
    \<^verbatim>\<open>fml/synchronization/semaphore.cc\<close> and \<^verbatim>\<open>flow/compositor_context.cc\<close>. Step relations interleave producer and
    consumer, the UI thread, the platform's vertical sync and the framework's calls.

  \<^bold>\<open>Bounds.\<close> The decoder of the standard codec recurses with a bound of one more than the bytes
  left, which \<open>decode_terminates\<close> shows to be enough: each nested value takes at least one byte. All
  other loops are functions with a measure or structural recursion.

  \<^bold>\<open>Not modelled.\<close> Layers, painting, images, surfaces and Vulkan wrappers paint through Skia and the
  graphics interfaces. The Dart runtime and the bindings of \<^verbatim>\<open>dart:ui\<close> drive the Dart virtual
  machine. Shaping and paragraph layout call ICU, HarfBuzz and FreeType. The Android, Darwin and Fuchsia
  embedders translate between their systems' interfaces. None of these is part of the sources, and
  little remains of the code without them. \<^verbatim>\<open>shell.cc\<close> and \<^verbatim>\<open>engine.cc\<close> wire the modelled parts together over
  threads whose creation is the operating system's. Files, mappings, logging and tracing are
  input and output.
\<close>

end
